(* ===== verification/SV_Prelude.thy ===== *)
theory SV_Prelude
  imports Main "HOL-Library.Word" "HOL-Library.Char_ord" "HOL-Library.List_Lexorder"
begin

text \<open>
  The vocabulary every component of the ShadowVault model shares.

  \<^item> Go's \<open>byte\<close> is the HOL type \<open>char\<close>, which has exactly 256 values, so that a
    \<open>[]byte\<close> and a Go \<open>string\<close> are both \<open>char list\<close> and the conversions
    \<open>[]byte(s)\<close> and \<open>string(b)\<close>, which copy the contents, are the identity.
    Word arithmetic on a byte goes through \<open>of_char\<close>.
  \<^item> A Go function that can panic returns an \<open>outcome\<close>; an \<open>error\<close> result is the
    left summand of a sum. The two are different things: an error is a value the caller
    inspects, a panic unwinds the caller.
  \<^item> The parts of the standard library whose results the program's logic depends on:
    hexadecimal (\<open>encoding/hex\<close>), base64 (\<open>encoding/base64\<close>, \<open>StdEncoding\<close>),
    decimal printing (\<open>%d\<close>), lexicographic order on byte strings.
  \<^item> Lemma collections used by the component theories.
\<close>

unbundle bit_operations_syntax

type_synonym byte = char
type_synonym bytes = "char list"
type_synonym u32 = "32 word"
type_synonym u64 = "64 word"
type_synonym i64 = "64 word"

named_theorems sv_split \<open>case splits of the results the operations return\<close>
named_theorems sv_codec \<open>round trips and lengths of the encodings\<close>

lemmas [sv_split] = option.splits sum.splits prod.splits if_splits

section \<open>Panics\<close>

datatype 'a outcome = Ret (returned: 'a) | Panic string

fun obind :: "'a outcome \<Rightarrow> ('a \<Rightarrow> 'b outcome) \<Rightarrow> 'b outcome" where
  "obind (Ret a) f = f a"
| "obind (Panic m) f = Panic m"

fun is_panic :: "'a outcome \<Rightarrow> bool" where
  "is_panic (Ret a) = False"
| "is_panic (Panic m) = True"

lemmas [sv_split] = outcome.splits

lemma obind_Ret_iff: "obind m f = Ret b \<longleftrightarrow> (\<exists>a. m = Ret a \<and> f a = Ret b)"
  by (cases m) auto

lemma not_is_panic_iff: "\<not> is_panic m \<longleftrightarrow> (\<exists>a. m = Ret a)"
  by (cases m) auto

section \<open>Errors in sums\<close>

fun bindr :: "'e + 'a \<Rightarrow> ('a \<Rightarrow> 'e + 'b) \<Rightarrow> 'e + 'b" where
  "bindr (Inl e) f = Inl e"
| "bindr (Inr a) f = f a"

lemma bindr_Inr_iff: "bindr m f = Inr b \<longleftrightarrow> (\<exists>a. m = Inr a \<and> f a = Inr b)"
  by (cases m) auto

section \<open>Hexadecimal: encoding/hex\<close>

definition byte_val :: "byte \<Rightarrow> nat" where
  "byte_val c = of_char c"

definition byte_of :: "nat \<Rightarrow> byte" where
  "byte_of n = char_of n"

lemma byte_val_less [simp]: "byte_val c < 256"
  by (simp add: byte_val_def)

lemma byte_of_val [simp]: "byte_of (byte_val c) = c"
  by (simp add: byte_of_def byte_val_def)

lemma byte_val_of [simp]: "n < 256 \<Longrightarrow> byte_val (byte_of n) = n"
  by (simp add: byte_of_def byte_val_def)

definition hex_alphabet :: string where
  "hex_alphabet = ''0123456789abcdef''"

definition hex_byte :: "byte \<Rightarrow> string" where
  "hex_byte c = [hex_alphabet ! (byte_val c div 16), hex_alphabet ! (byte_val c mod 16)]"

fun hex_EncodeToString :: "bytes \<Rightarrow> string" where
  "hex_EncodeToString [] = []"
| "hex_EncodeToString (c # cs) = hex_byte c @ hex_EncodeToString cs"

lemma distinct_hex_alphabet: "distinct hex_alphabet"
  by (simp add: hex_alphabet_def)

lemma length_hex_alphabet [simp]: "length hex_alphabet = 16"
  by (simp add: hex_alphabet_def)

lemma hex_nth_inject: "i < 16 \<Longrightarrow> j < 16 \<Longrightarrow> (hex_alphabet ! i = hex_alphabet ! j) = (i = j)"
  by (simp add: nth_eq_iff_index_eq distinct_hex_alphabet)

lemma hex_byte_inject [simp]: "hex_byte c = hex_byte d \<longleftrightarrow> c = d"
proof
  assume "hex_byte c = hex_byte d"
  then have "byte_val c div 16 = byte_val d div 16" and "byte_val c mod 16 = byte_val d mod 16"
    using byte_val_less [of c] byte_val_less [of d]
    by (auto simp: hex_byte_def hex_nth_inject less_mult_imp_div_less)
  then have "byte_val c = byte_val d"
    by (metis div_mult_mod_eq)
  then show "c = d"
    by (metis byte_of_val)
qed simp

lemma length_hex_byte [simp]: "length (hex_byte c) = 2"
  by (simp add: hex_byte_def)

lemma length_hex [simp, sv_codec]: "length (hex_EncodeToString bs) = 2 * length bs"
  by (induction bs) auto

lemma hex_inject [simp, sv_codec]: "hex_EncodeToString a = hex_EncodeToString b \<longleftrightarrow> a = b"
proof (induction a arbitrary: b)
  case Nil
  then show ?case by (cases b) (auto simp: hex_byte_def)
next
  case (Cons c cs)
  note IH = Cons.IH
  show ?case
  proof (cases b)
    case (Cons d ds)
    have "hex_byte c @ hex_EncodeToString cs = hex_byte d @ hex_EncodeToString ds \<longleftrightarrow>
        hex_byte c = hex_byte d \<and> hex_EncodeToString cs = hex_EncodeToString ds"
      by (rule append_eq_append_conv) simp
    with Cons IH show ?thesis by simp
  qed (simp add: hex_byte_def)
qed

section \<open>Base64: encoding/base64, StdEncoding\<close>

text \<open>
  \<open>EncodeToString\<close> turns three bytes into four characters and pads the last group with
  \<open>=\<close>. \<open>DecodeString\<close> skips carriage returns and newlines wherever they stand, wants
  the padding, and accepts non-zero trailing bits in the last group. An error of the
  decoder is \<open>None\<close>.
\<close>

definition b64_alphabet :: string where
  "b64_alphabet = ''ABCDEFGHIJKLMNOPQRSTUVWXYZabcdefghijklmnopqrstuvwxyz0123456789+/''"

definition b64_char :: "nat \<Rightarrow> char" where
  "b64_char n = b64_alphabet ! n"

definition b64_val :: "char \<Rightarrow> nat option" where
  "b64_val c = map_of (zip b64_alphabet [0..<64]) c"

fun base64_EncodeToString :: "bytes \<Rightarrow> string" where
  "base64_EncodeToString [] = []"
| "base64_EncodeToString [x] =
     (let a = byte_val x in
      [b64_char (a div 4), b64_char (a mod 4 * 16), CHR ''='', CHR ''=''])"
| "base64_EncodeToString [x, y] =
     (let a = byte_val x; b = byte_val y in
      [b64_char (a div 4), b64_char (a mod 4 * 16 + b div 16), b64_char (b mod 16 * 4), CHR ''=''])"
| "base64_EncodeToString (x # y # z # rest) =
     (let a = byte_val x; b = byte_val y; c = byte_val z in
      [b64_char (a div 4), b64_char (a mod 4 * 16 + b div 16),
       b64_char (b mod 16 * 4 + c div 64), b64_char (c mod 64)] @ base64_EncodeToString rest)"

fun b64_quanta :: "string \<Rightarrow> bytes option" where
  "b64_quanta [] = Some []"
| "b64_quanta (p # q # r # s # rest) =
     (case (b64_val p, b64_val q) of
        (Some a, Some b) \<Rightarrow>
          (if r = CHR ''='' \<and> s = CHR ''='' \<and> rest = [] then
             Some [byte_of (a * 4 + b div 16)]
           else (case b64_val r of
               None \<Rightarrow> None
             | Some c \<Rightarrow>
                 (if s = CHR ''='' \<and> rest = [] then
                    Some [byte_of (a * 4 + b div 16), byte_of (b mod 16 * 16 + c div 4)]
                  else (case b64_val s of
                      None \<Rightarrow> None
                    | Some d \<Rightarrow> map_option
                        (\<lambda>bs. byte_of (a * 4 + b div 16) # byte_of (b mod 16 * 16 + c div 4) #
                              byte_of (c mod 4 * 64 + d) # bs)
                        (b64_quanta rest)))))
      | _ \<Rightarrow> None)"
| "b64_quanta _ = None"

definition base64_DecodeString :: "string \<Rightarrow> bytes option" where
  "base64_DecodeString s = b64_quanta (filter (\<lambda>c. c \<noteq> CHR 0x0A \<and> c \<noteq> CHR 0x0D) s)"

lemma b64_table:
  "list_all (\<lambda>n. b64_val (b64_char n) = Some n \<and> b64_char n \<noteq> CHR ''='' \<and>
      b64_char n \<noteq> CHR 0x0A \<and> b64_char n \<noteq> CHR 0x0D) [0..<64]"
  by code_simp

lemma b64_char_facts [simp]:
  assumes "n < 64"
  shows "b64_val (b64_char n) = Some n" and "b64_char n \<noteq> CHR ''=''"
    and "b64_char n \<noteq> CHR 0x0A" and "b64_char n \<noteq> CHR 0x0D"
  using b64_table assms by (auto simp: list_all_iff)

lemma b64_byte_pieces [simp]:
  fixes c :: byte
  shows "byte_val c div 4 < 64" and "byte_val c mod 4 * 16 < 64" and "byte_val c mod 16 * 4 < 64"
    and "byte_val c mod 4 * 16 + byte_val d div 16 < 64"
    and "byte_val c mod 16 * 4 + byte_val d div 64 < 64" and "byte_val c mod 64 < 64"
proof -
  have "byte_val c div 4 < 64" "byte_val d div 16 < 16" "byte_val d div 64 < 4"
    using byte_val_less [of c] byte_val_less [of d] by (simp_all add: less_mult_imp_div_less)
  moreover have "byte_val c mod 4 < 4" "byte_val c mod 16 < 16" "byte_val c mod 64 < 64"
    by simp_all
  ultimately show "byte_val c div 4 < 64" "byte_val c mod 4 * 16 < 64" "byte_val c mod 16 * 4 < 64"
    "byte_val c mod 4 * 16 + byte_val d div 16 < 64"
    "byte_val c mod 16 * 4 + byte_val d div 64 < 64" "byte_val c mod 64 < 64"
    by linarith+
qed

lemma b64_regroup:
  "byte_val c div 16 div 16 = 0" "byte_val c div 64 div 4 = 0"
  "byte_val c div 16 mod 16 = byte_val c div 16" "byte_val c div 64 mod 4 = byte_val c div 64"
proof -
  have "byte_val c div 16 < 16" "byte_val c div 64 < 4"
    by (simp_all add: less_mult_imp_div_less)
  then show "byte_val c div 16 div 16 = 0" "byte_val c div 64 div 4 = 0"
    "byte_val c div 16 mod 16 = byte_val c div 16" "byte_val c div 64 mod 4 = byte_val c div 64"
    by (simp_all only: div_less mod_less)
qed

lemma b64_quanta_encode: "b64_quanta (base64_EncodeToString bs) = Some bs"
  by (induction bs rule: base64_EncodeToString.induct) (simp_all add: Let_def b64_regroup)

lemma b64_encode_no_newline:
  "filter (\<lambda>c. c \<noteq> CHR 0x0A \<and> c \<noteq> CHR 0x0D) (base64_EncodeToString bs) = base64_EncodeToString bs"
  by (induction bs rule: base64_EncodeToString.induct) (simp_all add: Let_def)

lemma base64_round_trip [simp, sv_codec]: "base64_DecodeString (base64_EncodeToString bs) = Some bs"
  by (simp add: base64_DecodeString_def b64_encode_no_newline b64_quanta_encode)

lemma base64_inject [simp, sv_codec]:
  "base64_EncodeToString a = base64_EncodeToString b \<longleftrightarrow> a = b"
  by (metis base64_round_trip option.inject)

section \<open>Decimal: fmt's verb \<open>%d\<close>\<close>

fun decimal :: "nat \<Rightarrow> string" where
  "decimal n = (if n < 10 then [char_of (48 + n)] else decimal (n div 10) @ [char_of (48 + n mod 10)])"

declare decimal.simps [simp del]

definition itoa :: "int \<Rightarrow> string" where
  "itoa i = (if i < 0 then CHR ''-'' # decimal (nat (- i)) else decimal (nat i))"

definition undecimal :: "string \<Rightarrow> nat" where
  "undecimal s = foldl (\<lambda>n c. n * 10 + (of_char c - 48)) 0 s"

lemma undecimal_decimal: "undecimal (decimal n) = n"
proof (induction n rule: decimal.induct)
  case (1 n)
  show ?case
  proof (cases "n < 10")
    case True
    then show ?thesis by (subst decimal.simps) (simp add: undecimal_def)
  next
    case False
    with 1 have "undecimal (decimal (n div 10)) = n div 10" by simp
    with False show ?thesis by (subst decimal.simps) (simp add: undecimal_def)
  qed
qed

lemma decimal_inject [simp]: "decimal m = decimal n \<longleftrightarrow> m = n"
  by (metis undecimal_decimal)

lemma decimal_nonempty: "decimal n \<noteq> []"
  by (subst decimal.simps) simp

lemma decimal_digits: "c \<in> set (decimal n) \<Longrightarrow> 48 \<le> (of_char c :: nat) \<and> (of_char c :: nat) \<le> 57"
proof (induction n rule: decimal.induct)
  case (1 n)
  show ?case
  proof (cases "n < 10")
    case True
    with "1.prems" show ?thesis by (subst (asm) decimal.simps) auto
  next
    case False
    then have "decimal n = decimal (n div 10) @ [char_of (48 + n mod 10)]"
      by (subst decimal.simps) simp
    with "1.prems" have "c \<in> set (decimal (n div 10)) \<or> c = char_of (48 + n mod 10)" by auto
    then show ?thesis
    proof
      assume "c = char_of (48 + n mod 10)"
      moreover have "48 + n mod 10 < 256" by presburger
      ultimately have "(of_char c :: nat) = 48 + n mod 10" by simp
      then show ?thesis by presburger
    qed (use False 1 in simp)
  qed
qed

lemma itoa_inject [simp]: "itoa i = itoa j \<longleftrightarrow> i = j"
proof -
  have minus: "CHR ''-'' \<notin> set (decimal n)" for n
    using decimal_digits [of "CHR ''-''" n] by auto
  then have "decimal n \<noteq> CHR ''-'' # s" and "CHR ''-'' # s \<noteq> decimal n" for n s
    by (metis list.set_intros(1))+
  then show ?thesis
    by (cases "i < 0"; cases "j < 0") (simp_all add: itoa_def eq_nat_nat_iff)
qed

end
