(* ===== verification/SV_Errors.thy ===== *)
theory SV_Errors
  imports SV_Prelude
begin

text \<open>
  \<open>internal/errors/errors.go\<close>, and the error values of the whole program.

  Go compares errors by identity in two places (\<open>err == io.EOF\<close>,
  \<open>err == versioning.ErrSnapshotNotFound\<close>), so the package-level error variables are a
  constructor of their own, \<open>Sentinel\<close>. \<open>errors.New\<close> and \<open>fmt.Errorf\<close> without
  \<open>%w\<close> give \<open>ErrorString\<close>; \<open>fmt.Errorf("text: %w", err)\<close> gives \<open>Wrapf\<close>,
  which keeps the chain \<open>errors.As\<close> walks.
\<close>

section \<open>Error values\<close>

type_synonym ErrorCode = string

datatype gerror =
    Sentinel string
  | ErrorString string
  | Wrapf string gerror
  | SV ShadowVaultError
and ShadowVaultError =
    ShadowVaultError (Code: ErrorCode) (Message: string) (Err: "gerror option")
      (Retryable: bool) (StatusCode: int)

definition EOF :: gerror where "EOF = Sentinel ''EOF''"

definition ErrCodeStorageFull :: ErrorCode where "ErrCodeStorageFull = ''STORAGE_FULL''"
definition ErrCodeStorageCorrupted :: ErrorCode where "ErrCodeStorageCorrupted = ''STORAGE_CORRUPTED''"
definition ErrCodeChunkNotFound :: ErrorCode where "ErrCodeChunkNotFound = ''CHUNK_NOT_FOUND''"
definition ErrCodeChunkInvalid :: ErrorCode where "ErrCodeChunkInvalid = ''CHUNK_INVALID''"
definition ErrCodeNetworkTimeout :: ErrorCode where "ErrCodeNetworkTimeout = ''NETWORK_TIMEOUT''"
definition ErrCodeNetworkUnreachable :: ErrorCode where "ErrCodeNetworkUnreachable = ''NETWORK_UNREACHABLE''"
definition ErrCodePeerNotFound :: ErrorCode where "ErrCodePeerNotFound = ''PEER_NOT_FOUND''"
definition ErrCodeConnectionFailed :: ErrorCode where "ErrCodeConnectionFailed = ''CONNECTION_FAILED''"
definition ErrCodeEncryptionFailed :: ErrorCode where "ErrCodeEncryptionFailed = ''ENCRYPTION_FAILED''"
definition ErrCodeDecryptionFailed :: ErrorCode where "ErrCodeDecryptionFailed = ''DECRYPTION_FAILED''"
definition ErrCodeInvalidSignature :: ErrorCode where "ErrCodeInvalidSignature = ''INVALID_SIGNATURE''"
definition ErrCodeInvalidKey :: ErrorCode where "ErrCodeInvalidKey = ''INVALID_KEY''"
definition ErrCodeSnapshotNotFound :: ErrorCode where "ErrCodeSnapshotNotFound = ''SNAPSHOT_NOT_FOUND''"
definition ErrCodeSnapshotCorrupted :: ErrorCode where "ErrCodeSnapshotCorrupted = ''SNAPSHOT_CORRUPTED''"
definition ErrCodeSnapshotInvalid :: ErrorCode where "ErrCodeSnapshotInvalid = ''SNAPSHOT_INVALID''"
definition ErrCodeConfigInvalid :: ErrorCode where "ErrCodeConfigInvalid = ''CONFIG_INVALID''"
definition ErrCodeConfigMissing :: ErrorCode where "ErrCodeConfigMissing = ''CONFIG_MISSING''"
definition ErrCodePermissionDenied :: ErrorCode where "ErrCodePermissionDenied = ''PERMISSION_DENIED''"
definition ErrCodeUnauthorized :: ErrorCode where "ErrCodeUnauthorized = ''UNAUTHORIZED''"
definition ErrCodeResourceExhausted :: ErrorCode where "ErrCodeResourceExhausted = ''RESOURCE_EXHAUSTED''"
definition ErrCodeRateLimitExceeded :: ErrorCode where "ErrCodeRateLimitExceeded = ''RATE_LIMIT_EXCEEDED''"

lemmas ErrCode_defs =
  ErrCodeStorageFull_def ErrCodeStorageCorrupted_def ErrCodeChunkNotFound_def ErrCodeChunkInvalid_def
  ErrCodeNetworkTimeout_def ErrCodeNetworkUnreachable_def ErrCodePeerNotFound_def
  ErrCodeConnectionFailed_def ErrCodeEncryptionFailed_def ErrCodeDecryptionFailed_def
  ErrCodeInvalidSignature_def ErrCodeInvalidKey_def ErrCodeSnapshotNotFound_def
  ErrCodeSnapshotCorrupted_def ErrCodeSnapshotInvalid_def ErrCodeConfigInvalid_def
  ErrCodeConfigMissing_def ErrCodePermissionDenied_def ErrCodeUnauthorized_def
  ErrCodeResourceExhausted_def ErrCodeRateLimitExceeded_def

section \<open>Classification and constructors\<close>

definition isRetryable :: "ErrorCode \<Rightarrow> bool" where
  "isRetryable code =
     (code = ErrCodeNetworkTimeout \<or> code = ErrCodeNetworkUnreachable \<or>
      code = ErrCodeConnectionFailed \<or> code = ErrCodeResourceExhausted)"

definition getStatusCode :: "ErrorCode \<Rightarrow> int" where
  "getStatusCode code =
     (if code = ErrCodePermissionDenied \<or> code = ErrCodeUnauthorized then 403
      else if code = ErrCodeSnapshotNotFound \<or> code = ErrCodeChunkNotFound \<or> code = ErrCodePeerNotFound then 404
      else if code = ErrCodeRateLimitExceeded then 429
      else if code = ErrCodeStorageFull \<or> code = ErrCodeResourceExhausted then 507
      else if code = ErrCodeConfigInvalid \<or> code = ErrCodeSnapshotInvalid \<or> code = ErrCodeChunkInvalid then 400
      else 500)"

definition NewError :: "ErrorCode \<Rightarrow> string \<Rightarrow> ShadowVaultError" where
  "NewError code message = ShadowVaultError code message None (isRetryable code) (getStatusCode code)"

definition WrapError :: "ErrorCode \<Rightarrow> string \<Rightarrow> gerror \<Rightarrow> ShadowVaultError" where
  "WrapError code message err =
     ShadowVaultError code message (Some err) (isRetryable code) (getStatusCode code)"

definition NewStorageFullError :: "string \<Rightarrow> ShadowVaultError" where
  "NewStorageFullError message = NewError ErrCodeStorageFull message"

definition NewChunkNotFoundError :: "string \<Rightarrow> ShadowVaultError" where
  "NewChunkNotFoundError hash = NewError ErrCodeChunkNotFound (''chunk not found: '' @ hash)"

definition NewNetworkTimeoutError :: "string \<Rightarrow> ShadowVaultError" where
  "NewNetworkTimeoutError message = NewError ErrCodeNetworkTimeout message"

definition NewEncryptionFailedError :: "gerror \<Rightarrow> ShadowVaultError" where
  "NewEncryptionFailedError err = WrapError ErrCodeEncryptionFailed ''encryption failed'' err"

definition NewDecryptionFailedError :: "gerror \<Rightarrow> ShadowVaultError" where
  "NewDecryptionFailedError err = WrapError ErrCodeDecryptionFailed ''decryption failed'' err"

definition NewInvalidSignatureError :: "string \<Rightarrow> ShadowVaultError" where
  "NewInvalidSignatureError message = NewError ErrCodeInvalidSignature message"

definition NewSnapshotNotFoundError :: "string \<Rightarrow> ShadowVaultError" where
  "NewSnapshotNotFoundError i = NewError ErrCodeSnapshotNotFound (''snapshot not found: '' @ i)"

definition NewSnapshotCorruptedError :: "string \<Rightarrow> ShadowVaultError" where
  "NewSnapshotCorruptedError i = NewError ErrCodeSnapshotCorrupted (''snapshot corrupted: '' @ i)"

definition NewPermissionDeniedError :: "string \<Rightarrow> ShadowVaultError" where
  "NewPermissionDeniedError message = NewError ErrCodePermissionDenied message"

definition NewRateLimitExceededError :: ShadowVaultError where
  "NewRateLimitExceededError = NewError ErrCodeRateLimitExceeded ''rate limit exceeded''"

section \<open>Methods and inspection\<close>

primrec Error_text :: "gerror \<Rightarrow> string"
  and SV_Error :: "ShadowVaultError \<Rightarrow> string" where
  "Error_text (Sentinel s) = s"
| "Error_text (ErrorString s) = s"
| "Error_text (Wrapf s e) = s @ '': '' @ Error_text e"
| "Error_text (SV e) = SV_Error e"
| "SV_Error (ShadowVaultError c m oe r st) =
     (case map_option Error_text oe of
        Some t \<Rightarrow> ''['' @ c @ ''] '' @ m @ '': '' @ t
      | None \<Rightarrow> ''['' @ c @ ''] '' @ m)"

definition SV_Unwrap :: "ShadowVaultError \<Rightarrow> gerror option" where
  "SV_Unwrap e = Err e"

definition SV_Is :: "ShadowVaultError \<Rightarrow> gerror \<Rightarrow> bool" where
  "SV_Is e target = (case target of SV t \<Rightarrow> Code e = Code t | _ \<Rightarrow> False)"

text \<open>\<open>errors.As(err, &svErr)\<close>: the first \<open>*ShadowVaultError\<close> of the chain.\<close>

fun errors_As :: "gerror \<Rightarrow> ShadowVaultError option" where
  "errors_As (Sentinel s) = None"
| "errors_As (ErrorString s) = None"
| "errors_As (Wrapf s e) = errors_As e"
| "errors_As (SV e) = Some e"

definition errors_As_nil :: "gerror option \<Rightarrow> ShadowVaultError option" where
  "errors_As_nil err = (case err of None \<Rightarrow> None | Some e \<Rightarrow> errors_As e)"

definition IsRetryable :: "gerror option \<Rightarrow> bool" where
  "IsRetryable err = (case errors_As_nil err of Some e \<Rightarrow> Retryable e | None \<Rightarrow> False)"

definition GetErrorCode :: "gerror option \<Rightarrow> ErrorCode" where
  "GetErrorCode err = (case errors_As_nil err of Some e \<Rightarrow> Code e | None \<Rightarrow> [])"

definition GetStatusCode :: "gerror option \<Rightarrow> int" where
  "GetStatusCode err = (case errors_As_nil err of Some e \<Rightarrow> StatusCode e | None \<Rightarrow> 500)"

lemmas inspect_defs = IsRetryable_def GetErrorCode_def GetStatusCode_def errors_As_nil_def

section \<open>Well-formed errors\<close>

text \<open>Every \<open>*ShadowVaultError\<close> the package builds carries the flags of its code.\<close>

definition sv_consistent :: "ShadowVaultError \<Rightarrow> bool" where
  "sv_consistent e \<longleftrightarrow> Retryable e = isRetryable (Code e) \<and> StatusCode e = getStatusCode (Code e)"

lemma sv_consistent_NewError [simp]: "sv_consistent (NewError c m)"
  by (simp add: sv_consistent_def NewError_def)

lemma sv_consistent_WrapError [simp]: "sv_consistent (WrapError c m e)"
  by (simp add: sv_consistent_def WrapError_def)

lemma GetErrorCode_constructors [simp]:
  "GetErrorCode (Some (SV (NewError c m))) = c"
  "GetErrorCode (Some (SV (WrapError c m e))) = c"
  by (simp_all add: inspect_defs NewError_def WrapError_def)

fun wrapped :: "string list \<Rightarrow> gerror \<Rightarrow> gerror" where
  "wrapped [] e = e"
| "wrapped (m # ms) e = Wrapf m (wrapped ms e)"

lemma errors_As_wrapped [simp]: "errors_As (wrapped ms e) = errors_As e"
  by (induction ms) simp_all

lemma status_of_retryable:
  "getStatusCode ErrCodeNetworkTimeout = 500" "getStatusCode ErrCodeNetworkUnreachable = 500"
  "getStatusCode ErrCodeConnectionFailed = 500" "getStatusCode ErrCodeResourceExhausted = 507"
  by (simp_all add: getStatusCode_def ErrCode_defs)

lemma status_of_retryable_ge: "isRetryable c \<Longrightarrow> 500 \<le> getStatusCode c"
  unfolding isRetryable_def by (elim disjE) (simp_all add: status_of_retryable)

section \<open>Properties\<close>



end
