(* ===== verification/SV_Crypto.thy ===== *)
theory SV_Crypto
  imports SV_Errors
begin

text \<open>
  \<open>internal/crypto/crypto.go\<close> and \<open>internal/auth/auth.go\<close>.

  The primitives (SHA-256, AES-GCM, Ed25519, Argon2id and the system's randomness) are a
  parameter, the record \<open>prims\<close>; what the program relies on of them is the locale
  \<open>crypto_prims\<close>. \<open>rand_read i n\<close> is the outcome of the \<open>i\<close>-th call of
  \<open>rand.Read\<close> in the process, on a buffer of \<open>n\<close> bytes, \<open>None\<close> when it fails;
  every function that draws randomness takes the number of calls so far and returns the
  new number. AES-GCM and Ed25519 panic on a nonce, a public key or a private key of the wrong
  length; those panics are outcomes of the functions below.
\<close>

section \<open>Primitives\<close>

record prims =
  sha256 :: "bytes \<Rightarrow> bytes"
  gcm_seal :: "bytes \<Rightarrow> bytes \<Rightarrow> bytes \<Rightarrow> bytes"
  gcm_open :: "bytes \<Rightarrow> bytes \<Rightarrow> bytes \<Rightarrow> bytes option"
  ed_sign :: "bytes \<Rightarrow> bytes \<Rightarrow> bytes"
  ed_verify :: "bytes \<Rightarrow> bytes \<Rightarrow> bytes \<Rightarrow> bool"
  ed_generate :: "nat \<Rightarrow> (bytes \<times> bytes) option"
  argon2_IDKey :: "bytes \<Rightarrow> bytes \<Rightarrow> nat \<Rightarrow> nat \<Rightarrow> nat \<Rightarrow> nat \<Rightarrow> bytes"
  rand_read :: "nat \<Rightarrow> nat \<Rightarrow> bytes option"

definition aes_key_ok :: "bytes \<Rightarrow> bool" where
  "aes_key_ok key = (length key = 16 \<or> length key = 24 \<or> length key = 32)"

definition gcm_NonceSize :: nat where "gcm_NonceSize = 12"
definition ed_PublicKeySize :: nat where "ed_PublicKeySize = 32"
definition ed_PrivateKeySize :: nat where "ed_PrivateKeySize = 64"

lemmas size_defs = gcm_NonceSize_def ed_PublicKeySize_def ed_PrivateKeySize_def

definition aes_NewCipher :: "bytes \<Rightarrow> gerror option" where
  "aes_NewCipher key =
     (if aes_key_ok key then None
      else Some (ErrorString (''crypto/aes: invalid key size '' @ decimal (length key))))"

section \<open>crypto.go\<close>

definition saltSize :: nat where "saltSize = 16"

text \<open>
  \<open>rand.Read(salt)\<close> ignores its error: the buffer then holds what it held before, the
  zeros of \<open>make\<close>.
\<close>

definition DeriveKey :: "prims \<Rightarrow> string \<Rightarrow> bytes option \<Rightarrow> nat \<Rightarrow> bytes \<times> nat" where
  "DeriveKey P passphrase salt r =
     (case salt of
        Some s \<Rightarrow> (argon2_IDKey P passphrase s 1 (64 * 1024) 4 32, r)
      | None \<Rightarrow>
          (let s = (case rand_read P r saltSize of
                      Some b \<Rightarrow> b | None \<Rightarrow> replicate saltSize (CHR 0x00))
           in (argon2_IDKey P passphrase s 1 (64 * 1024) 4 32, Suc r)))"

definition Encrypt :: "prims \<Rightarrow> bytes \<Rightarrow> bytes \<Rightarrow> nat \<Rightarrow> (gerror + bytes \<times> bytes) \<times> nat" where
  "Encrypt P plaintext key r =
     (case aes_NewCipher key of
        Some err \<Rightarrow> (Inl err, r)
      | None \<Rightarrow>
          (case rand_read P r gcm_NonceSize of
             None \<Rightarrow> (Inl (ErrorString ''rand: read failed''), Suc r)
           | Some nonce \<Rightarrow> (Inr (gcm_seal P key nonce plaintext, nonce), Suc r)))"

definition Decrypt :: "prims \<Rightarrow> bytes \<Rightarrow> bytes \<Rightarrow> bytes \<Rightarrow> (gerror + bytes) outcome" where
  "Decrypt P ciphertext key nonce =
     (case aes_NewCipher key of
        Some err \<Rightarrow> Ret (Inl err)
      | None \<Rightarrow>
          (if length nonce \<noteq> gcm_NonceSize then
             Panic ''crypto/cipher: incorrect nonce length given to GCM''
           else
             (case gcm_open P key nonce ciphertext of
                None \<Rightarrow> Ret (Inl (ErrorString ''cipher: message authentication failed''))
              | Some plaintext \<Rightarrow> Ret (Inr plaintext))))"

definition Hash :: "prims \<Rightarrow> bytes \<Rightarrow> bytes" where
  "Hash P data = sha256 P data"

definition GenerateEd25519Keypair :: "prims \<Rightarrow> nat \<Rightarrow> (gerror + bytes \<times> bytes) \<times> nat" where
  "GenerateEd25519Keypair P r =
     (case ed_generate P r of
        None \<Rightarrow> (Inl (ErrorString ''ed25519: key generation failed''), Suc r)
      | Some (pub, priv) \<Rightarrow> (Inr (pub, priv), Suc r))"

definition Sign :: "prims \<Rightarrow> bytes \<Rightarrow> bytes \<Rightarrow> bytes outcome" where
  "Sign P message priv =
     (if length priv \<noteq> ed_PrivateKeySize then
        Panic (''ed25519: bad private key length: '' @ decimal (length priv))
      else Ret (ed_sign P priv message))"

definition Verify :: "prims \<Rightarrow> bytes \<Rightarrow> bytes \<Rightarrow> bytes \<Rightarrow> bool outcome" where
  "Verify P message sig pub =
     (if length pub \<noteq> ed_PublicKeySize then
        Panic (''ed25519: bad public key length: '' @ decimal (length pub))
      else Ret (ed_verify P pub message sig))"

definition EncodeKey :: "bytes \<Rightarrow> string" where
  "EncodeKey b = base64_EncodeToString b"

definition b64_error :: gerror where
  "b64_error = ErrorString ''illegal base64 data''"

definition DecodeKey :: "string \<Rightarrow> gerror + bytes" where
  "DecodeKey s = (case base64_DecodeString s of None \<Rightarrow> Inl b64_error | Some b \<Rightarrow> Inr b)"

definition ValidateKeySizes :: "bytes \<Rightarrow> gerror option" where
  "ValidateKeySizes key =
     (if length key \<noteq> 32 then Some (ErrorString ''encryption key must be 32 bytes'') else None)"

text \<open>The name under which a chunk is stored: the hexadecimal SHA-256 digest.\<close>

abbreviation hash_str :: "prims \<Rightarrow> bytes \<Rightarrow> string" where
  "hash_str P data \<equiv> hex_EncodeToString (Hash P data)"

section \<open>auth.go\<close>

record ACL =
  Admins :: "string \<Rightarrow> bool option"

fun acl_fill :: "string list \<Rightarrow> (string \<Rightarrow> bool option) \<Rightarrow> (string \<Rightarrow> bool option)" where
  "acl_fill [] m = m"
| "acl_fill (a # as) m = acl_fill as (m(a \<mapsto> True))"

definition NewACL :: "string list \<Rightarrow> ACL" where
  "NewACL admins = \<lparr>Admins = acl_fill admins Map.empty\<rparr>"

text \<open>A missing key of a Go \<open>map[string]bool\<close> reads as \<open>false\<close>.\<close>

definition ACL_IsAdmin :: "ACL \<Rightarrow> string \<Rightarrow> bool" where
  "ACL_IsAdmin a pubKey = (case Admins a pubKey of None \<Rightarrow> False | Some b \<Rightarrow> b)"

record SignedMessage =
  Payload :: bytes
  sm_Signature :: bytes
  PubKey :: bytes

definition VerifySignedMessage :: "prims \<Rightarrow> SignedMessage \<Rightarrow> bool outcome" where
  "VerifySignedMessage P msg = Verify P (Payload msg) (sm_Signature msg) (PubKey msg)"

definition SignPayload :: "prims \<Rightarrow> bytes \<Rightarrow> bytes \<Rightarrow> bytes outcome" where
  "SignPayload P payload priv = Sign P payload priv"

definition PubKeyToString :: "bytes \<Rightarrow> string" where
  "PubKeyToString pub = EncodeKey pub"

definition StringToPubKey :: "string \<Rightarrow> gerror + bytes" where
  "StringToPubKey s = DecodeKey s"

definition ErrNotAuthorized :: gerror where
  "ErrNotAuthorized = Sentinel ''not authorized''"

section \<open>What the primitives promise\<close>

locale crypto_prims =
  fixes P :: prims
  assumes sha256_length: "length (sha256 P m) = 32"
    and gcm_open_seal:
      "aes_key_ok k \<Longrightarrow> length n = 12 \<Longrightarrow> gcm_open P k n (gcm_seal P k n m) = Some m"
    and gcm_seal_length: "length (gcm_seal P k n m) = length m + 16"
    and gcm_open_length: "gcm_open P k n c = Some m \<Longrightarrow> length c = length m + 16"
    and ed_keypair: "ed_generate P r = Some (pub, priv) \<Longrightarrow>
      length pub = 32 \<and> length priv = 64 \<and> (\<forall>m. ed_verify P pub m (ed_sign P priv m))"
    and argon2_length: "length (argon2_IDKey P pw s t mem p len) = len"
    and rand_length: "rand_read P i len = Some b \<Longrightarrow> length b = len"
begin

lemma hash_str_length: "length (hash_str P m) = 64"
  by (simp add: Hash_def sha256_length)

lemma hash_str_nonempty: "hash_str P m \<noteq> []"
  using hash_str_length [of m] by force

lemma hash_str_inject: "hash_str P m = hash_str P m' \<longleftrightarrow> sha256 P m = sha256 P m'"
  by (simp add: Hash_def)

lemma Encrypt_Inr:
  assumes "Encrypt P m key r = (Inr (c, n), r')"
  shows "aes_key_ok key" and "length n = 12" and "c = gcm_seal P key n m" and "r' = Suc r"
    and "rand_read P r 12 = Some n"
  using assms
  by (auto simp: Encrypt_def aes_NewCipher_def gcm_NonceSize_def dest: rand_length
      split: option.splits if_splits)

lemma Encrypt_Decrypt:
  assumes "Encrypt P m key r = (Inr (c, n), r')"
  shows "Decrypt P c key n = Ret (Inr m)"
  using Encrypt_Inr [OF assms]
  by (simp add: Decrypt_def aes_NewCipher_def gcm_NonceSize_def gcm_open_seal)

lemma DeriveKey_length: "DeriveKey P pw salt r = (key, r') \<Longrightarrow> length key = 32"
  by (auto simp: DeriveKey_def Let_def argon2_length split: option.splits)

end

lemma Decrypt_no_panic: "length n = 12 \<Longrightarrow> \<exists>x. Decrypt P c key n = Ret x"
  by (auto simp: Decrypt_def gcm_NonceSize_def split: option.splits)

lemma acl_fill_lookup: "acl_fill as m k = (if k \<in> set as then Some True else m k)"
  by (induction as arbitrary: m) auto

lemma IsAdmin_NewACL [simp]: "ACL_IsAdmin (NewACL admins) k \<longleftrightarrow> k \<in> set admins"
  by (simp add: ACL_IsAdmin_def NewACL_def acl_fill_lookup)

section \<open>A concrete instance\<close>

text \<open>
  An executable instance of the primitives for the witnesses: sealing adds a sixteen-byte tag
  that depends on key and message, the digest is a padded prefix, randomness counts.
\<close>

definition sum_byte :: "bytes \<Rightarrow> byte" where
  "sum_byte b = byte_of (foldl (\<lambda>a c. (a * 31 + byte_val c + 1) mod 256) 7 b)"

definition ref_sha256 :: "bytes \<Rightarrow> bytes" where
  "ref_sha256 m = take 32 (sum_byte m # m @ replicate 32 (CHR 0x00))"

definition ref_tag :: "bytes \<Rightarrow> bytes \<Rightarrow> bytes \<Rightarrow> bytes" where
  "ref_tag k n m = replicate 16 (sum_byte (k @ n @ m))"

definition ref_open :: "bytes \<Rightarrow> bytes \<Rightarrow> bytes \<Rightarrow> bytes option" where
  "ref_open k n c =
     (if 16 \<le> length c \<and> drop (length c - 16) c = ref_tag k n (take (length c - 16) c)
      then Some (take (length c - 16) c) else None)"

definition ref_prims :: prims where
  "ref_prims = \<lparr>
     sha256 = ref_sha256,
     gcm_seal = (\<lambda>k n m. m @ ref_tag k n m),
     gcm_open = ref_open,
     ed_sign = (\<lambda>priv m. take 32 priv @ m),
     ed_verify = (\<lambda>pub m sig. sig = pub @ m),
     ed_generate = (\<lambda>r. Some (replicate 32 (byte_of (r mod 256)),
                               replicate 32 (byte_of (r mod 256)) @ replicate 32 (CHR 0x00))),
     argon2_IDKey = (\<lambda>pw s t mem p n. take n (tl s @ pw @ replicate n (CHR 0x00))),
     rand_read = (\<lambda>i n. Some (replicate n (byte_of (i mod 256))))\<rparr>"

interpretation ref: crypto_prims ref_prims
  by unfold_locales (auto simp: ref_prims_def ref_sha256_def ref_open_def ref_tag_def split: if_splits)

end
