(* ===== verification/SV_Persistence.thy ===== *)
theory SV_Persistence
  imports SV_Errors
begin

text \<open>
  \<open>internal/persistence/db.go\<close>: the database of four buckets.

  The database itself is bbolt, a third-party package: its operations are a parameter, the
  record \<open>bolt\<close> over an abstract type of database states, and what the package documents
  of them is the locale \<open>bolt_db\<close>. \<open>DB_View\<close> and \<open>DB_Update\<close> run a function inside
  a transaction: an update that fails, or whose commit fails, leaves the database as it
  was. A database on which \<open>Open\<close> succeeded is \<open>ready\<close>: it is open and has the four
  buckets; the model's operations are exact on ready databases (\<open>tx.Bucket\<close> of a missing
  bucket is a nil pointer), and every operation keeps a database ready.
\<close>

section \<open>The database package\<close>

record 'd bolt =
  bolt_open :: "string \<Rightarrow> gerror + 'd"
  bolt_close :: "'d \<Rightarrow> gerror option \<times> 'd"
  tx_begin :: "'d \<Rightarrow> gerror option"
  tx_commit :: "'d \<Rightarrow> gerror + 'd"
  tx_create :: "'d \<Rightarrow> bytes \<Rightarrow> gerror + 'd"
  tx_bucket :: "'d \<Rightarrow> bytes \<Rightarrow> bool"
  tx_get :: "'d \<Rightarrow> bytes \<Rightarrow> bytes \<Rightarrow> bytes option"
  tx_put :: "'d \<Rightarrow> bytes \<Rightarrow> bytes \<Rightarrow> bytes \<Rightarrow> gerror + 'd"
  tx_delete :: "'d \<Rightarrow> bytes \<Rightarrow> bytes \<Rightarrow> gerror + 'd"
  tx_foreach :: "'d \<Rightarrow> bytes \<Rightarrow> (bytes \<times> bytes) list"
  tx_keyN :: "'d \<Rightarrow> bytes \<Rightarrow> nat"

section \<open>db.go\<close>

definition BucketBlocks :: string where "BucketBlocks = ''blocks''"
definition BucketSnapshots :: string where "BucketSnapshots = ''snapshots''"
definition BucketPeers :: string where "BucketPeers = ''peers''"
definition BucketACLs :: string where "BucketACLs = ''acls''"

definition all_buckets :: "string list" where
  "all_buckets = [BucketBlocks, BucketSnapshots, BucketPeers, BucketACLs]"

definition DB_View :: "'d bolt \<Rightarrow> ('d \<Rightarrow> gerror + 'a) \<Rightarrow> 'd \<Rightarrow> gerror + 'a" where
  "DB_View B fn d = (case tx_begin B d of Some e \<Rightarrow> Inl e | None \<Rightarrow> fn d)"

definition DB_Update :: "'d bolt \<Rightarrow> ('d \<Rightarrow> gerror + 'd) \<Rightarrow> 'd \<Rightarrow> gerror option \<times> 'd" where
  "DB_Update B fn d =
     (case tx_begin B d of
        Some e \<Rightarrow> (Some e, d)
      | None \<Rightarrow>
          (case fn d of
             Inl e \<Rightarrow> (Some e, d)
           | Inr d1 \<Rightarrow> (case tx_commit B d1 of Inl e \<Rightarrow> (Some e, d) | Inr d2 \<Rightarrow> (None, d2))))"

fun create_buckets :: "'d bolt \<Rightarrow> string list \<Rightarrow> 'd \<Rightarrow> gerror + 'd" where
  "create_buckets B [] d = Inr d"
| "create_buckets B (b # bs) d =
     (case tx_create B d b of Inl e \<Rightarrow> Inl e | Inr d' \<Rightarrow> create_buckets B bs d')"

definition DB_Open :: "'d bolt \<Rightarrow> string \<Rightarrow> gerror + 'd" where
  "DB_Open B path =
     (case bolt_open B path of
        Inl e \<Rightarrow> Inl e
      | Inr b \<Rightarrow>
          (case DB_Update B (create_buckets B all_buckets) b of
             (Some e, _) \<Rightarrow> Inl e
           | (None, d) \<Rightarrow> Inr d))"

definition DB_Close :: "'d bolt \<Rightarrow> 'd \<Rightarrow> gerror option \<times> 'd" where
  "DB_Close B d = bolt_close B d"

section \<open>What the package promises\<close>

locale bolt_db =
  fixes B :: "'d bolt"
  assumes get_put: "tx_bucket B d b \<Longrightarrow> tx_put B d b k v = Inr d' \<Longrightarrow>
      tx_get B d' b' k' = (if b' = b \<and> k' = k then Some v else tx_get B d b' k')"
    and bucket_put: "tx_put B d b k v = Inr d' \<Longrightarrow> tx_bucket B d' b' = tx_bucket B d b'"
    and begin_put: "tx_put B d b k v = Inr d' \<Longrightarrow> tx_begin B d' = tx_begin B d"
    and put_ok: "tx_bucket B d b \<Longrightarrow> k \<noteq> [] \<Longrightarrow> length k \<le> 32768 \<Longrightarrow> length v \<le> 2147483646 \<Longrightarrow>
      \<exists>d'. tx_put B d b k v = Inr d'"
    and get_delete: "tx_bucket B d b \<Longrightarrow> tx_delete B d b k = Inr d' \<Longrightarrow>
      tx_get B d' b' k' = (if b' = b \<and> k' = k then None else tx_get B d b' k')"
    and bucket_delete: "tx_delete B d b k = Inr d' \<Longrightarrow> tx_bucket B d' b' = tx_bucket B d b'"
    and begin_delete: "tx_delete B d b k = Inr d' \<Longrightarrow> tx_begin B d' = tx_begin B d"
    and delete_ok: "tx_bucket B d b \<Longrightarrow> \<exists>d'. tx_delete B d b k = Inr d'"
    and get_commit: "tx_commit B d = Inr d' \<Longrightarrow> tx_get B d' b k = tx_get B d b k"
    and bucket_commit: "tx_commit B d = Inr d' \<Longrightarrow> tx_bucket B d' b = tx_bucket B d b"
    and begin_commit: "tx_commit B d = Inr d' \<Longrightarrow> tx_begin B d' = tx_begin B d"
    and bucket_create: "tx_create B d b = Inr d' \<Longrightarrow> tx_bucket B d' b' = (b' = b \<or> tx_bucket B d b')"
    and get_create: "tx_create B d b = Inr d' \<Longrightarrow> tx_bucket B d b' \<Longrightarrow> tx_get B d' b' k = tx_get B d b' k"
    and begin_create: "tx_create B d b = Inr d' \<Longrightarrow> tx_begin B d' = tx_begin B d"
    and foreach_get: "tx_bucket B d b \<Longrightarrow> map_of (tx_foreach B d b) = tx_get B d b"
    and foreach_sorted: "tx_bucket B d b \<Longrightarrow> sorted_wrt (<) (map fst (tx_foreach B d b))"
    and keyN: "tx_bucket B d b \<Longrightarrow> tx_keyN B d b = length (tx_foreach B d b)"

definition ready :: "'d bolt \<Rightarrow> 'd \<Rightarrow> bool" where
  "ready B d \<longleftrightarrow> tx_begin B d = None \<and> (\<forall>b \<in> set all_buckets. tx_bucket B d b)"

lemma bucket_names_distinct [simp]:
  "BucketBlocks \<noteq> BucketSnapshots" "BucketSnapshots \<noteq> BucketBlocks"
  "BucketBlocks \<noteq> BucketPeers" "BucketPeers \<noteq> BucketBlocks"
  "BucketSnapshots \<noteq> BucketPeers" "BucketPeers \<noteq> BucketSnapshots"
  by (simp_all add: BucketBlocks_def BucketSnapshots_def BucketPeers_def)

lemma ready_bucket [simp]:
  assumes "ready B d"
  shows "tx_bucket B d BucketBlocks" "tx_bucket B d BucketSnapshots" "tx_bucket B d BucketPeers"
    "tx_bucket B d BucketACLs" "tx_begin B d = None"
  using assms by (simp_all add: ready_def all_buckets_def)

lemma DB_View_ready [simp]: "ready B d \<Longrightarrow> DB_View B fn d = fn d"
  by (simp add: DB_View_def)

lemma DB_Update_error: "DB_Update B fn d = (Some e, d') \<Longrightarrow> d' = d"
  by (auto simp: DB_Update_def split: option.splits sum.splits)

lemma DB_Update_None:
  "DB_Update B fn d = (None, d') \<longleftrightarrow>
     tx_begin B d = None \<and> (\<exists>d1. fn d = Inr d1 \<and> tx_commit B d1 = Inr d')"
  by (auto simp: DB_Update_def split: option.splits sum.splits)

context bolt_db
begin

lemma foreach_distinct: "tx_bucket B d b \<Longrightarrow> distinct (map fst (tx_foreach B d b))"
  using foreach_sorted strict_sorted_iff by blast

lemma foreach_keys: "tx_bucket B d b \<Longrightarrow> set (map fst (tx_foreach B d b)) = dom (tx_get B d b)"
  using foreach_get [of d b] by (metis dom_map_of_conv_image_fst list.set_map)

lemma foreach_entries: "tx_bucket B d b \<Longrightarrow> (k, v) \<in> set (tx_foreach B d b) \<longleftrightarrow> tx_get B d b k = Some v"
  using foreach_get [of d b] foreach_distinct [of d b] by (metis map_of_eq_Some_iff)

lemma finite_bucket: "tx_bucket B d b \<Longrightarrow> finite (dom (tx_get B d b))"
  using foreach_keys [of d b] by (metis List.finite_set)

lemma ready_put: "tx_put B d b k v = Inr d' \<Longrightarrow> ready B d' = ready B d"
  using bucket_put begin_put by (simp add: ready_def)

lemma ready_delete: "tx_delete B d b k = Inr d' \<Longrightarrow> ready B d' = ready B d"
  using bucket_delete begin_delete by (simp add: ready_def)

lemma ready_commit: "tx_commit B d = Inr d' \<Longrightarrow> ready B d' = ready B d"
  using bucket_commit begin_commit by (simp add: ready_def)

lemma Update_put:
  assumes "ready B d" and "b \<in> set all_buckets"
    and "DB_Update B (\<lambda>tx. tx_put B tx b k v) d = (None, d')"
  shows "ready B d'" and "tx_get B d' b' k' = (if b' = b \<and> k' = k then Some v else tx_get B d b' k')"
proof -
  from assms(3) obtain d1 where d1: "tx_put B d b k v = Inr d1" "tx_commit B d1 = Inr d'"
    by (auto simp: DB_Update_None)
  from assms(1,2) have "tx_bucket B d b" by (simp add: ready_def)
  with d1 show "tx_get B d' b' k' = (if b' = b \<and> k' = k then Some v else tx_get B d b' k')"
    by (simp add: get_commit get_put)
  from d1 assms(1) show "ready B d'" by (simp add: ready_commit ready_put)
qed

lemma Update_delete:
  assumes "ready B d" and "b \<in> set all_buckets"
    and "DB_Update B (\<lambda>tx. tx_delete B tx b k) d = (None, d')"
  shows "ready B d'" and "tx_get B d' b' k' = (if b' = b \<and> k' = k then None else tx_get B d b' k')"
proof -
  from assms(3) obtain d1 where d1: "tx_delete B d b k = Inr d1" "tx_commit B d1 = Inr d'"
    by (auto simp: DB_Update_None)
  from assms(1,2) have "tx_bucket B d b" by (simp add: ready_def)
  with d1 show "tx_get B d' b' k' = (if b' = b \<and> k' = k then None else tx_get B d b' k')"
    by (simp add: get_commit get_delete)
  from d1 assms(1) show "ready B d'" by (simp add: ready_commit ready_delete)
qed

lemma create_buckets_spec:
  "create_buckets B bs d = Inr d' \<Longrightarrow>
     tx_begin B d' = tx_begin B d \<and> (\<forall>b. tx_bucket B d' b \<longleftrightarrow> b \<in> set bs \<or> tx_bucket B d b) \<and>
     (\<forall>b k. tx_bucket B d b \<longrightarrow> tx_get B d' b k = tx_get B d b k)"
proof (induction bs arbitrary: d)
  case Nil
  then show ?case by simp
next
  case (Cons b bs)
  then obtain d1 where d1: "tx_create B d b = Inr d1" "create_buckets B bs d1 = Inr d'"
    by (auto split: sum.splits)
  from Cons.IH [OF d1(2)] d1(1) show ?case
    by (auto simp: bucket_create get_create begin_create)
qed

lemma Open_ready:
  assumes "DB_Open B path = Inr d"
  shows "ready B d"
proof -
  from assms obtain d0 where "DB_Update B (create_buckets B all_buckets) d0 = (None, d)"
    by (auto simp: DB_Open_def split: sum.splits prod.splits option.splits)
  then obtain d1 where d1: "tx_begin B d0 = None" "create_buckets B all_buckets d0 = Inr d1"
    "tx_commit B d1 = Inr d"
    by (auto simp: DB_Update_None)
  from create_buckets_spec [OF d1(2)] d1(1) have "ready B d1"
    by (simp add: ready_def)
  then show ?thesis by (simp add: ready_commit [OF d1(3)])
qed

lemma Open_keeps_contents:
  assumes "bolt_open B path = Inr d0" and "DB_Open B path = Inr d" and "tx_bucket B d0 b"
  shows "tx_get B d b k = tx_get B d0 b k"
proof -
  from assms(1,2) obtain d1 where d1: "create_buckets B all_buckets d0 = Inr d1" "tx_commit B d1 = Inr d"
    by (auto simp: DB_Open_def DB_Update_def split: sum.splits prod.splits option.splits)
  with create_buckets_spec [OF d1(1)] assms(3) show ?thesis
    by (simp add: get_commit)
qed

end

section \<open>A concrete instance\<close>

text \<open>
  An in-memory database for the witnesses: every bucket a list of entries in key order, an
  open flag, commits that succeed.
\<close>

fun kv_put :: "bytes \<Rightarrow> bytes \<Rightarrow> (bytes \<times> bytes) list \<Rightarrow> (bytes \<times> bytes) list" where
  "kv_put k v [] = [(k, v)]"
| "kv_put k v ((k', v') # kvs) =
     (if k < k' then (k, v) # (k', v') # kvs
      else if k = k' then (k, v) # kvs else (k', v') # kv_put k v kvs)"

definition kv_del :: "bytes \<Rightarrow> (bytes \<times> bytes) list \<Rightarrow> (bytes \<times> bytes) list" where
  "kv_del k kvs = filter (\<lambda>e. fst e \<noteq> k) kvs"

lemma map_of_kv_put: "map_of (kv_put k v kvs) = (map_of kvs)(k \<mapsto> v)"
  by (induction kvs rule: kv_put.induct) auto

lemma keys_kv_put: "set (map fst (kv_put k v kvs)) = insert k (set (map fst kvs))"
  by (induction k v kvs rule: kv_put.induct) auto

lemma sorted_kv_put: "sorted_wrt (<) (map fst kvs) \<Longrightarrow> sorted_wrt (<) (map fst (kv_put k v kvs))"
proof (induction k v kvs rule: kv_put.induct)
  case (2 k v k' v' kvs)
  then show ?case using keys_kv_put [of k v kvs] by auto
qed simp

lemma map_of_kv_del: "map_of (kv_del k kvs) k' = (if k' = k then None else map_of kvs k')"
  by (induction kvs) (auto simp: kv_del_def)

lemma sorted_kv_del: "sorted_wrt (<) (map fst kvs) \<Longrightarrow> sorted_wrt (<) (map fst (kv_del k kvs))"
  by (induction kvs) (auto simp: kv_del_def)

typedef mem_bucket = "{kvs :: (bytes \<times> bytes) list. sorted_wrt (<) (map fst kvs)}"
  morphisms entries Mem_bucket by (rule exI [of _ "[]"]) simp

setup_lifting type_definition_mem_bucket

lift_definition mb_empty :: mem_bucket is "[]" by simp
lift_definition mb_put :: "bytes \<Rightarrow> bytes \<Rightarrow> mem_bucket \<Rightarrow> mem_bucket" is kv_put
  by (rule sorted_kv_put)
lift_definition mb_del :: "bytes \<Rightarrow> mem_bucket \<Rightarrow> mem_bucket" is kv_del
  by (rule sorted_kv_del)

lemma entries_simps [simp]:
  "entries mb_empty = []" "entries (mb_put k v m) = kv_put k v (entries m)"
  "entries (mb_del k m) = kv_del k (entries m)"
  by (transfer, simp)+

lemma sorted_entries [simp]: "sorted_wrt (<) (map fst (entries m))"
  using entries [of m] by simp

record mem_db =
  mem_is_open :: bool
  mem_buckets :: "bytes \<Rightarrow> mem_bucket option"

definition mem_kvs :: "mem_db \<Rightarrow> bytes \<Rightarrow> (bytes \<times> bytes) list" where
  "mem_kvs d b = (case mem_buckets d b of None \<Rightarrow> [] | Some m \<Rightarrow> entries m)"

definition mem_upd :: "mem_db \<Rightarrow> bytes \<Rightarrow> (mem_bucket \<Rightarrow> mem_bucket) \<Rightarrow> gerror + mem_db" where
  "mem_upd d b f =
     (case mem_buckets d b of
        None \<Rightarrow> Inl (ErrorString ''bucket not found'')
      | Some m \<Rightarrow> Inr (d\<lparr>mem_buckets := (mem_buckets d)(b \<mapsto> f m)\<rparr>))"

definition mem_bolt :: "mem_db bolt" where
  "mem_bolt = \<lparr>
     bolt_open = (\<lambda>path. Inr \<lparr>mem_is_open = True, mem_buckets = Map.empty\<rparr>),
     bolt_close = (\<lambda>d. (None, d\<lparr>mem_is_open := False\<rparr>)),
     tx_begin = (\<lambda>d. if mem_is_open d then None else Some (ErrorString ''database not open'')),
     tx_commit = (\<lambda>d. Inr d),
     tx_create = (\<lambda>d b. Inr (case mem_buckets d b of
                     None \<Rightarrow> d\<lparr>mem_buckets := (mem_buckets d)(b \<mapsto> mb_empty)\<rparr> | Some m \<Rightarrow> d)),
     tx_bucket = (\<lambda>d b. mem_buckets d b \<noteq> None),
     tx_get = (\<lambda>d b k. map_of (mem_kvs d b) k),
     tx_put = (\<lambda>d b k v. if k = [] then Inl (ErrorString ''key required'') else mem_upd d b (mb_put k v)),
     tx_delete = (\<lambda>d b k. mem_upd d b (mb_del k)),
     tx_foreach = mem_kvs,
     tx_keyN = (\<lambda>d b. length (mem_kvs d b))\<rparr>"

interpretation mem: bolt_db mem_bolt
  by unfold_locales
    (auto simp: mem_bolt_def mem_upd_def mem_kvs_def map_of_kv_put map_of_kv_del fun_upd_def
      split: option.splits if_splits)

definition mem_db0 :: mem_db where
  "mem_db0 = \<lparr>mem_is_open = True, mem_buckets = (\<lambda>b. if b \<in> set all_buckets then Some mb_empty else None)\<rparr>"

lemma ready_mem_db0: "ready mem_bolt mem_db0"
  by (simp add: ready_def mem_db0_def mem_bolt_def)

end
