(* ===== verification/SV_Store.thy ===== *)
theory SV_Store
  imports SV_Crypto SV_Persistence
begin

text \<open>
  \<open>internal/storage/store.go\<close>: the deduplicating encrypted chunk store.

  A \<open>Store\<close> holds the master key; the database it points to is part of the \<open>world\<close>, the
  state every operation takes and returns, together with the number of random draws so far.
  The mutex makes each operation one step. \<open>chunk_store\<close> is the contract of the plain
  operations towards the garbage collector, the verifier and the peer-to-peer layer,
  \<open>encrypted_store\<close> extends it with \<open>PutChunk\<close> and \<open>GetChunk\<close> for the snapshot and
  restore paths; both are discharged for the definitions of this theory.
\<close>

record 'd world =
  wdb :: 'd
  wrng :: nat

record Store =
  baseKey :: bytes

section \<open>store.go\<close>

definition Store_New :: "bytes \<Rightarrow> gerror + Store" where
  "Store_New masterKey =
     (if length masterKey \<noteq> 32 then Inl (ErrorString ''master key must be 32 bytes'')
      else Inr \<lparr>baseKey = masterKey\<rparr>)"

definition chunk_not_found :: gerror where
  "chunk_not_found = ErrorString ''chunk not found''"

definition PutChunk_tx :: "prims \<Rightarrow> 'd bolt \<Rightarrow> Store \<Rightarrow> bytes \<Rightarrow> nat \<Rightarrow> 'd \<Rightarrow> (gerror + 'd) \<times> nat" where
  "PutChunk_tx P B s plaintext r tx =
     (let hashStr = hash_str P plaintext in
      case tx_get B tx BucketBlocks hashStr of
        Some _ \<Rightarrow> (Inr tx, r)
      | None \<Rightarrow>
          (case Encrypt P plaintext (baseKey s) r of
             (Inl err, r') \<Rightarrow> (Inl err, r')
           | (Inr (enc, nonce), r') \<Rightarrow> (tx_put B tx BucketBlocks hashStr (nonce @ enc), r')))"

definition Store_PutChunk :: "prims \<Rightarrow> 'd bolt \<Rightarrow> Store \<Rightarrow> bytes \<Rightarrow> 'd world \<Rightarrow> (gerror + string) \<times> 'd world" where
  "Store_PutChunk P B s plaintext w =
     (let r' = (if tx_begin B (wdb w) = None
                then snd (PutChunk_tx P B s plaintext (wrng w) (wdb w)) else wrng w) in
      case DB_Update B (\<lambda>tx. fst (PutChunk_tx P B s plaintext (wrng w) tx)) (wdb w) of
        (Some err, d) \<Rightarrow> (Inl err, w\<lparr>wdb := d, wrng := r'\<rparr>)
      | (None, d) \<Rightarrow> (Inr (hash_str P plaintext), w\<lparr>wdb := d, wrng := r'\<rparr>))"

definition lookup_tx :: "'d bolt \<Rightarrow> string \<Rightarrow> 'd \<Rightarrow> gerror + bytes" where
  "lookup_tx B hashStr tx =
     (case tx_get B tx BucketBlocks hashStr of None \<Rightarrow> Inl chunk_not_found | Some v \<Rightarrow> Inr v)"

definition Store_GetChunk :: "prims \<Rightarrow> 'd bolt \<Rightarrow> Store \<Rightarrow> string \<Rightarrow> 'd world \<Rightarrow> (gerror + bytes) outcome" where
  "Store_GetChunk P B s hashStr w =
     (case DB_View B (lookup_tx B hashStr) (wdb w) of
        Inl err \<Rightarrow> Ret (Inl err)
      | Inr stored \<Rightarrow>
          (if length stored < 12 then Ret (Inl (ErrorString ''stored chunk malformed''))
           else Decrypt P (drop 12 stored) (baseKey s) (take 12 stored)))"

definition Store_Get :: "'d bolt \<Rightarrow> 'd world \<Rightarrow> string \<Rightarrow> gerror + bytes" where
  "Store_Get B w hashStr = DB_View B (lookup_tx B hashStr) (wdb w)"

definition Store_Put :: "'d bolt \<Rightarrow> 'd world \<Rightarrow> string \<Rightarrow> bytes \<Rightarrow> gerror option \<times> 'd world" where
  "Store_Put B w hashStr data =
     (case DB_Update B (\<lambda>tx. tx_put B tx BucketBlocks hashStr data) (wdb w) of
        (err, d) \<Rightarrow> (err, w\<lparr>wdb := d\<rparr>))"

definition Store_Delete :: "'d bolt \<Rightarrow> 'd world \<Rightarrow> string \<Rightarrow> gerror option \<times> 'd world" where
  "Store_Delete B w hashStr =
     (case DB_Update B (\<lambda>tx. tx_delete B tx BucketBlocks hashStr) (wdb w) of
        (err, d) \<Rightarrow> (err, w\<lparr>wdb := d\<rparr>))"

definition Store_ListAll :: "'d bolt \<Rightarrow> 'd world \<Rightarrow> gerror + string list" where
  "Store_ListAll B w = DB_View B (\<lambda>tx. Inr (map fst (tx_foreach B tx BucketBlocks))) (wdb w)"

definition Store_Exists :: "'d bolt \<Rightarrow> 'd world \<Rightarrow> string \<Rightarrow> bool" where
  "Store_Exists B w hashStr =
     (case DB_View B (\<lambda>tx. if tx_get B tx BucketBlocks hashStr = None
                           then Inl (ErrorString ''not found'') else Inr ()) (wdb w) of
        Inl _ \<Rightarrow> False
      | Inr _ \<Rightarrow> True)"

section \<open>The contract of the plain operations\<close>

locale chunk_store =
  fixes inv :: "'w \<Rightarrow> bool"
    and blocks :: "'w \<Rightarrow> string \<Rightarrow> bytes option"
    and frame :: "'w \<Rightarrow> 'f"
    and get_op :: "'w \<Rightarrow> string \<Rightarrow> gerror + bytes"
    and put_op :: "'w \<Rightarrow> string \<Rightarrow> bytes \<Rightarrow> gerror option \<times> 'w"
    and delete_op :: "'w \<Rightarrow> string \<Rightarrow> gerror option \<times> 'w"
    and list_op :: "'w \<Rightarrow> gerror + string list"
    and exists_op :: "'w \<Rightarrow> string \<Rightarrow> bool"
  assumes get_law: "inv w \<Longrightarrow>
      get_op w h = (case blocks w h of None \<Rightarrow> Inl chunk_not_found | Some v \<Rightarrow> Inr v)"
    and put_law: "inv w \<Longrightarrow> put_op w h v = (None, w') \<Longrightarrow>
      inv w' \<and> blocks w' = (blocks w)(h \<mapsto> v) \<and> frame w' = frame w"
    and put_err: "put_op w h v = (Some e, w') \<Longrightarrow> w' = w"
    and delete_law: "inv w \<Longrightarrow> delete_op w h = (None, w') \<Longrightarrow>
      inv w' \<and> blocks w' = (blocks w)(h := None) \<and> frame w' = frame w"
    and delete_err: "delete_op w h = (Some e, w') \<Longrightarrow> w' = w"
    and list_law: "inv w \<Longrightarrow>
      \<exists>hs. list_op w = Inr hs \<and> sorted_wrt (<) hs \<and> set hs = dom (blocks w)"
    and exists_law: "inv w \<Longrightarrow> exists_op w h = (blocks w h \<noteq> None)"
begin

lemma get_put: "inv w \<Longrightarrow> put_op w h v = (None, w') \<Longrightarrow> get_op w' h = Inr v"
  using put_law [of w h v w'] by (simp add: get_law)

lemma get_delete: "inv w \<Longrightarrow> delete_op w h = (None, w') \<Longrightarrow> get_op w' h = Inl chunk_not_found"
  using delete_law [of w h w'] by (simp add: get_law)

lemma get_delete_other: "inv w \<Longrightarrow> delete_op w h = (None, w') \<Longrightarrow> h' \<noteq> h \<Longrightarrow> get_op w' h' = get_op w h'"
  using delete_law [of w h w'] by (simp add: get_law)

lemma exists_get: "inv w \<Longrightarrow> exists_op w h \<longleftrightarrow> (\<exists>v. get_op w h = Inr v)"
  by (auto simp: get_law exists_law split: option.splits)

end

section \<open>The contract of the encrypted operations\<close>

locale encrypted_store = chunk_store +
  fixes digest :: "bytes \<Rightarrow> string"
    and plain :: "'a \<Rightarrow> string \<Rightarrow> bytes option"
    and putchunk_op :: "bytes \<Rightarrow> 'a \<Rightarrow> (gerror + string) \<times> 'a"
    and getchunk_op :: "string \<Rightarrow> 'a \<Rightarrow> (gerror + bytes) outcome"
  assumes putchunk_law: "inv w \<Longrightarrow> putchunk_op m w = (Inr h, w') \<Longrightarrow>
      inv w' \<and> h = digest m \<and> frame w' = frame w \<and>
      (if blocks w h = None then plain w' = (plain w)(h \<mapsto> m) \<and> (\<exists>v. blocks w' = (blocks w)(h \<mapsto> v))
       else plain w' = plain w \<and> blocks w' = blocks w)"
    and putchunk_err: "inv w \<Longrightarrow> putchunk_op m w = (Inl e, w') \<Longrightarrow>
      inv w' \<and> blocks w' = blocks w \<and> plain w' = plain w \<and> frame w' = frame w"
    and getchunk_law: "inv w \<Longrightarrow> \<exists>r. getchunk_op h w = Ret r \<and> (\<forall>m. r = Inr m \<longleftrightarrow> plain w h = Some m)"
    and plain_dom: "plain w h \<noteq> None \<Longrightarrow> blocks w h \<noteq> None"
begin

lemma getchunk_Inr: "inv w \<Longrightarrow> getchunk_op h w = Ret (Inr m) \<longleftrightarrow> plain w h = Some m"
  using getchunk_law [of w h] by (metis outcome.inject(1))

lemma get_after_putchunk:
  assumes "inv w" and "putchunk_op m w = (Inr h, w')" and "blocks w (digest m) = None"
  shows "getchunk_op h w' = Ret (Inr m)"
  using putchunk_law [OF assms(1,2)] assms(3) by (simp add: getchunk_Inr)

text \<open>
  The store's content invariant: what a digest names decrypts to data with that digest. It is
  kept by \<open>PutChunk\<close>, and makes a second \<open>PutChunk\<close> of the same data a no-op that still names
  that data, unless the digest collides.
\<close>

definition content_ok :: "'a \<Rightarrow> bool" where
  "content_ok w \<longleftrightarrow> (\<forall>h. blocks w h \<noteq> None \<longrightarrow> (\<exists>m. plain w h = Some m \<and> digest m = h))"

lemma content_ok_putchunk:
  assumes "inv w" and "content_ok w" and "putchunk_op m w = (r, w')"
  shows "content_ok w'"
proof (cases r)
  case (Inl e)
  with putchunk_err [OF assms(1)] assms(2,3) show ?thesis
    by (simp add: content_ok_def)
next
  case (Inr h)
  note law = putchunk_law [OF assms(1) assms(3) [unfolded Inr]]
  show ?thesis
  proof (cases "blocks w h = None")
    case True
    with law obtain v where v: "plain w' = (plain w)(h \<mapsto> m)" "blocks w' = (blocks w)(h \<mapsto> v)" "h = digest m"
      by auto
    with assms(2) show ?thesis by (simp add: content_ok_def)
  next
    case False
    with law assms(2) show ?thesis by (simp add: content_ok_def)
  qed
qed

end

section \<open>The definitions meet the contracts\<close>

abbreviation Blocks :: "'d bolt \<Rightarrow> 'd world \<Rightarrow> string \<Rightarrow> bytes option" where
  "Blocks B w \<equiv> tx_get B (wdb w) BucketBlocks"

definition other_buckets :: "'d bolt \<Rightarrow> 'd world \<Rightarrow> string \<Rightarrow> string \<Rightarrow> bytes option" where
  "other_buckets B w b = (if b = BucketBlocks then Map.empty else tx_get B (wdb w) b)"

definition world_ready :: "'d bolt \<Rightarrow> 'd world \<Rightarrow> bool" where
  "world_ready B w \<longleftrightarrow> ready B (wdb w)"

lemma blocks_in_all [simp]: "BucketBlocks \<in> set all_buckets" "BucketSnapshots \<in> set all_buckets"
    "BucketPeers \<in> set all_buckets"
  by (simp_all add: all_buckets_def)

sublocale bolt_db \<subseteq> store: chunk_store "world_ready B" "Blocks B" "other_buckets B"
  "Store_Get B" "Store_Put B" "Store_Delete B" "Store_ListAll B" "Store_Exists B"
proof
  fix w :: "'d world" and h :: string and v :: bytes and w' :: "'d world" and e :: gerror
  show "Store_Put B w h v = (Some e, w') \<Longrightarrow> w' = w"
    by (auto simp: Store_Put_def split: prod.splits dest: DB_Update_error)
  show "Store_Delete B w h = (Some e, w') \<Longrightarrow> w' = w"
    by (auto simp: Store_Delete_def split: prod.splits dest: DB_Update_error)
  assume inv: "world_ready B w"
  then have rdy: "ready B (wdb w)" by (simp add: world_ready_def)
  then show "Store_Get B w h = (case Blocks B w h of None \<Rightarrow> Inl chunk_not_found | Some v \<Rightarrow> Inr v)"
    by (simp add: Store_Get_def lookup_tx_def)
  show "Store_Exists B w h = (Blocks B w h \<noteq> None)"
    using rdy by (simp add: Store_Exists_def)
  show "\<exists>hs. Store_ListAll B w = Inr hs \<and> sorted_wrt (<) hs \<and> set hs = dom (Blocks B w)"
    using rdy foreach_sorted [of "wdb w" BucketBlocks] foreach_keys [of "wdb w" BucketBlocks]
    by (simp add: Store_ListAll_def)
  show "world_ready B w' \<and> Blocks B w' = (Blocks B w)(h \<mapsto> v) \<and> other_buckets B w' = other_buckets B w"
    if "Store_Put B w h v = (None, w')"
  proof -
    from that obtain d where d: "DB_Update B (\<lambda>tx. tx_put B tx BucketBlocks h v) (wdb w) = (None, d)"
      and w': "w' = w\<lparr>wdb := d\<rparr>"
      by (auto simp: Store_Put_def split: prod.splits)
    from Update_put [OF rdy _ d] w' show ?thesis
      by (auto simp: world_ready_def other_buckets_def fun_eq_iff)
  qed
  show "world_ready B w' \<and> Blocks B w' = (Blocks B w)(h := None) \<and> other_buckets B w' = other_buckets B w"
    if "Store_Delete B w h = (None, w')"
  proof -
    from that obtain d where d: "DB_Update B (\<lambda>tx. tx_delete B tx BucketBlocks h) (wdb w) = (None, d)"
      and w': "w' = w\<lparr>wdb := d\<rparr>"
      by (auto simp: Store_Delete_def split: prod.splits)
    from Update_delete [OF rdy _ d] w' show ?thesis
      by (auto simp: world_ready_def other_buckets_def fun_eq_iff)
  qed
qed

text \<open>
  For the encrypted operations the crypto primitives join the database, and the store's key is
  one that \<open>Store_New\<close> accepted.
\<close>

definition Plain :: "prims \<Rightarrow> 'd bolt \<Rightarrow> Store \<Rightarrow> 'd world \<Rightarrow> string \<Rightarrow> bytes option" where
  "Plain P B s w h =
     (case Blocks B w h of
        None \<Rightarrow> None
      | Some v \<Rightarrow> (if length v < 12 then None else gcm_open P (baseKey s) (take 12 v) (drop 12 v)))"

text \<open>
  What a successful \<open>PutChunk\<close> of \<open>m\<close> does to the database: nothing when the digest is
  already stored, otherwise exactly one new entry, a fresh nonce followed by the ciphertext.
\<close>

definition PutChunk_effect :: "prims \<Rightarrow> 'd bolt \<Rightarrow> Store \<Rightarrow> bytes \<Rightarrow> 'd world \<Rightarrow> 'd world \<Rightarrow> bool" where
  "PutChunk_effect P B s m w w' \<longleftrightarrow>
     (Blocks B w (hash_str P m) \<noteq> None \<and> tx_get B (wdb w') = tx_get B (wdb w) \<and> wrng w' = wrng w) \<or>
     (\<exists>n. Blocks B w (hash_str P m) = None \<and> length n = 12 \<and> rand_read P (wrng w) 12 = Some n \<and>
        wrng w' = Suc (wrng w) \<and>
        (\<forall>b k. tx_get B (wdb w') b k =
           (if b = BucketBlocks \<and> k = hash_str P m then Some (n @ gcm_seal P (baseKey s) n m)
            else tx_get B (wdb w) b k)))"

locale store_env = db: bolt_db B + crypto: crypto_prims P for B :: "'d bolt" and P :: prims +
  fixes s :: Store
  assumes key_size: "length (baseKey s) = 32"
begin

lemma key_ok: "aes_key_ok (baseKey s)"
  by (simp add: aes_key_ok_def key_size)

lemma GetChunk_Plain:
  assumes "world_ready B w"
  shows "\<exists>r. Store_GetChunk P B s h w = Ret r \<and> (\<forall>m. r = Inr m \<longleftrightarrow> Plain P B s w h = Some m)"
proof -
  from assms have "ready B (wdb w)" by (simp add: world_ready_def)
  then show ?thesis
    using key_ok
    by (auto simp: Store_GetChunk_def lookup_tx_def Plain_def Decrypt_def aes_NewCipher_def
        gcm_NonceSize_def split: option.splits)
qed

lemma PutChunk_success:
  assumes rdy: "world_ready B w" and put: "Store_PutChunk P B s m w = (Inr h, w')"
  shows "h = hash_str P m \<and> world_ready B w' \<and> PutChunk_effect P B s m w w'"
proof -
  from rdy have rdy': "ready B (wdb w)" by (simp add: world_ready_def)
  from put obtain d where upd: "DB_Update B (\<lambda>tx. fst (PutChunk_tx P B s m (wrng w) tx)) (wdb w) = (None, d)"
    and h: "h = hash_str P m" and d: "wdb w' = d"
    and r': "wrng w' = snd (PutChunk_tx P B s m (wrng w) (wdb w))"
    using rdy' by (auto simp: Store_PutChunk_def Let_def split: prod.splits option.splits)
  from upd obtain d1 where d1: "fst (PutChunk_tx P B s m (wrng w) (wdb w)) = Inr d1" and c: "tx_commit B d1 = Inr d"
    by (auto simp: DB_Update_None)
  show ?thesis
  proof (cases "Blocks B w h")
    case (Some v)
    with d1 have "d1 = wdb w" by (simp add: PutChunk_tx_def h Let_def)
    with c d h rdy' r' Some show ?thesis
      by (simp add: world_ready_def PutChunk_effect_def db.ready_commit db.get_commit fun_eq_iff
          PutChunk_tx_def Let_def)
  next
    case None
    then obtain enc n r where E: "Encrypt P m (baseKey s) (wrng w) = (Inr (enc, n), r)"
      and p: "tx_put B (wdb w) BucketBlocks h (n @ enc) = Inr d1" and r: "wrng w' = r"
      using d1 r' by (auto simp: PutChunk_tx_def h Let_def split: prod.splits sum.splits)
    have "tx_get B d b k = (if b = BucketBlocks \<and> k = h then Some (n @ enc) else tx_get B (wdb w) b k)" for b k
      using db.get_put [OF _ p] db.get_commit [OF c] rdy' by simp
    moreover have "ready B d" using rdy' p c by (simp add: db.ready_commit db.ready_put)
    ultimately show ?thesis
      using crypto.Encrypt_Inr [OF E] d r h None by (simp add: world_ready_def PutChunk_effect_def)
  qed
qed

lemma PutChunk_error:
  assumes "Store_PutChunk P B s m w = (Inl e, w')"
  shows "wdb w' = wdb w"
  using assms
  by (auto simp: Store_PutChunk_def Let_def split: prod.splits option.splits dest: DB_Update_error)

lemma PutChunk_ok:
  assumes "world_ready B w" and "rand_read P (wrng w) 12 \<noteq> None" and "length m \<le> 2147483618"
    and "\<And>d. \<exists>d'. tx_commit B d = Inr d'"
  shows "\<exists>w'. Store_PutChunk P B s m w = (Inr (hash_str P m), w')"
proof -
  from assms(1) have rdy: "ready B (wdb w)" by (simp add: world_ready_def)
  have "\<exists>d1. fst (PutChunk_tx P B s m (wrng w) (wdb w)) = Inr d1"
  proof (cases "Blocks B w (hash_str P m)")
    case None
    from assms(2) obtain n where n: "rand_read P (wrng w) 12 = Some n" by blast
    have "\<exists>d'. tx_put B (wdb w) BucketBlocks (hash_str P m) (n @ gcm_seal P (baseKey s) n m) = Inr d'"
      using rdy crypto.rand_length [OF n] assms(3) crypto.hash_str_length [of m] crypto.hash_str_nonempty [of m]
      by (intro db.put_ok) (simp_all add: crypto.gcm_seal_length)
    with n None show ?thesis
      using key_ok by (simp add: PutChunk_tx_def Let_def Encrypt_def aes_NewCipher_def gcm_NonceSize_def)
  qed (simp add: PutChunk_tx_def Let_def)
  then obtain d1 where d1: "fst (PutChunk_tx P B s m (wrng w) (wdb w)) = Inr d1" ..
  from assms(4) obtain d' where "tx_commit B d1 = Inr d'" by blast
  with d1 rdy show ?thesis by (simp add: Store_PutChunk_def DB_Update_def)
qed

end

sublocale store_env \<subseteq> enc: encrypted_store "world_ready B" "Blocks B" "other_buckets B"
  "Store_Get B" "Store_Put B" "Store_Delete B" "Store_ListAll B" "Store_Exists B"
  "hash_str P" "Plain P B s" "Store_PutChunk P B s" "Store_GetChunk P B s"
proof
  fix w :: "'d world" and h :: string and m :: bytes and w' :: "'d world" and e :: gerror
  show "Blocks B w h \<noteq> None" if "Plain P B s w h \<noteq> None"
    using that by (auto simp: Plain_def split: option.splits)
  assume inv: "world_ready B w"
  then show "\<exists>r. Store_GetChunk P B s h w = Ret r \<and> (\<forall>m. (r = Inr m) = (Plain P B s w h = Some m))"
    by (rule GetChunk_Plain)
  show "world_ready B w' \<and> Blocks B w' = Blocks B w \<and> Plain P B s w' = Plain P B s w \<and>
      other_buckets B w' = other_buckets B w" if "Store_PutChunk P B s m w = (Inl e, w')"
    using PutChunk_error [OF that] inv by (simp add: world_ready_def other_buckets_def Plain_def fun_eq_iff)
  assume put: "Store_PutChunk P B s m w = (Inr h, w')"
  from PutChunk_success [OF inv put]
  have h: "h = hash_str P m" and r: "world_ready B w'" and eff: "PutChunk_effect P B s m w w'" by auto
  show "world_ready B w' \<and> h = hash_str P m \<and> other_buckets B w' = other_buckets B w \<and>
      (if Blocks B w h = None
       then Plain P B s w' = (Plain P B s w)(h \<mapsto> m) \<and> (\<exists>v. Blocks B w' = (Blocks B w)(h \<mapsto> v))
       else Plain P B s w' = Plain P B s w \<and> Blocks B w' = Blocks B w)"
  proof (cases "Blocks B w h")
    case None
    with eff h obtain n where n: "length n = 12" and g: "\<And>b k. tx_get B (wdb w') b k =
           (if b = BucketBlocks \<and> k = h then Some (n @ gcm_seal P (baseKey s) n m) else tx_get B (wdb w) b k)"
      by (auto simp: PutChunk_effect_def)
    have "Blocks B w' = (Blocks B w)(h \<mapsto> n @ gcm_seal P (baseKey s) n m)"
      by (simp add: fun_eq_iff g)
    moreover from this n have "Plain P B s w' = (Plain P B s w)(h \<mapsto> m)"
      by (simp add: fun_eq_iff Plain_def crypto.gcm_open_seal [OF key_ok])
    moreover have "other_buckets B w' = other_buckets B w"
      by (simp add: fun_eq_iff other_buckets_def g)
    ultimately show ?thesis using None h r by auto
  next
    case (Some v)
    with eff h have "tx_get B (wdb w') = tx_get B (wdb w)" by (auto simp: PutChunk_effect_def)
    with Some h r show ?thesis by (simp add: Plain_def other_buckets_def fun_eq_iff)
  qed
qed

context store_env
begin

lemma get_put_chunk:
  assumes "world_ready B w" and "Store_PutChunk P B s m w = (Inr h, w')"
    and "Blocks B w (hash_str P m) = None \<or> Plain P B s w (hash_str P m) = Some m"
  shows "Store_GetChunk P B s h w' = Ret (Inr m)"
proof -
  note law = enc.putchunk_law [OF assms(1,2)]
  from law assms(3) have "Plain P B s w' h = Some m"
    using enc.plain_dom by (auto split: if_splits)
  with law show ?thesis by (simp add: enc.getchunk_Inr)
qed

lemma put_chunk_again:
  assumes "world_ready B w" and "Store_PutChunk P B s m w = (Inr h, w1)"
    and "Store_PutChunk P B s m w1 = (Inr h', w2)"
  shows "h' = h \<and> tx_get B (wdb w2) = tx_get B (wdb w1) \<and> wrng w2 = wrng w1"
proof -
  from PutChunk_success [OF assms(1,2)] have h: "h = hash_str P m" and r: "world_ready B w1"
    and b: "Blocks B w1 h \<noteq> None"
    by (auto simp: PutChunk_effect_def)
  from PutChunk_success [OF r assms(3)] h b show ?thesis
    by (auto simp: PutChunk_effect_def)
qed

lemma raw_put_then_get:
  assumes "world_ready B w" and "Store_Put B w h v = (None, w')"
  shows "Plain P B s w' h = (if length v < 12 then None else gcm_open P (baseKey s) (take 12 v) (drop 12 v))"
  using db.store.put_law [OF assms] by (simp add: Plain_def)

end

section \<open>A concrete store\<close>

definition wit_store :: Store where
  "wit_store = \<lparr>baseKey = replicate 32 (CHR ''k'')\<rparr>"

definition wit_world :: "mem_db world" where
  "wit_world = \<lparr>wdb = mem_db0, wrng = 0\<rparr>"

interpretation wit: store_env mem_bolt ref_prims wit_store
  by unfold_locales (simp add: wit_store_def)

lemma wit_ready: "world_ready mem_bolt wit_world"
  by (simp add: world_ready_def wit_world_def ready_mem_db0)

lemma mem_commits: "\<exists>d'. tx_commit mem_bolt d = Inr d'"
  by (simp add: mem_bolt_def)

lemma ref_rand: "rand_read ref_prims i n \<noteq> None"
  by (simp add: ref_prims_def)

lemma wit_fresh: "Blocks mem_bolt wit_world h = None"
  by (simp add: wit_world_def mem_bolt_def mem_kvs_def mem_db0_def)

lemma wit_put:
  assumes "length m \<le> 2147483618"
  obtains w' where "Store_PutChunk ref_prims mem_bolt wit_store m wit_world = (Inr (hash_str ref_prims m), w')"
  using wit.PutChunk_ok [OF wit_ready ref_rand assms mem_commits] by blast

section \<open>Properties\<close>

text \<open>
  C4. Backing a chunk up and reading it back: after \<open>PutChunk\<close> of \<open>m\<close> returned the name
  \<open>h\<close>, \<open>GetChunk h\<close> in the new state returns exactly \<open>m\<close>, without error or panic,
  unless the name was already taken by a block that does not decrypt to \<open>m\<close>.
\<close>

theorem PutChunk_GetChunk:
  assumes "store_env B P s" and "world_ready B w"
    and "Store_PutChunk P B s m w = (Inr h, w')"
    and "Blocks B w (hash_str P m) = None \<or> Plain P B s w (hash_str P m) = Some m"
  shows "Store_GetChunk P B s h w' = Ret (Inr m)"
  using store_env.get_put_chunk [OF assms] .

theorem PutChunk_GetChunk_witness:
  "\<exists>h w'. Store_PutChunk ref_prims mem_bolt wit_store ''hello'' wit_world = (Inr h, w') \<and>
     Store_GetChunk ref_prims mem_bolt wit_store h w' = Ret (Inr ''hello'')"
proof -
  obtain w' where put: "Store_PutChunk ref_prims mem_bolt wit_store ''hello'' wit_world =
      (Inr (hash_str ref_prims ''hello''), w')"
    by (rule wit_put [of "''hello''"]) simp
  with PutChunk_GetChunk [OF wit.store_env_axioms wit_ready put] wit_fresh show ?thesis by blast
qed

text \<open>
  Deduplication: storing the same data twice gives the same name, and the second call
  writes nothing to any bucket and draws no nonce.
\<close>

theorem PutChunk_dedup:
  assumes "store_env B P s" and "world_ready B w"
    and "Store_PutChunk P B s m w = (Inr h, w1)" and "Store_PutChunk P B s m w1 = (Inr h', w2)"
  shows "h' = h \<and> tx_get B (wdb w2) = tx_get B (wdb w1) \<and> wrng w2 = wrng w1"
  using store_env.put_chunk_again [OF assms] .

theorem PutChunk_dedup_witness:
  "\<exists>h w1 h' w2. Store_PutChunk ref_prims mem_bolt wit_store ''ab'' wit_world = (Inr h, w1) \<and>
     Store_PutChunk ref_prims mem_bolt wit_store ''ab'' w1 = (Inr h', w2) \<and>
     h' = h \<and> tx_get mem_bolt (wdb w2) = tx_get mem_bolt (wdb w1) \<and> wrng w2 = wrng w1"
proof -
  obtain w1 where put1: "Store_PutChunk ref_prims mem_bolt wit_store ''ab'' wit_world =
      (Inr (hash_str ref_prims ''ab''), w1)"
    by (rule wit_put [of "''ab''"]) simp
  have "world_ready mem_bolt w1" using wit.PutChunk_success [OF wit_ready put1] by simp
  then obtain w2 where put2: "Store_PutChunk ref_prims mem_bolt wit_store ''ab'' w1 =
      (Inr (hash_str ref_prims ''ab''), w2)"
    using wit.PutChunk_ok [OF _ ref_rand _ mem_commits, of w1 "''ab''"] by auto
  show ?thesis
    using put1 put2 PutChunk_dedup [OF wit.store_env_axioms wit_ready put1 put2] by blast
qed

text \<open>
  \<open>PutChunk\<close> succeeds whenever the machine lets it: on an open database, with working
  randomness, a chunk below the database's value limit and commits that succeed, it returns
  the hexadecimal digest of the data.
\<close>

theorem PutChunk_total:
  assumes "store_env B P s" and "world_ready B w" and "rand_read P (wrng w) 12 \<noteq> None"
    and "length m \<le> 2147483618" and "\<And>d. \<exists>d'. tx_commit B d = Inr d'"
  shows "\<exists>w'. Store_PutChunk P B s m w = (Inr (hash_str P m), w') \<and> world_ready B w'"
  using store_env.PutChunk_ok [OF assms] store_env.PutChunk_success [OF assms(1,2)] by blast

theorem PutChunk_total_witness:
  "\<exists>w'. Store_PutChunk ref_prims mem_bolt wit_store ''x'' wit_world =
     (Inr (hash_str ref_prims ''x''), w') \<and> world_ready mem_bolt w'"
  by (rule PutChunk_total [OF wit.store_env_axioms wit_ready ref_rand _ mem_commits]) simp

end
