(* ===== verification/SV_Versioning.thy ===== *)
theory SV_Versioning
  imports SV_Store
begin

text \<open>
  \<open>internal/versioning/version.go\<close>: snapshot records in the database.

  The map \<open>Meta\<close> is its list of entries in key order, which is how \<open>encoding/json\<close> writes
  it; a nil slice and an empty one are both the empty list. \<open>encoding/json\<close> on the struct
  \<open>Snapshot\<close> is a parameter, the record \<open>codec\<close>; \<open>codec_laws\<close> states what the program
  needs of it, the round trip on values whose strings are ASCII. A snapshot is stored under its own \<open>ID\<close>; \<open>snapshot_repo\<close> is the contract of
  the bucket as a finite map from IDs to snapshots, which the collector and the verifier build
  on.
\<close>

section \<open>Data\<close>

record Snapshot =
  ID :: string
  Parent :: string
  Timestamp :: string
  Chunks :: "string list"
  Meta :: "(string \<times> string) list"
  SignerPub :: string
  Signature :: string

record codec =
  marshal_Snapshot :: "Snapshot \<Rightarrow> bytes"
  unmarshal_Snapshot :: "bytes \<Rightarrow> gerror + Snapshot"

definition ascii :: "string \<Rightarrow> bool" where
  "ascii s \<longleftrightarrow> list_all (\<lambda>c. byte_val c < 128) s"

definition ascii_snapshot :: "Snapshot \<Rightarrow> bool" where
  "ascii_snapshot sn \<longleftrightarrow>
     ascii (ID sn) \<and> ascii (Parent sn) \<and> ascii (Timestamp sn) \<and> list_all ascii (Chunks sn) \<and>
     list_all (\<lambda>(k, v). ascii k \<and> ascii v) (Meta sn) \<and> sorted_wrt (<) (map fst (Meta sn)) \<and>
     ascii (SignerPub sn) \<and> ascii (Signature sn)"

locale codec_laws =
  fixes C :: codec
  assumes snapshot_round_trip: "ascii_snapshot sn \<Longrightarrow> unmarshal_Snapshot C (marshal_Snapshot C sn) = Inr sn"
begin

lemma marshal_inject:
  "ascii_snapshot a \<Longrightarrow> ascii_snapshot b \<Longrightarrow> marshal_Snapshot C a = marshal_Snapshot C b \<Longrightarrow> a = b"
  using snapshot_round_trip by (metis sum.inject(2))

end

section \<open>version.go\<close>

definition ErrSnapshotNotFound :: gerror where
  "ErrSnapshotNotFound = Sentinel ''snapshot not found''"

definition SaveSnapshot :: "codec \<Rightarrow> 'd bolt \<Rightarrow> 'd world \<Rightarrow> Snapshot \<Rightarrow> gerror option \<times> 'd world" where
  "SaveSnapshot C B w sn =
     (case DB_Update B (\<lambda>tx. tx_put B tx BucketSnapshots (ID sn) (marshal_Snapshot C sn)) (wdb w) of
        (err, d) \<Rightarrow> (err, w\<lparr>wdb := d\<rparr>))"

definition LoadSnapshot :: "codec \<Rightarrow> 'd bolt \<Rightarrow> 'd world \<Rightarrow> string \<Rightarrow> gerror + Snapshot" where
  "LoadSnapshot C B w i =
     DB_View B (\<lambda>tx. case tx_get B tx BucketSnapshots i of
                       None \<Rightarrow> Inl ErrSnapshotNotFound
                     | Some v \<Rightarrow> unmarshal_Snapshot C v) (wdb w)"

fun unmarshal_all :: "codec \<Rightarrow> (bytes \<times> bytes) list \<Rightarrow> gerror + Snapshot list" where
  "unmarshal_all C [] = Inr []"
| "unmarshal_all C ((k, v) # kvs) =
     (case unmarshal_Snapshot C v of
        Inl err \<Rightarrow> Inl err
      | Inr sn \<Rightarrow> (case unmarshal_all C kvs of Inl err \<Rightarrow> Inl err | Inr sns \<Rightarrow> Inr (sn # sns)))"

definition ListAllSnapshots :: "codec \<Rightarrow> 'd bolt \<Rightarrow> 'd world \<Rightarrow> gerror + Snapshot list" where
  "ListAllSnapshots C B w = DB_View B (\<lambda>tx. unmarshal_all C (tx_foreach B tx BucketSnapshots)) (wdb w)"

definition DeleteSnapshot :: "'d bolt \<Rightarrow> 'd world \<Rightarrow> string \<Rightarrow> gerror option \<times> 'd world" where
  "DeleteSnapshot B w i =
     (case DB_Update B (\<lambda>tx. tx_delete B tx BucketSnapshots i) (wdb w) of
        (err, d) \<Rightarrow> (err, w\<lparr>wdb := d\<rparr>))"

definition CountSnapshots :: "'d bolt \<Rightarrow> 'd world \<Rightarrow> gerror + nat" where
  "CountSnapshots B w = DB_View B (\<lambda>tx. Inr (tx_keyN B tx BucketSnapshots)) (wdb w)"

section \<open>The snapshot bucket as a finite map\<close>

text \<open>
  The abstract view of the bucket, and its well-formedness: every entry decodes, to a snapshot
  with the key as its ID.
\<close>

definition Snaps :: "codec \<Rightarrow> 'd bolt \<Rightarrow> 'd world \<Rightarrow> string \<Rightarrow> Snapshot option" where
  "Snaps C B w i =
     (case tx_get B (wdb w) BucketSnapshots i of
        None \<Rightarrow> None
      | Some v \<Rightarrow> (case unmarshal_Snapshot C v of Inl _ \<Rightarrow> None | Inr sn \<Rightarrow> Some sn))"

definition snaps_ok :: "codec \<Rightarrow> 'd bolt \<Rightarrow> 'd world \<Rightarrow> bool" where
  "snaps_ok C B w \<longleftrightarrow> world_ready B w \<and>
     (\<forall>i v. tx_get B (wdb w) BucketSnapshots i = Some v \<longrightarrow> (\<exists>sn. unmarshal_Snapshot C v = Inr sn \<and> ID sn = i))"

lemma Snaps_Some:
  "Snaps C B w i = Some sn \<longleftrightarrow>
     (\<exists>v. tx_get B (wdb w) BucketSnapshots i = Some v \<and> unmarshal_Snapshot C v = Inr sn)"
  by (auto simp: Snaps_def split: option.splits sum.splits)

text \<open>Everything outside the snapshot bucket.\<close>

definition non_snapshots :: "'d bolt \<Rightarrow> 'd world \<Rightarrow> string \<Rightarrow> string \<Rightarrow> bytes option" where
  "non_snapshots B w b = (if b = BucketSnapshots then Map.empty else tx_get B (wdb w) b)"

locale snapshot_repo =
  fixes ok :: "'w \<Rightarrow> bool"
    and snaps :: "'w \<Rightarrow> string \<Rightarrow> Snapshot option"
    and frame :: "'w \<Rightarrow> 'f"
    and encodable :: "Snapshot \<Rightarrow> bool"
    and save_op :: "'w \<Rightarrow> Snapshot \<Rightarrow> gerror option \<times> 'w"
    and load_op :: "'w \<Rightarrow> string \<Rightarrow> gerror + Snapshot"
    and list_op :: "'w \<Rightarrow> gerror + Snapshot list"
    and delete_op :: "'w \<Rightarrow> string \<Rightarrow> gerror option \<times> 'w"
    and count_op :: "'w \<Rightarrow> gerror + nat"
  assumes key_is_ID: "ok w \<Longrightarrow> snaps w i = Some sn \<Longrightarrow> ID sn = i"
    and save_law: "ok w \<Longrightarrow> encodable sn \<Longrightarrow> save_op w sn = (None, w') \<Longrightarrow>
      ok w' \<and> snaps w' = (snaps w)(ID sn \<mapsto> sn) \<and> frame w' = frame w"
    and save_err: "save_op w sn = (Some e, w') \<Longrightarrow> w' = w"
    and load_law: "ok w \<Longrightarrow>
      load_op w i = (case snaps w i of None \<Rightarrow> Inl ErrSnapshotNotFound | Some sn \<Rightarrow> Inr sn)"
    and list_law: "ok w \<Longrightarrow> \<exists>sns. list_op w = Inr sns \<and> sorted_wrt (<) (map ID sns) \<and>
      set sns = ran (snaps w) \<and> count_op w = Inr (length sns)"
    and delete_law: "ok w \<Longrightarrow> delete_op w i = (None, w') \<Longrightarrow>
      ok w' \<and> snaps w' = (snaps w)(i := None) \<and> frame w' = frame w"
    and delete_err: "delete_op w i = (Some e, w') \<Longrightarrow> w' = w"
begin

lemma load_after_save:
  "ok w \<Longrightarrow> encodable sn \<Longrightarrow> save_op w sn = (None, w') \<Longrightarrow> load_op w' (ID sn) = Inr sn"
  using save_law [of w sn w'] by (simp add: load_law)

lemma load_other_after_save:
  "ok w \<Longrightarrow> encodable sn \<Longrightarrow> save_op w sn = (None, w') \<Longrightarrow> i \<noteq> ID sn \<Longrightarrow> load_op w' i = load_op w i"
  using save_law [of w sn w'] by (simp add: load_law)

lemma load_after_delete:
  "ok w \<Longrightarrow> delete_op w i = (None, w') \<Longrightarrow> load_op w' i = Inl ErrSnapshotNotFound"
  using delete_law [of w i w'] by (simp add: load_law)

lemma listed_iff: "ok w \<Longrightarrow> list_op w = Inr sns \<Longrightarrow> sn \<in> set sns \<longleftrightarrow> snaps w (ID sn) = Some sn"
  using list_law [of w] key_is_ID [of w] by (auto simp: ran_def)

lemma count_is_card: "ok w \<Longrightarrow> count_op w = Inr (card (dom (snaps w)))"
proof -
  assume ok: "ok w"
  with list_law obtain sns where sns: "sorted_wrt (<) (map ID sns)" "set sns = ran (snaps w)"
    "count_op w = Inr (length sns)" by blast
  have "dom (snaps w) = ID ` set sns"
    using sns(2) key_is_ID [OF ok] by (force simp: ran_def dom_def)
  moreover have "distinct (map ID sns)" using sns(1) strict_sorted_iff by blast
  ultimately have "card (dom (snaps w)) = length sns"
    by (metis distinct_card length_map list.set_map)
  with sns(3) show ?thesis by simp
qed

end

lemma unmarshal_all_Inr:
  assumes "\<forall>(k, v) \<in> set kvs. \<exists>sn. unmarshal_Snapshot C v = Inr sn \<and> ID sn = k"
  shows "\<exists>sns. unmarshal_all C kvs = Inr sns \<and> map ID sns = map fst kvs \<and>
    set sns = {sn. \<exists>k v. (k, v) \<in> set kvs \<and> unmarshal_Snapshot C v = Inr sn}"
  using assms
proof (induction kvs)
  case Nil
  then show ?case by simp
next
  case (Cons e kvs)
  obtain k v where e: "e = (k, v)" by (cases e)
  from Cons obtain sns where sns: "unmarshal_all C kvs = Inr sns" "map ID sns = map fst kvs"
    "set sns = {sn. \<exists>k v. (k, v) \<in> set kvs \<and> unmarshal_Snapshot C v = Inr sn}" by auto
  from Cons.prems e obtain sn where "unmarshal_Snapshot C v = Inr sn" "ID sn = k" by auto
  with sns e show ?case by auto
qed

locale version_env = db: bolt_db B + codec: codec_laws C for B :: "'d bolt" and C :: codec

sublocale version_env \<subseteq> repo: snapshot_repo "snaps_ok C B" "Snaps C B" "non_snapshots B" ascii_snapshot
  "SaveSnapshot C B" "LoadSnapshot C B" "ListAllSnapshots C B" "DeleteSnapshot B" "CountSnapshots B"
proof
  fix w w' :: "'d world" and i :: string and sn :: Snapshot and e :: gerror
  show "SaveSnapshot C B w sn = (Some e, w') \<Longrightarrow> w' = w"
    by (auto simp: SaveSnapshot_def split: prod.splits dest: DB_Update_error)
  show "DeleteSnapshot B w i = (Some e, w') \<Longrightarrow> w' = w"
    by (auto simp: DeleteSnapshot_def split: prod.splits dest: DB_Update_error)
  assume ok: "snaps_ok C B w"
  then have rdy: "ready B (wdb w)" by (simp add: snaps_ok_def world_ready_def)
  show "ID sn = i" if "Snaps C B w i = Some sn"
    using that ok by (fastforce simp: Snaps_def snaps_ok_def split: option.splits sum.splits)
  show "LoadSnapshot C B w i = (case Snaps C B w i of None \<Rightarrow> Inl ErrSnapshotNotFound | Some sn \<Rightarrow> Inr sn)"
    using ok rdy by (fastforce simp: LoadSnapshot_def Snaps_def snaps_ok_def split: option.splits sum.splits)
  show "snaps_ok C B w' \<and> Snaps C B w' = (Snaps C B w)(ID sn \<mapsto> sn) \<and> non_snapshots B w' = non_snapshots B w"
    if enc: "ascii_snapshot sn" and save: "SaveSnapshot C B w sn = (None, w')"
  proof -
    from save obtain d where d: "DB_Update B (\<lambda>tx. tx_put B tx BucketSnapshots (ID sn) (marshal_Snapshot C sn)) (wdb w) = (None, d)"
      and w': "w' = w\<lparr>wdb := d\<rparr>" by (auto simp: SaveSnapshot_def split: prod.splits)
    note put = db.Update_put [OF rdy _ d]
    have "Snaps C B w' = (Snaps C B w)(ID sn \<mapsto> sn)"
      using put w' by (simp add: fun_eq_iff Snaps_def codec.snapshot_round_trip [OF enc])
    moreover have "snaps_ok C B w'"
      using put w' ok by (simp add: snaps_ok_def world_ready_def codec.snapshot_round_trip [OF enc])
    ultimately show ?thesis
      using put w' by (simp add: fun_eq_iff non_snapshots_def)
  qed
  show "snaps_ok C B w' \<and> Snaps C B w' = (Snaps C B w)(i := None) \<and> non_snapshots B w' = non_snapshots B w"
    if "DeleteSnapshot B w i = (None, w')"
  proof -
    from that obtain d where d: "DB_Update B (\<lambda>tx. tx_delete B tx BucketSnapshots i) (wdb w) = (None, d)"
      and w': "w' = w\<lparr>wdb := d\<rparr>" by (auto simp: DeleteSnapshot_def split: prod.splits)
    note del = db.Update_delete [OF rdy _ d]
    show ?thesis
      using del w' ok by (simp add: fun_eq_iff Snaps_def snaps_ok_def world_ready_def non_snapshots_def)
  qed
  show "\<exists>sns. ListAllSnapshots C B w = Inr sns \<and> sorted_wrt (<) (map ID sns) \<and>
      set sns = ran (Snaps C B w) \<and> CountSnapshots B w = Inr (length sns)"
  proof -
    let ?kvs = "tx_foreach B (wdb w) BucketSnapshots"
    have entries: "(k, v) \<in> set ?kvs \<longleftrightarrow> tx_get B (wdb w) BucketSnapshots k = Some v" for k v
      using rdy by (simp add: db.foreach_entries)
    with ok have "\<forall>(k, v) \<in> set ?kvs. \<exists>sn. unmarshal_Snapshot C v = Inr sn \<and> ID sn = k"
      by (auto simp: snaps_ok_def)
    from unmarshal_all_Inr [OF this] obtain sns where sns: "unmarshal_all C ?kvs = Inr sns"
      "map ID sns = map fst ?kvs" "set sns = {sn. \<exists>k v. (k, v) \<in> set ?kvs \<and> unmarshal_Snapshot C v = Inr sn}"
      by blast
    have "set sns = ran (Snaps C B w)"
      using sns(3) by (auto simp: ran_def Snaps_Some entries)
    moreover have "length sns = length ?kvs" using arg_cong [OF sns(2), of length] by simp
    ultimately show ?thesis
      using rdy sns(1,2) db.foreach_sorted [of "wdb w" BucketSnapshots]
      by (simp add: ListAllSnapshots_def CountSnapshots_def db.keyN)
  qed
qed

text \<open>The blocks and the snapshots are independent of each other.\<close>

lemma snaps_ok_ready: "snaps_ok C B w \<Longrightarrow> world_ready B w"
  by (simp add: snaps_ok_def)

lemma blocks_non_snapshots: "non_snapshots B w' = non_snapshots B w \<Longrightarrow> Blocks B w' = Blocks B w"
  by (drule fun_cong [of _ _ BucketBlocks]) (simp add: non_snapshots_def)

lemma snaps_other_buckets:
  assumes "snaps_ok C B w" and "world_ready B w'" and "other_buckets B w' = other_buckets B w"
  shows "snaps_ok C B w' \<and> Snaps C B w' = Snaps C B w"
proof -
  have "tx_get B (wdb w') BucketSnapshots = tx_get B (wdb w) BucketSnapshots"
    using fun_cong [OF assms(3), of BucketSnapshots] by (simp add: other_buckets_def)
  with assms(1,2) show ?thesis by (simp add: snaps_ok_def Snaps_def fun_eq_iff)
qed

context version_env
begin

lemma save_then_load:
  assumes "snaps_ok C B w" and "ascii_snapshot sn" and "SaveSnapshot C B w sn = (None, w')"
  shows "snaps_ok C B w' \<and> LoadSnapshot C B w' (ID sn) = Inr sn \<and>
    (\<forall>i. i \<noteq> ID sn \<longrightarrow> LoadSnapshot C B w' i = LoadSnapshot C B w i) \<and>
    non_snapshots B w' = non_snapshots B w"
  using repo.save_law [OF assms] repo.load_after_save [OF assms] repo.load_other_after_save [OF assms] by blast

lemma list_and_count:
  assumes "snaps_ok C B w"
  shows "\<exists>sns. ListAllSnapshots C B w = Inr sns \<and> sorted_wrt (<) (map ID sns) \<and>
    (\<forall>sn. sn \<in> set sns \<longleftrightarrow> LoadSnapshot C B w (ID sn) = Inr sn) \<and>
    CountSnapshots B w = Inr (length sns)"
proof -
  from repo.list_law [OF assms] obtain sns where sns: "ListAllSnapshots C B w = Inr sns"
    "sorted_wrt (<) (map ID sns)" "CountSnapshots B w = Inr (length sns)" by blast
  moreover have "sn \<in> set sns \<longleftrightarrow> LoadSnapshot C B w (ID sn) = Inr sn" for sn
    by (simp add: repo.listed_iff [OF assms sns(1)] repo.load_law [OF assms] split: option.splits)
  ultimately show ?thesis by blast
qed

end

section \<open>A concrete codec\<close>

text \<open>
  An executable codec for the witnesses: a string is written as its characters, each behind an
  \<open>x\<close>, and closed by a semicolon; a list of strings is the concatenation.
\<close>

fun quote :: "string \<Rightarrow> string" where
  "quote [] = '';''"
| "quote (c # cs) = CHR ''x'' # c # quote cs"

definition quote_list :: "string list \<Rightarrow> string" where
  "quote_list ss = concat (map quote ss)"

fun unquote :: "string \<Rightarrow> string \<Rightarrow> string list" where
  "unquote acc (a # c # cs) =
     (if a = CHR '';'' then acc # unquote [] (c # cs) else unquote (acc @ [c]) cs)"
| "unquote acc [a] = (if a = CHR '';'' then [acc] else [])"
| "unquote acc [] = []"

fun pair_up :: "string list \<Rightarrow> (string \<times> string) list" where
  "pair_up (k # v # rest) = (k, v) # pair_up rest"
| "pair_up _ = []"

definition ref_codec :: codec where
  "ref_codec = \<lparr>
     marshal_Snapshot = (\<lambda>sn. quote_list [ID sn, Parent sn, Timestamp sn, quote_list (Chunks sn),
       quote_list (concat (map (\<lambda>(k, v). [k, v]) (Meta sn))), SignerPub sn, Signature sn]),
     unmarshal_Snapshot = (\<lambda>b. case unquote [] b of
         [i, p, t, cs, m, pub, sg] \<Rightarrow> Inr \<lparr>ID = i, Parent = p, Timestamp = t, Chunks = unquote [] cs,
            Meta = pair_up (unquote [] m), SignerPub = pub, Signature = sg\<rparr>
       | _ \<Rightarrow> Inl (ErrorString ''invalid character''))\<rparr>"

lemma quote_nonempty: "quote s \<noteq> []"
  by (cases s) auto

lemma unquote_quote: "unquote acc (quote s @ rest) = (acc @ s) # unquote [] rest"
proof (induction s arbitrary: acc)
  case Nil
  then show ?case by (cases rest) auto
next
  case (Cons c s)
  then show ?case by (cases "quote s @ rest") (auto simp: quote_nonempty)
qed

lemma unquote_list [simp]: "unquote [] (quote_list ss) = ss"
  by (induction ss) (simp_all add: quote_list_def unquote_quote)

lemma pair_up_flat [simp]: "pair_up (concat (map (\<lambda>(k, v). [k, v]) kvs)) = kvs"
  by (induction kvs) auto

interpretation ref_codec: codec_laws ref_codec
  by unfold_locales (simp add: ref_codec_def)

interpretation wit_versions: version_env mem_bolt ref_codec
  by unfold_locales

lemma wit_snaps_ok: "snaps_ok ref_codec mem_bolt wit_world"
  using wit_ready by (simp add: snaps_ok_def wit_world_def mem_bolt_def mem_kvs_def mem_db0_def)

lemma mem_save_ok:
  assumes "world_ready mem_bolt w" and "ID sn \<noteq> []"
  obtains w' where "SaveSnapshot C mem_bolt w sn = (None, w')"
  using assms that
  by (auto simp: SaveSnapshot_def DB_Update_def mem_bolt_def mem_upd_def world_ready_def ready_def
      all_buckets_def split: if_splits option.splits)

definition wit_snapshot :: Snapshot where
  "wit_snapshot = \<lparr>ID = ''snap-1'', Parent = [], Timestamp = ''t1'', Chunks = [''c1'', ''c2''],
     Meta = [(''source'', ''/data'')], SignerPub = ''pub'', Signature = ''sig''\<rparr>"

lemma wit_snapshot_ascii: "ascii_snapshot wit_snapshot"
  by (simp add: ascii_snapshot_def wit_snapshot_def ascii_def byte_val_def)

section \<open>Properties\<close>

text \<open>
  C8. Save and load: after \<open>SaveSnapshot\<close> of a snapshot succeeded on a well-formed database,
  \<open>LoadSnapshot\<close> of its ID returns exactly that snapshot, every other ID loads what it loaded
  before, no other bucket changed, and the database is still well-formed.
\<close>

theorem SaveSnapshot_LoadSnapshot:
  assumes "version_env B C" and "snaps_ok C B w" and "ascii_snapshot sn"
    and "SaveSnapshot C B w sn = (None, w')"
  shows "snaps_ok C B w' \<and> LoadSnapshot C B w' (ID sn) = Inr sn \<and>
    (\<forall>i. i \<noteq> ID sn \<longrightarrow> LoadSnapshot C B w' i = LoadSnapshot C B w i) \<and>
    non_snapshots B w' = non_snapshots B w"
  using version_env.save_then_load [OF assms] .

theorem SaveSnapshot_LoadSnapshot_witness:
  "\<exists>w'. SaveSnapshot ref_codec mem_bolt wit_world wit_snapshot = (None, w') \<and>
     LoadSnapshot ref_codec mem_bolt w' ''snap-1'' = Inr wit_snapshot"
proof -
  obtain w' where "SaveSnapshot ref_codec mem_bolt wit_world wit_snapshot = (None, w')"
    by (rule mem_save_ok [OF wit_ready]) (auto simp: wit_snapshot_def)
  with SaveSnapshot_LoadSnapshot [OF wit_versions.version_env_axioms wit_snaps_ok wit_snapshot_ascii this]
  show ?thesis by (auto simp: wit_snapshot_def)
qed

text \<open>
  C15. Listing: on a well-formed database \<open>ListAllSnapshots\<close> succeeds and returns, in ID order and
  without repetition, exactly the snapshots \<open>LoadSnapshot\<close> can load; \<open>CountSnapshots\<close> is their
  number.
\<close>

theorem ListAllSnapshots_complete:
  assumes "version_env B C" and "snaps_ok C B w"
  shows "\<exists>sns. ListAllSnapshots C B w = Inr sns \<and> sorted_wrt (<) (map ID sns) \<and>
    (\<forall>sn. sn \<in> set sns \<longleftrightarrow> LoadSnapshot C B w (ID sn) = Inr sn) \<and>
    CountSnapshots B w = Inr (length sns)"
  using version_env.list_and_count [OF assms] .

theorem ListAllSnapshots_complete_witness:
  "\<exists>sns. ListAllSnapshots ref_codec mem_bolt wit_world = Inr sns \<and> sorted_wrt (<) (map ID sns) \<and>
    (\<forall>sn. sn \<in> set sns \<longleftrightarrow> LoadSnapshot ref_codec mem_bolt wit_world (ID sn) = Inr sn) \<and>
    CountSnapshots mem_bolt wit_world = Inr (length sns)"
  using ListAllSnapshots_complete [OF wit_versions.version_env_axioms wit_snaps_ok] .

end
