(* ===== verification/SV_Chunker.thy ===== *)
theory SV_Chunker
  imports SV_Errors
begin

text \<open>
  \<open>internal/chunker/chunker.go\<close>: content-defined chunking.

  \<open>Chunker_Next\<close> reads one buffer of \<open>max\<close> bytes and returns the prefix up to the first
  position, not before \<open>min\<close>, at which the low thirteen bits of the FNV-1a hash of the bytes
  so far are zero. The reader is a parameter (\<open>io.Reader\<close>); \<open>file_read\<close> is the reader of
  a regular file (\<open>os.File\<close>). The theory
  characterises the chunk a call returns, what it takes from the reader, and when the two
  differ: the bytes after the boundary are read and dropped.
\<close>

section \<open>chunker.go\<close>

record 'r Chunker =
  ck_r :: 'r
  ck_min :: int
  ck_max :: int
  ck_avg :: int
  ck_window :: bytes

definition defaultMaskBits :: nat where "defaultMaskBits = 13"

definition Chunker_New :: "'r \<Rightarrow> int \<Rightarrow> int \<Rightarrow> int \<Rightarrow> 'r Chunker outcome" where
  "Chunker_New r mn mx avg =
     (if mx < 0 then Panic ''runtime error: makeslice: cap out of range''
      else Ret \<lparr>ck_r = r, ck_min = mn, ck_max = mx, ck_avg = avg, ck_window = []\<rparr>)"

definition boundary :: "u32 \<Rightarrow> u32 \<Rightarrow> bool" where
  "boundary hash m = ((hash AND m) = 0)"

text \<open>\<open>hash/fnv\<close>, \<open>New32a\<close>: the offset basis and one \<open>Write\<close> of a byte.\<close>

definition fnv_offset :: u32 where "fnv_offset = 2166136261"

definition fnv_write :: "u32 \<Rightarrow> byte \<Rightarrow> u32" where
  "fnv_write h b = (h XOR of_char b) * 16777619"

definition chunk_mask :: u32 where
  "chunk_mask = push_bit defaultMaskBits 1 - 1"

fun chunk_scan :: "int \<Rightarrow> int \<Rightarrow> bytes \<Rightarrow> nat \<Rightarrow> u32 \<Rightarrow> int \<Rightarrow> int" where
  "chunk_scan mn mx [] i h chunkEnd = chunkEnd"
| "chunk_scan mn mx (b # data) i h chunkEnd =
     (let h' = fnv_write h b in
      if mn \<le> int i \<and> boundary h' chunk_mask then int i + 1
      else if mx - 1 \<le> int i then mx
      else chunk_scan mn mx data (Suc i) h' chunkEnd)"

type_synonym 'r reader = "'r \<Rightarrow> nat \<Rightarrow> bytes \<times> gerror option \<times> 'r"

definition Chunker_Next :: "'r reader \<Rightarrow> 'r Chunker \<Rightarrow> (gerror + bytes) outcome \<times> 'r Chunker" where
  "Chunker_Next rd c =
     (if ck_max c < 0 then (Panic ''runtime error: makeslice: len out of range'', c)
      else
        (case rd (ck_r c) (nat (ck_max c)) of
           (data, err, r') \<Rightarrow>
             (if data = [] \<and> err \<noteq> None then (Ret (Inl (the err)), c\<lparr>ck_r := r'\<rparr>)
              else
                (let len = int (length data);
                     start = (if ck_max c < len then ck_max c else len);
                     chunkEnd = chunk_scan (ck_min c) (ck_max c) data 0 fnv_offset start
                 in (Ret (Inr (take (nat chunkEnd) data)), c\<lparr>ck_r := r'\<rparr>)))))"

text \<open>
  \<open>os.File.Read\<close> on a regular file, whose state is the bytes left and the error a read reports
  once they are used up (\<open>io.EOF\<close> on a healthy file): an empty buffer reads nothing, otherwise
  a read returns as many bytes as fit.
\<close>

type_synonym os_file = "bytes \<times> gerror"

fun file_read :: "os_file reader" where
  "file_read (rest, e) n =
     (if n = 0 then ([], None, (rest, e))
      else if rest = [] then ([], Some e, (rest, e))
      else (take n rest, None, (drop n rest, e)))"

section \<open>Where a chunk ends\<close>

definition fnv1a :: "bytes \<Rightarrow> u32" where
  "fnv1a bs = foldl fnv_write fnv_offset bs"

definition is_boundary :: "int \<Rightarrow> bytes \<Rightarrow> nat \<Rightarrow> bool" where
  "is_boundary mn data i \<longleftrightarrow> mn \<le> int i \<and> boundary (fnv1a (take (Suc i) data)) chunk_mask"

lemma fnv1a_snoc: "fnv1a (bs @ [b]) = fnv_write (fnv1a bs) b"
  by (simp add: fnv1a_def)

text \<open>
  The reference definition of the cut: one past the first boundary of the buffer, or its length.
\<close>

definition cut_at :: "int \<Rightarrow> bytes \<Rightarrow> nat" where
  "cut_at mn data =
     (case filter (is_boundary mn data) [0..<length data] of [] \<Rightarrow> length data | i # _ \<Rightarrow> Suc i)"

lemma chunk_scan_from:
  assumes "all = pre @ data" and "n = length all" and "int n \<le> mx"
  shows "chunk_scan mn mx data (length pre) (fnv1a pre) (int n) =
    (case filter (is_boundary mn all) [length pre..<n] of [] \<Rightarrow> int n | i # _ \<Rightarrow> int (Suc i))"
  using assms
proof (induction data arbitrary: pre)
  case Nil
  then show ?case by simp
next
  case (Cons b data)
  let ?h = "fnv_write (fnv1a pre) b"
  have here: "is_boundary mn all (length pre) \<longleftrightarrow> mn \<le> int (length pre) \<and> boundary ?h chunk_mask"
    by (simp add: is_boundary_def fnv1a_snoc Cons.prems(1))
  have split: "[length pre..<n] = length pre # [Suc (length pre)..<n]"
    by (rule upt_conv_Cons) (simp add: Cons.prems)
  show ?case
  proof (cases "is_boundary mn all (length pre)")
    case True
    with here show ?thesis by (simp add: split Let_def)
  next
    case False
    show ?thesis
    proof (cases "data = []")
      case True
      with False here Cons.prems show ?thesis by (auto simp: split Let_def)
    next
      case ne: False
      with Cons.prems have far: "\<not> mx - 1 \<le> int (length pre)" by (cases data) auto
      have "all = (pre @ [b]) @ data" using Cons.prems(1) by simp
      from Cons.IH [OF this assms(2,3)]
      have "chunk_scan mn mx data (Suc (length pre)) ?h (int n) =
        (case filter (is_boundary mn all) [Suc (length pre)..<n] of [] \<Rightarrow> int n | i # _ \<Rightarrow> int (Suc i))"
        by (simp add: fnv1a_snoc)
      with False here far show ?thesis by (auto simp: split Let_def)
    qed
  qed
qed

lemma chunk_scan_cut:
  assumes "int (length data) \<le> mx"
  shows "chunk_scan mn mx data 0 fnv_offset (int (length data)) = int (cut_at mn data)"
  using chunk_scan_from [of data "[]" data "length data" mx mn] assms
  by (auto simp: cut_at_def fnv1a_def split: list.splits)

lemma first_of_filter:
  assumes "filter Q [0..<n] = i # is"
  shows "i < n" and "Q i" and "j < i \<Longrightarrow> \<not> Q j"
proof -
  have mem: "x \<in> set (i # is) \<longleftrightarrow> x < n \<and> Q x" for x
    unfolding assms [symmetric] by auto
  have "sorted (filter Q [0..<n])" by (simp add: sorted_wrt_filter)
  then have least: "x \<in> set (i # is) \<Longrightarrow> i \<le> x" for x unfolding assms by auto
  from mem [of i] show "i < n" "Q i" by simp_all
  with mem [of j] least [of j] show "j < i \<Longrightarrow> \<not> Q j" by fastforce
qed

lemma cut_cases:
  obtains (whole) "cut_at mn data = length data" "\<And>i. i < length data \<Longrightarrow> \<not> is_boundary mn data i"
  | (early) i where "cut_at mn data = Suc i" "i < length data" "is_boundary mn data i"
      "\<And>j. j < i \<Longrightarrow> \<not> is_boundary mn data j"
proof (cases "filter (is_boundary mn data) [0..<length data]")
  case Nil
  then have "\<And>i. i < length data \<Longrightarrow> \<not> is_boundary mn data i"
    by (auto simp: filter_empty_conv)
  with Nil whole show ?thesis by (simp add: cut_at_def)
next
  case (Cons i rest)
  from first_of_filter [OF this] Cons early show ?thesis by (simp add: cut_at_def)
qed

lemma cut_at_le: "cut_at mn data \<le> length data"
  by (cases rule: cut_cases [of mn data]) auto

lemma cut_at_pos: "data \<noteq> [] \<Longrightarrow> 0 < cut_at mn data"
  by (cases rule: cut_cases [of mn data]) auto

lemma cut_at_min: "cut_at mn data < length data \<Longrightarrow> mn < int (cut_at mn data)"
  by (cases rule: cut_cases [of mn data]) (auto simp: is_boundary_def)

section \<open>One call of \<open>Next\<close> on a file\<close>

definition next_chunk :: "int \<Rightarrow> int \<Rightarrow> bytes \<Rightarrow> bytes" where
  "next_chunk mn mx rest = (let data = take (nat mx) rest in take (cut_at mn data) data)"

lemma Next_file:
  assumes "0 < ck_max c" and "ck_r c = (rest, e)"
  shows "Chunker_Next file_read c =
    (if rest = [] then (Ret (Inl e), c)
     else (Ret (Inr (next_chunk (ck_min c) (ck_max c) rest)), c\<lparr>ck_r := (drop (nat (ck_max c)) rest, e)\<rparr>))"
proof -
  let ?data = "take (nat (ck_max c)) rest"
  have le: "int (length ?data) \<le> ck_max c" using assms by simp
  then have "\<not> ck_max c < int (length ?data)" by linarith
  with assms le chunk_scan_cut [OF le, of "ck_min c"] show ?thesis
    by (auto simp: Chunker_Next_def next_chunk_def Let_def)
qed

lemma next_chunk_nonempty: "0 < mx \<Longrightarrow> rest \<noteq> [] \<Longrightarrow> next_chunk mn mx rest \<noteq> []"
  using cut_at_pos [of "take (nat mx) rest" mn] by (simp add: next_chunk_def Let_def)

lemma next_chunk_length: "length (next_chunk mn mx rest) = cut_at mn (take (nat mx) rest)"
  using cut_at_le [of mn "take (nat mx) rest"] by (simp add: next_chunk_def Let_def)

lemma next_chunk_prefix: "next_chunk mn mx rest = take (length (next_chunk mn mx rest)) rest"
  using cut_at_le [of mn "take (nat mx) rest"]
  by (simp add: next_chunk_length) (simp add: next_chunk_def Let_def min.absorb1)

text \<open>The bytes a call takes from the file and does not return.\<close>

definition dropped :: "int \<Rightarrow> int \<Rightarrow> bytes \<Rightarrow> bytes" where
  "dropped mn mx rest = drop (cut_at mn (take (nat mx) rest)) (take (nat mx) rest)"

lemma next_chunk_dropped:
  "next_chunk mn mx rest @ dropped mn mx rest @ drop (nat mx) rest = rest"
proof -
  have "next_chunk mn mx rest @ dropped mn mx rest = take (nat mx) rest"
    unfolding next_chunk_def dropped_def Let_def by (rule append_take_drop_id)
  then show ?thesis by (simp flip: append_assoc)
qed

lemma cut_at_whole_iff:
  "cut_at mn data = length data \<longleftrightarrow> (\<forall>i. Suc i < length data \<longrightarrow> \<not> is_boundary mn data i)"
proof (cases rule: cut_cases [of mn data])
  case (early i)
  show ?thesis
  proof
    assume "cut_at mn data = length data"
    with early(1) have "length data = Suc i" by simp
    with early(4) show "\<forall>i. Suc i < length data \<longrightarrow> \<not> is_boundary mn data i" by simp
  next
    assume "\<forall>i. Suc i < length data \<longrightarrow> \<not> is_boundary mn data i"
    with early(3) have "\<not> Suc i < length data" by blast
    with early(1,2) show "cut_at mn data = length data" by simp
  qed
qed auto

lemma dropped_empty_iff:
  "dropped mn mx rest = [] \<longleftrightarrow>
     (\<forall>i. Suc i < length (take (nat mx) rest) \<longrightarrow> \<not> is_boundary mn (take (nat mx) rest) i)"
  using cut_at_le [of mn "take (nat mx) rest"]
  unfolding dropped_def drop_eq_Nil cut_at_whole_iff [symmetric] by linarith

section \<open>A whole file\<close>

text \<open>
  The chunks the snapshot loop sees: \<open>Next\<close> until the end of the file. Each call consumes up to
  \<open>max\<close> bytes, so the loop ends.
\<close>

function file_chunks :: "int \<Rightarrow> int \<Rightarrow> bytes \<Rightarrow> bytes list" where
  "file_chunks mn mx rest =
     (if rest = [] \<or> mx \<le> 0 then [] else next_chunk mn mx rest # file_chunks mn mx (drop (nat mx) rest))"
  by pat_completeness auto
termination
  by (relation "measure (\<lambda>(mn, mx, rest). length rest)") auto

declare file_chunks.simps [simp del]

lemma file_chunks_lossless:
  assumes "0 < mx" and "\<And>k. dropped mn mx (drop (k * nat mx) data) = []"
  shows "concat (file_chunks mn mx data) = data"
  using assms
proof (induction mn mx data rule: file_chunks.induct)
  case (1 mn mx rest)
  show ?case
  proof (cases "rest = []")
    case True
    then show ?thesis by (simp add: file_chunks.simps)
  next
    case False
    have "dropped mn mx (drop (k * nat mx) (drop (nat mx) rest)) = []" for k
      using "1.prems"(2) [of "Suc k"] by (simp add: add.commute)
    with 1 False have "concat (file_chunks mn mx (drop (nat mx) rest)) = drop (nat mx) rest"
      by simp
    moreover have "next_chunk mn mx rest @ drop (nat mx) rest = rest"
      using next_chunk_dropped [of mn mx rest] "1.prems"(2) [of 0] by simp
    ultimately show ?thesis
      using False "1.prems"(1) by (subst file_chunks.simps) simp
  qed
qed

lemma file_chunks_total_length: "length (concat (file_chunks mn mx data)) \<le> length data"
proof (induction mn mx data rule: file_chunks.induct)
  case (1 mn mx rest)
  show ?case
  proof (cases "rest = [] \<or> mx \<le> 0")
    case True
    then show ?thesis by (subst file_chunks.simps) auto
  next
    case False
    with 1 have "length (concat (file_chunks mn mx (drop (nat mx) rest))) \<le> length (drop (nat mx) rest)"
      by simp
    moreover have "length (next_chunk mn mx rest) + length (drop (nat mx) rest) \<le> length rest"
      using arg_cong [OF next_chunk_dropped [of mn mx rest], of length] by simp
    ultimately show ?thesis
      using False by (subst file_chunks.simps) simp
  qed
qed

lemma file_chunks_lossless_conv:
  assumes "0 < mx" and "concat (file_chunks mn mx data) = data"
  shows "dropped mn mx (drop (k * nat mx) data) = []"
  using assms
proof (induction mn mx data arbitrary: k rule: file_chunks.induct)
  case (1 mn mx rest)
  show ?case
  proof (cases "rest = []")
    case True
    then show ?thesis by (simp add: dropped_def)
  next
    case False
    let ?tail = "concat (file_chunks mn mx (drop (nat mx) rest))"
    have "next_chunk mn mx rest @ ?tail = concat (file_chunks mn mx rest)"
      using False "1.prems"(1) by (simp add: file_chunks.simps [of mn mx rest])
    also have "\<dots> = rest" by (rule "1.prems"(2))
    also have "\<dots> = next_chunk mn mx rest @ dropped mn mx rest @ drop (nat mx) rest"
      by (rule next_chunk_dropped [symmetric])
    finally have eq: "?tail = dropped mn mx rest @ drop (nat mx) rest" by simp
    have "length ?tail \<le> length (drop (nat mx) rest)" by (rule file_chunks_total_length)
    with eq have d: "dropped mn mx rest = []" by simp
    show ?thesis
    proof (cases k)
      case 0
      with d show ?thesis by simp
    next
      case (Suc k')
      have "dropped mn mx (drop (k' * nat mx) (drop (nat mx) rest)) = []"
        using 1 False eq d by simp
      with Suc show ?thesis by (simp add: add.commute)
    qed
  qed
qed

section \<open>Properties\<close>

text \<open>
  The rolling scan of \<open>Next\<close> computes the cut its comment describes: on a buffer of at most
  \<open>max\<close> bytes it stops one past the first position not before \<open>min\<close> at which the low
  thirteen bits of the FNV-1a hash of the prefix vanish, and at the end of the buffer if
  there is none.
\<close>

theorem chunk_scan_reference:
  assumes "int (length data) \<le> mx"
  shows "chunk_scan mn mx data 0 fnv_offset (int (length data)) = int (cut_at mn data) \<and>
    (\<forall>i < cut_at mn data. Suc i < cut_at mn data \<longrightarrow> \<not> is_boundary mn data i) \<and>
    (cut_at mn data = length data \<or> is_boundary mn data (cut_at mn data - 1))"
  using chunk_scan_cut [OF assms, of mn] by (cases rule: cut_cases [of mn data]) auto

theorem chunk_scan_reference_witness:
  "chunk_scan 2 64 ''lol!'' 0 fnv_offset (int (length ''lol!'')) = int (cut_at 2 ''lol!'') \<and>
     (cut_at 2 ''lol!'' = length ''lol!'' \<or> is_boundary 2 ''lol!'' (cut_at 2 ''lol!'' - 1))"
  using chunk_scan_reference [of "''lol!''" 64 2] by simp

text \<open>
  C21. Chunk sizes: on a regular file with bytes left, and \<open>max\<close> positive, \<open>Next\<close> returns
  without error a non-empty prefix of the unread bytes, of at most \<open>max\<close> bytes; it is longer
  than \<open>min\<close> unless it is all that one buffer holds. When no bytes are left it returns the
  file's error, \<open>io.EOF\<close> on a healthy file.
\<close>

theorem Next_chunk_bounds:
  assumes "0 < ck_max c" and "ck_r c = (rest, e)"
  shows "if rest = [] then Chunker_Next file_read c = (Ret (Inl e), c)
    else \<exists>chunk. Chunker_Next file_read c =
        (Ret (Inr chunk), c\<lparr>ck_r := (drop (nat (ck_max c)) rest, e)\<rparr>) \<and>
      chunk \<noteq> [] \<and> chunk = take (length chunk) rest \<and> int (length chunk) \<le> ck_max c \<and>
      (ck_min c < int (length chunk) \<or> chunk = take (nat (ck_max c)) rest)"
proof (cases "rest = []")
  case True
  with Next_file [OF assms] show ?thesis by simp
next
  case False
  let ?data = "take (nat (ck_max c)) rest" and ?chunk = "next_chunk (ck_min c) (ck_max c) rest"
  have le: "cut_at (ck_min c) ?data \<le> length ?data" by (rule cut_at_le)
  have "int (length ?chunk) \<le> ck_max c"
    using le assms unfolding next_chunk_length by (simp add: le_nat_iff)
  moreover have "ck_min c < int (length ?chunk) \<or> ?chunk = ?data"
  proof (cases "cut_at (ck_min c) ?data < length ?data")
    case True
    then show ?thesis using cut_at_min by (metis next_chunk_length)
  next
    case False
    with le have "cut_at (ck_min c) ?data = length ?data" by linarith
    then have "?chunk = ?data" unfolding next_chunk_def Let_def by (simp only: take_all [OF order_refl])
    then show ?thesis ..
  qed
  moreover have "?chunk = take (length ?chunk) rest" by (rule next_chunk_prefix)
  ultimately show ?thesis
    using False Next_file [OF assms] next_chunk_nonempty [OF assms(1) False] by auto
qed

theorem Next_chunk_bounds_witness:
  "\<exists>chunk. Chunker_Next file_read \<lparr>ck_r = (''abc'', EOF), ck_min = 1, ck_max = 2, ck_avg = 2, ck_window = []\<rparr> =
     (Ret (Inr chunk), \<lparr>ck_r = (''c'', EOF), ck_min = 1, ck_max = 2, ck_avg = 2, ck_window = []\<rparr>) \<and>
     chunk \<noteq> [] \<and> int (length chunk) \<le> 2"
  using Next_chunk_bounds [of "\<lparr>ck_r = (''abc'', EOF), ck_min = 1, ck_max = 2, ck_avg = 2, ck_window = []\<rparr>"
      "''abc''" EOF]
  by auto



text \<open>
  Bytes are lost: with \<open>min = 2\<close> and \<open>max = 64\<close> a file that begins with \<open>lol\<close>, whose
  FNV-1a hash ends in thirteen zero bits, gives the single chunk \<open>lol\<close>; the next call
  reports the end of the file.
\<close>

theorem Next_drops_bytes:
  "let c = \<lparr>ck_r = (''lol, and the rest of it'', EOF), ck_min = 2, ck_max = 64, ck_avg = 8, ck_window = []\<rparr>;
       c' = c\<lparr>ck_r := ([], EOF)\<rparr>
   in Chunker_Next file_read c = (Ret (Inr ''lol''), c') \<and>
      Chunker_Next file_read c' = (Ret (Inl EOF), c') \<and>
      file_chunks 2 64 ''lol, and the rest of it'' = [''lol'']"
proof -
  have scan: "chunk_scan 2 64 ''lol, and the rest of it'' 0 fnv_offset (int (length ''lol, and the rest of it'')) = 3"
    by (simp add: Let_def fnv_write_def fnv_offset_def boundary_def chunk_mask_def defaultMaskBits_def)
  then have cut: "cut_at 2 ''lol, and the rest of it'' = 3"
    using chunk_scan_cut [of "''lol, and the rest of it''" 64 2] by simp
  then have nxt: "next_chunk 2 64 ''lol, and the rest of it'' = ''lol''"
    by (simp add: next_chunk_def Let_def)
  have "ck_r \<lparr>ck_r = (r, e), ck_min = 2, ck_max = 64, ck_avg = 8, ck_window = []\<rparr> = (r, e)" for r :: bytes and e :: gerror
    by simp
  note nf = Next_file [OF _ this]
  show ?thesis
    using nxt by (simp add: nf file_chunks.simps)
qed

end
