(* ===== verification/SV_Snapshots.thy ===== *)
theory SV_Snapshots
  imports SV_Versioning SV_Chunker
begin

text \<open>
  \<open>internal/snapshots/snapshot.go\<close>: walking a directory, chunking and storing every regular
  file, and signing the resulting snapshot.

  The file system below the path is a value of type \<open>node\<close>; \<open>walk\<close> lists the visits
  \<open>filepath.Walk\<close> makes, in its order. The clock (\<open>time\<close>) is the record \<open>clock\<close>; a
  point in time is a number of nanoseconds. The backup loop of the code is shown equal to
  storing the chunks of \<open>file_chunks\<close> one after another, and from that what a snapshot
  contains and that its chunks can be read back.
\<close>

section \<open>The file system\<close>

text \<open>
  What \<open>Lstat\<close> and \<open>Open\<close> find at a path: a regular file with the result of opening it, a
  directory with the error of reading it or its entries, a file that is neither, or an error.
\<close>

datatype node =
    RegFile "gerror + os_file"
  | Directory "gerror option" "(string \<times> node) list"
  | Special
  | LstatError gerror

datatype visit = Visit_error gerror | Visit_file "gerror + os_file" | Visit_other

primrec walk :: "node \<Rightarrow> visit list" where
  "walk (RegFile opened) = [Visit_file opened]"
| "walk (Directory err es) =
     (case err of
        Some e \<Rightarrow> [Visit_error e]
      | None \<Rightarrow> Visit_other # concat (map snd (sort_key fst (map (map_prod id walk) es))))"
| "walk Special = [Visit_other]"
| "walk (LstatError e) = [Visit_error e]"

section \<open>The clock\<close>

record clock =
  rfc3339_format :: "int \<Rightarrow> string"
  rfc3339_parse :: "string \<Rightarrow> gerror + int"
  add_days :: "int \<Rightarrow> int \<Rightarrow> int"

definition second :: int where "second = 1000000000"

definition unix_seconds :: "int \<Rightarrow> int" where "unix_seconds t = t div second"

definition year_10000 :: int where "year_10000 = 253402300800 * second"

locale clock_laws =
  fixes T :: clock
  assumes parse_format: "0 \<le> t \<Longrightarrow> t < year_10000 \<Longrightarrow>
      rfc3339_parse T (rfc3339_format T t) = Inr (unix_seconds t * second)"
    and format_ascii: "0 \<le> t \<Longrightarrow> t < year_10000 \<Longrightarrow> ascii (rfc3339_format T t)"

section \<open>snapshot.go\<close>

lemma Next_consumes:
  assumes "Chunker_Next file_read c = (Ret (Inr chunk), c')" and "chunk \<noteq> []"
  shows "length (fst (ck_r c')) < length (fst (ck_r c))"
  using assms
  by (cases "ck_r c") (auto simp: Chunker_Next_def Let_def split: if_splits)

function chunk_loop :: "prims \<Rightarrow> 'd bolt \<Rightarrow> Store \<Rightarrow> os_file Chunker \<Rightarrow> string list \<Rightarrow> 'd world \<Rightarrow>
    (gerror + string list) outcome \<times> 'd world" where
  "chunk_loop P B s c chunkHashes w =
     (case Chunker_Next file_read c of
        (Panic m, _) \<Rightarrow> (Panic m, w)
      | (Ret (Inl err), _) \<Rightarrow> (if err = EOF then (Ret (Inr chunkHashes), w) else (Ret (Inl err), w))
      | (Ret (Inr chunk), c') \<Rightarrow>
          (case Store_PutChunk P B s chunk w of
             (Inl err, w') \<Rightarrow> (Ret (Inl err), w')
           | (Inr hash, w') \<Rightarrow>
               (if chunk = [] then (Ret (Inr (chunkHashes @ [hash])), w')
                else chunk_loop P B s c' (chunkHashes @ [hash]) w')))"
  by pat_completeness auto
termination
  by (relation "measure (\<lambda>(P, B, s, c, hs, w). length (fst (ck_r c)))") (auto intro: Next_consumes [OF sym])

declare chunk_loop.simps [simp del]

definition backup_file :: "prims \<Rightarrow> 'd bolt \<Rightarrow> Store \<Rightarrow> int \<Rightarrow> int \<Rightarrow> int \<Rightarrow> os_file \<Rightarrow> string list \<Rightarrow> 'd world \<Rightarrow>
    (gerror + string list) outcome \<times> 'd world" where
  "backup_file P B s mn mx avg f chunkHashes w =
     (case Chunker_New f mn mx avg of
        Panic m \<Rightarrow> (Panic m, w)
      | Ret ch \<Rightarrow> chunk_loop P B s ch chunkHashes w)"

fun walk_fn :: "prims \<Rightarrow> 'd bolt \<Rightarrow> Store \<Rightarrow> int \<Rightarrow> int \<Rightarrow> int \<Rightarrow> visit list \<Rightarrow> string list \<Rightarrow> 'd world \<Rightarrow>
    (gerror + string list) outcome \<times> 'd world" where
  "walk_fn P B s mn mx avg [] chunkHashes w = (Ret (Inr chunkHashes), w)"
| "walk_fn P B s mn mx avg (Visit_error e # vs) chunkHashes w = (Ret (Inl e), w)"
| "walk_fn P B s mn mx avg (Visit_other # vs) chunkHashes w = walk_fn P B s mn mx avg vs chunkHashes w"
| "walk_fn P B s mn mx avg (Visit_file (Inl e) # vs) chunkHashes w = (Ret (Inl e), w)"
| "walk_fn P B s mn mx avg (Visit_file (Inr f) # vs) chunkHashes w =
     (case backup_file P B s mn mx avg f chunkHashes w of
        (Panic m, w') \<Rightarrow> (Panic m, w')
      | (Ret (Inl e), w') \<Rightarrow> (Ret (Inl e), w')
      | (Ret (Inr hs), w') \<Rightarrow> walk_fn P B s mn mx avg vs hs w')"

definition snapWithoutSignature :: "Snapshot \<Rightarrow> Snapshot" where
  "snapWithoutSignature sn =
     \<lparr>ID = ID sn, Parent = Parent sn, Timestamp = Timestamp sn, Chunks = Chunks sn,
      Meta = Meta sn, SignerPub = SignerPub sn, Signature = []\<rparr>"

text \<open>
  \<open>time.Now()\<close> is called twice: \<open>t1\<close> for the ID, \<open>t2\<close> for the timestamp.
\<close>

definition new_snapshot :: "clock \<Rightarrow> string \<Rightarrow> bytes \<Rightarrow> string \<Rightarrow> int \<Rightarrow> int \<Rightarrow> string list \<Rightarrow> Snapshot" where
  "new_snapshot T path signerPub parent t1 t2 chunkHashes =
     \<lparr>ID = ''snap-'' @ itoa (unix_seconds t1), Parent = parent, Timestamp = rfc3339_format T t2,
      Chunks = chunkHashes, Meta = [(''source'', path)],
      SignerPub = base64_EncodeToString signerPub, Signature = []\<rparr>"

definition CreateSnapshot :: "prims \<Rightarrow> codec \<Rightarrow> clock \<Rightarrow> 'd bolt \<Rightarrow> string \<Rightarrow> node \<Rightarrow> Store \<Rightarrow> bytes \<Rightarrow> bytes \<Rightarrow>
    string \<Rightarrow> int \<Rightarrow> int \<Rightarrow> int \<Rightarrow> int \<Rightarrow> int \<Rightarrow> 'd world \<Rightarrow> (gerror + Snapshot) outcome \<times> 'd world" where
  "CreateSnapshot P C T B path root s signerPub signerPriv parent mn mx avg t1 t2 w =
     (case walk_fn P B s mn mx avg (walk root) [] w of
        (Panic m, w') \<Rightarrow> (Panic m, w')
      | (Ret (Inl err), w') \<Rightarrow> (Ret (Inl err), w')
      | (Ret (Inr chunkHashes), w') \<Rightarrow>
          (let snap = new_snapshot T path signerPub parent t1 t2 chunkHashes;
               raw = marshal_Snapshot C (snapWithoutSignature snap)
           in case Sign P raw signerPriv of
                Panic m \<Rightarrow> (Panic m, w')
              | Ret sig \<Rightarrow> (Ret (Inr (snap\<lparr>Signature := base64_EncodeToString sig\<rparr>)), w')))"

section \<open>The loop stores the chunks of the file in order\<close>

fun put_all :: "(bytes \<Rightarrow> 'w \<Rightarrow> (gerror + string) \<times> 'w) \<Rightarrow> bytes list \<Rightarrow> string list \<Rightarrow> 'w \<Rightarrow>
    (gerror + string list) \<times> 'w" where
  "put_all put [] hs w = (Inr hs, w)"
| "put_all put (m # ms) hs w =
     (case put m w of (Inl e, w') \<Rightarrow> (Inl e, w') | (Inr h, w') \<Rightarrow> put_all put ms (hs @ [h]) w')"

lemma put_all_append:
  "put_all put (ms @ ns) hs w =
     (case put_all put ms hs w of (Inl e, w') \<Rightarrow> (Inl e, w') | (Inr hs', w') \<Rightarrow> put_all put ns hs' w')"
  by (induction ms arbitrary: hs w) (auto split: prod.splits sum.splits)

lemma chunk_loop_put_all:
  assumes "0 < ck_max c" and "ck_r c = (rest, e)"
  shows "chunk_loop P B s c hs w =
    (case put_all (Store_PutChunk P B s) (file_chunks (ck_min c) (ck_max c) rest) hs w of
       (Inl err, w') \<Rightarrow> (Ret (Inl err), w')
     | (Inr hs', w') \<Rightarrow> (if e = EOF then (Ret (Inr hs'), w') else (Ret (Inl e), w')))"
  using assms
proof (induction P B s c hs w arbitrary: rest rule: chunk_loop.induct)
  case (1 P B s c hs w)
  note nxt = Next_file [OF "1.prems"]
  show ?case
  proof (cases "rest = []")
    case True
    then show ?thesis by (simp add: chunk_loop.simps [of P B s c] nxt file_chunks.simps)
  next
    case False
    let ?chunk = "next_chunk (ck_min c) (ck_max c) rest"
      and ?c' = "c\<lparr>ck_r := (drop (nat (ck_max c)) rest, e)\<rparr>"
    have ne: "?chunk \<noteq> []" by (rule next_chunk_nonempty [OF "1.prems"(1) False])
    have fc: "file_chunks (ck_min c) (ck_max c) rest =
        ?chunk # file_chunks (ck_min c) (ck_max c) (drop (nat (ck_max c)) rest)"
      using False "1.prems"(1) by (subst file_chunks.simps) simp
    show ?thesis
    proof (cases "Store_PutChunk P B s ?chunk w")
      case (Pair r w')
      show ?thesis
      proof (cases r)
        case (Inl err)
        with Pair False show ?thesis by (simp add: chunk_loop.simps [of P B s c] nxt fc)
      next
        case (Inr h)
        have "chunk_loop P B s ?c' (hs @ [h]) w' =
          (case put_all (Store_PutChunk P B s) (file_chunks (ck_min ?c') (ck_max ?c') (drop (nat (ck_max c)) rest)) (hs @ [h]) w' of
             (Inl err, w') \<Rightarrow> (Ret (Inl err), w')
           | (Inr hs', w') \<Rightarrow> (if e = EOF then (Ret (Inr hs'), w') else (Ret (Inl e), w')))"
          by (rule "1.IH" [OF _ refl refl Pair [symmetric] Inr ne]) (use False nxt "1.prems" in simp_all)
        with Pair Inr False ne show ?thesis by (simp add: chunk_loop.simps [of P B s c] nxt fc)
      qed
    qed
  qed
qed

text \<open>
  The chunks of everything a walk visits, and the visits that let it go on.
\<close>

fun visit_chunks :: "int \<Rightarrow> int \<Rightarrow> visit \<Rightarrow> bytes list" where
  "visit_chunks mn mx (Visit_file (Inr (data, _))) = file_chunks mn mx data"
| "visit_chunks mn mx _ = []"

definition tree_chunks :: "int \<Rightarrow> int \<Rightarrow> visit list \<Rightarrow> bytes list" where
  "tree_chunks mn mx vs = concat (map (visit_chunks mn mx) vs)"

fun readable :: "visit \<Rightarrow> bool" where
  "readable (Visit_error _) = False"
| "readable Visit_other = True"
| "readable (Visit_file (Inl _)) = False"
| "readable (Visit_file (Inr (_, e))) = (e = EOF)"

lemma backup_file_put_all:
  assumes "0 < mx"
  shows "backup_file P B s mn mx avg (data, e) hs w =
    (case put_all (Store_PutChunk P B s) (file_chunks mn mx data) hs w of
       (Inl err, w') \<Rightarrow> (Ret (Inl err), w')
     | (Inr hs', w') \<Rightarrow> (if e = EOF then (Ret (Inr hs'), w') else (Ret (Inl e), w')))"
  using assms by (simp add: backup_file_def Chunker_New_def chunk_loop_put_all)

lemma walk_fn_put_all:
  assumes "0 < mx" and "list_all readable vs"
  shows "walk_fn P B s mn mx avg vs hs w =
    (case put_all (Store_PutChunk P B s) (tree_chunks mn mx vs) hs w of (r, w') \<Rightarrow> (Ret r, w'))"
  using assms(2)
proof (induction vs arbitrary: hs w)
  case Nil
  then show ?case by (simp add: tree_chunks_def)
next
  case (Cons v vs)
  then show ?case
    by (cases "(mn, mx, v)" rule: visit_chunks.cases)
      (auto simp: tree_chunks_def backup_file_put_all [OF assms(1)] put_all_append split: prod.splits sum.splits)
qed

lemma walk_fn_unreadable:
  assumes "0 < mx" and "\<not> list_all readable vs"
  shows "\<exists>e w'. walk_fn P B s mn mx avg vs hs w = (Ret (Inl e), w')"
  using assms(2)
proof (induction vs arbitrary: hs w)
  case Nil
  then show ?case by simp
next
  case (Cons v vs)
  then show ?case
    by (cases "(mn, mx, v)" rule: visit_chunks.cases)
      (auto simp: backup_file_put_all [OF assms(1)] split: prod.splits sum.splits)
qed

context encrypted_store
begin

lemma put_all_keeps:
  assumes "inv w" and "put_all putchunk_op ms hs w = (r, w')"
  shows "inv w' \<and> frame w' = frame w \<and> (content_ok w \<longrightarrow> content_ok w') \<and>
    blocks w \<subseteq>\<^sub>m blocks w' \<and> plain w \<subseteq>\<^sub>m plain w' \<and> ran (plain w') \<subseteq> ran (plain w) \<union> set ms"
  using assms
proof (induction ms arbitrary: hs w)
  case Nil
  then show ?case by (simp add: map_le_def)
next
  case (Cons m ms)
  obtain r1 w1 where put: "putchunk_op m w = (r1, w1)" by fastforce
  have ok1: "content_ok w \<longrightarrow> content_ok w1"
    using content_ok_putchunk [OF Cons.prems(1) _ put] by blast
  show ?case
  proof (cases r1)
    case (Inl e)
    with put Cons.prems have "w1 = w'" by simp
    with putchunk_err [OF Cons.prems(1) put [unfolded Inl]] ok1 show ?thesis by auto
  next
    case (Inr h)
    note law = putchunk_law [OF Cons.prems(1) put [unfolded Inr]]
    have "put_all putchunk_op ms (hs @ [h]) w1 = (r, w')" using Cons.prems(2) put Inr by simp
    note IH = Cons.IH [OF _ this]
    have "blocks w \<subseteq>\<^sub>m blocks w1 \<and> plain w \<subseteq>\<^sub>m plain w1 \<and> ran (plain w1) \<subseteq> insert m (ran (plain w))"
    proof (cases "blocks w h = None")
      case True
      with plain_dom have "plain w h = None" by blast
      with True law show ?thesis by (auto simp: map_le_def ran_def)
    next
      case False
      with law show ?thesis by auto
    qed
    with IH law ok1 show ?thesis by (auto intro: map_le_trans)
  qed
qed

lemma put_all_names:
  assumes "inv w" and "put_all putchunk_op ms hs w = (Inr hs', w')"
  shows "hs' = hs @ map digest ms \<and> (\<forall>m \<in> set ms. blocks w' (digest m) \<noteq> None)"
  using assms
proof (induction ms arbitrary: hs w)
  case Nil
  then show ?case by simp
next
  case (Cons m ms)
  from Cons.prems(2) obtain h w1 where put: "putchunk_op m w = (Inr h, w1)"
    and rest: "put_all putchunk_op ms (hs @ [h]) w1 = (Inr hs', w')"
    by (auto split: prod.splits sum.splits)
  note law = putchunk_law [OF Cons.prems(1) put]
  from law have "blocks w1 h \<noteq> None" by (auto split: if_splits)
  moreover have "blocks w1 \<subseteq>\<^sub>m blocks w'" using put_all_keeps [OF _ rest] law by blast
  ultimately have "blocks w' h \<noteq> None" by (metis domIff map_le_def)
  with Cons.IH [OF _ rest] law show ?case by simp
qed

lemma put_all_retrievable:
  assumes "inv w" and "content_ok w" and "put_all putchunk_op ms hs w = (Inr hs', w')"
    and "inj_on digest (ran (plain w) \<union> set ms)" and "m \<in> set ms"
  shows "getchunk_op (digest m) w' = Ret (Inr m)"
proof -
  note all = put_all_keeps [OF assms(1,3)]
  from put_all_names [OF assms(1,3)] assms(5) have "blocks w' (digest m) \<noteq> None" by blast
  with all assms(2) obtain m' where m': "plain w' (digest m) = Some m'" "digest m' = digest m"
    by (auto simp: content_ok_def)
  then have "m' \<in> ran (plain w) \<union> set ms" using all by (auto simp: ran_def)
  with m' assms(4,5) have "m' = m" by (auto dest: inj_onD)
  with m' all show ?thesis by (simp add: getchunk_Inr)
qed

end

lemma file_chunks_max: "m \<in> set (file_chunks mn mx data) \<Longrightarrow> length m \<le> nat mx"
proof (induction mn mx data rule: file_chunks.induct)
  case (1 mn mx data)
  have "length (next_chunk mn mx data) \<le> nat mx"
    unfolding next_chunk_length using cut_at_le [of mn "take (nat mx) data"] by simp
  moreover have "\<not> (data = [] \<or> mx \<le> 0)"
    using "1.prems" by (subst (asm) file_chunks.simps) (auto split: if_splits)
  moreover from this have "m = next_chunk mn mx data \<or> m \<in> set (file_chunks mn mx (drop (nat mx) data))"
    using "1.prems" by (subst (asm) file_chunks.simps) simp
  ultimately show ?case using "1.IH" by metis
qed

section \<open>What a snapshot holds\<close>

text \<open>
  Every stored block decrypts to data it is named after: the content invariant of the store.
\<close>

definition blocks_named :: "prims \<Rightarrow> 'd bolt \<Rightarrow> Store \<Rightarrow> 'd world \<Rightarrow> bool" where
  "blocks_named P B s w \<longleftrightarrow>
     (\<forall>h. Blocks B w h \<noteq> None \<longrightarrow> (\<exists>m. Plain P B s w h = Some m \<and> hash_str P m = h))"

lemma CreateSnapshot_Ret:
  assumes "0 < mx"
    and "CreateSnapshot P C T B path root s signerPub signerPriv parent mn mx avg t1 t2 w = (Ret (Inr sn), w')"
  obtains hs sig where "list_all readable (walk root)"
    and "put_all (Store_PutChunk P B s) (tree_chunks mn mx (walk root)) [] w = (Inr hs, w')"
    and "Sign P (marshal_Snapshot C (new_snapshot T path signerPub parent t1 t2 hs)) signerPriv = Ret sig"
    and "sn = (new_snapshot T path signerPub parent t1 t2 hs)\<lparr>Signature := base64_EncodeToString sig\<rparr>"
proof -
  have rd: "list_all readable (walk root)"
  proof (rule ccontr)
    assume "\<not> list_all readable (walk root)"
    from walk_fn_unreadable [OF assms(1) this] obtain e w1
      where "walk_fn P B s mn mx avg (walk root) [] w = (Ret (Inl e), w1)" by blast
    with assms(2) show False by (simp add: CreateSnapshot_def)
  qed
  have "snapWithoutSignature (new_snapshot T path signerPub parent t1 t2 hs) =
      new_snapshot T path signerPub parent t1 t2 hs" for hs
    by (simp add: snapWithoutSignature_def new_snapshot_def)
  with assms(2) rd that show ?thesis
    by (auto simp: CreateSnapshot_def walk_fn_put_all [OF assms(1) rd] Let_def
        split: prod.splits sum.splits outcome.splits)
qed

lemma CreateSnapshot_ID:
  assumes "0 < mx"
    and "CreateSnapshot P C T B path root s signerPub signerPriv parent mn mx avg t1 t2 w = (Ret (Inr sn), w')"
  shows "ID sn = ''snap-'' @ itoa (unix_seconds t1)"
  by (rule CreateSnapshot_Ret [OF assms]) (simp add: new_snapshot_def)

context store_env
begin

lemma content_ok_blocks_named: "enc.content_ok w = blocks_named P B s w"
  by (simp add: enc.content_ok_def blocks_named_def)

lemma snapshot_chunks:
  assumes "world_ready B w" and "blocks_named P B s w" and "0 < mx"
    and "CreateSnapshot P C T B path root s signerPub signerPriv parent mn mx avg t1 t2 w = (Ret (Inr sn), w')"
    and "inj_on (hash_str P) (ran (Plain P B s w) \<union> set (tree_chunks mn mx (walk root)))"
  shows "list_all readable (walk root) \<and>
    Chunks sn = map (hash_str P) (tree_chunks mn mx (walk root)) \<and>
    (\<forall>m \<in> set (tree_chunks mn mx (walk root)). Store_GetChunk P B s (hash_str P m) w' = Ret (Inr m)) \<and>
    world_ready B w' \<and> blocks_named P B s w' \<and> other_buckets B w' = other_buckets B w"
proof -
  obtain hs sig where rd: "list_all readable (walk root)"
    and put: "put_all (Store_PutChunk P B s) (tree_chunks mn mx (walk root)) [] w = (Inr hs, w')"
    and sn: "sn = (new_snapshot T path signerPub parent t1 t2 hs)\<lparr>Signature := base64_EncodeToString sig\<rparr>"
    by (rule CreateSnapshot_Ret [OF assms(3,4)])
  note ok = assms(1) assms(2) [folded content_ok_blocks_named]
  have "Chunks sn = map (hash_str P) (tree_chunks mn mx (walk root))"
    using sn enc.put_all_names [OF assms(1) put] by (simp add: new_snapshot_def)
  then show ?thesis
    using rd ok enc.put_all_keeps [OF assms(1) put] enc.put_all_retrievable [OF ok put assms(5)]
    by (simp add: content_ok_blocks_named)
qed

text \<open>An error or a panic on the way leaves everything that was stored as it was.\<close>

lemma snapshot_keeps_blocks:
  assumes "world_ready B w" and "0 < mx" and "list_all readable (walk root)"
    and "CreateSnapshot P C T B path root s signerPub signerPriv parent mn mx avg t1 t2 w = (r, w')"
  shows "world_ready B w' \<and> Blocks B w \<subseteq>\<^sub>m Blocks B w' \<and> other_buckets B w' = other_buckets B w"
proof -
  obtain r1 where "put_all (Store_PutChunk P B s) (tree_chunks mn mx (walk root)) [] w = (r1, w')"
    using assms(4)
    by (auto simp: CreateSnapshot_def walk_fn_put_all [OF assms(2,3)] Let_def
        split: prod.splits sum.splits outcome.splits)
  from enc.put_all_keeps [OF assms(1) this] show ?thesis by blast
qed

text \<open>
  A block written by \<open>PutChunk\<close> is a nonce followed by a ciphertext; unless SHA-256 collides
  on it and its plaintext, the stored bytes do not hash to the name of the block.
\<close>

lemma stored_hash_differs:
  assumes "blocks_named P B s w" and "inj_on (hash_str P) (ran (Plain P B s w) \<union> ran (Blocks B w))"
    and "Blocks B w h = Some v"
  shows "hash_str P v \<noteq> h"
proof
  assume v: "hash_str P v = h"
  from assms(1,3) obtain m where m: "Plain P B s w h = Some m" "hash_str P m = h"
    by (auto simp: blocks_named_def)
  have "v \<in> ran (Blocks B w)" "m \<in> ran (Plain P B s w)" using assms(3) m by (auto simp: ran_def)
  with assms(2) v m(2) have "v = m" by (metis UnCI inj_onD)
  moreover have "gcm_open P (baseKey s) (take 12 v) (drop 12 v) = Some m" "12 \<le> length v"
    using m(1) assms(3) by (auto simp: Plain_def split: if_splits)
  then have "length v = length m + 28" using crypto.gcm_open_length by fastforce
  ultimately show False by simp
qed

end

lemma snapshot_signature:
  assumes "crypto_prims P" and "ed_generate P r = Some (signerPub, signerPriv)" and "0 < mx"
    and "CreateSnapshot P C T B path root s signerPub signerPriv parent mn mx avg t1 t2 w = (Ret (Inr sn), w')"
  shows "\<exists>pub sig. base64_DecodeString (SignerPub sn) = Some pub \<and>
    base64_DecodeString (Signature sn) = Some sig \<and>
    Verify P (marshal_Snapshot C (snapWithoutSignature sn)) sig pub = Ret True"
proof -
  obtain hs sig where
    sig: "Sign P (marshal_Snapshot C (new_snapshot T path signerPub parent t1 t2 hs)) signerPriv = Ret sig"
    and sn: "sn = (new_snapshot T path signerPub parent t1 t2 hs)\<lparr>Signature := base64_EncodeToString sig\<rparr>"
    by (rule CreateSnapshot_Ret [OF assms(3,4)])
  have "snapWithoutSignature sn = new_snapshot T path signerPub parent t1 t2 hs"
    by (simp add: sn snapWithoutSignature_def new_snapshot_def)
  with sig sn crypto_prims.ed_keypair [OF assms(1,2)] show ?thesis
    by (auto simp: Verify_def Sign_def size_defs new_snapshot_def)
qed

section \<open>A created snapshot can be saved\<close>

lemma ascii_append [simp]: "ascii (a @ b) \<longleftrightarrow> ascii a \<and> ascii b"
  by (simp add: ascii_def)

lemma ascii_Cons [simp]: "ascii (c # s) \<longleftrightarrow> byte_val c < 128 \<and> ascii s"
  by (simp add: ascii_def)

lemma ascii_Nil [simp]: "ascii []"
  by (simp add: ascii_def)

lemma ascii_hex [simp]: "ascii (hex_EncodeToString bs)"
proof (induction bs)
  case (Cons b bs)
  have "list_all (\<lambda>c. byte_val c < 128) hex_alphabet" by (simp add: hex_alphabet_def byte_val_def)
  with Cons show ?case
    using byte_val_less [of b] by (simp add: hex_byte_def less_mult_imp_div_less list_all_length)
qed simp

lemma ascii_b64_char: "n < 64 \<Longrightarrow> byte_val (b64_char n) < 128"
proof -
  assume "n < 64"
  moreover have "list_all (\<lambda>c. byte_val c < 128) b64_alphabet" by (simp add: b64_alphabet_def byte_val_def)
  moreover have "length b64_alphabet = 64" by (simp add: b64_alphabet_def)
  ultimately show ?thesis by (simp add: b64_char_def list_all_length)
qed

lemma b64_indices:
  "byte_val x div 4 < 64" "byte_val x mod 4 * 16 < 64"
  "byte_val x mod 4 * 16 + byte_val y div 16 < 64" "byte_val x mod 16 * 4 < 64"
  "byte_val x mod 16 * 4 + byte_val y div 64 < 64"
proof -
  have "byte_val x div 4 < 64" "byte_val y div 16 < 16" "byte_val y div 64 < 4"
    using byte_val_less [of x] byte_val_less [of y] by (simp_all add: less_mult_imp_div_less)
  moreover have "byte_val x mod 4 < 4" "byte_val x mod 16 < 16" by simp_all
  ultimately show "byte_val x div 4 < 64" "byte_val x mod 4 * 16 < 64"
    "byte_val x mod 4 * 16 + byte_val y div 16 < 64" "byte_val x mod 16 * 4 < 64"
    "byte_val x mod 16 * 4 + byte_val y div 64 < 64" by linarith+
qed

lemma ascii_base64 [simp]: "ascii (base64_EncodeToString bs)"
  by (induction bs rule: base64_EncodeToString.induct)
    (simp_all add: Let_def ascii_b64_char b64_indices, simp_all add: byte_val_def)

lemma ascii_decimal [simp]: "ascii (decimal n)"
proof (induction n rule: decimal.induct)
  case (1 n)
  have "byte_val (char_of (48 + k)) < 128" if "k < 10" for k :: nat
    using that by (simp add: byte_val_def)
  with 1 show ?case by (cases "n < 10") (subst decimal.simps, simp)+
qed

lemma ascii_itoa [simp]: "ascii (itoa i)"
  by (simp add: itoa_def byte_val_def)

context store_env
begin

lemma created_ascii:
  assumes "clock_laws T" and "0 \<le> t2" and "t2 < year_10000" and "ascii path" and "ascii parent" and "0 < mx" and "world_ready B w"
    and "CreateSnapshot P C T B path root s signerPub signerPriv parent mn mx avg t1 t2 w = (Ret (Inr sn), w')"
  shows "ascii_snapshot sn"
proof -
  obtain hs sig where
    put: "put_all (Store_PutChunk P B s) (tree_chunks mn mx (walk root)) [] w = (Inr hs, w')"
    and sn: "sn = (new_snapshot T path signerPub parent t1 t2 hs)\<lparr>Signature := base64_EncodeToString sig\<rparr>"
    by (rule CreateSnapshot_Ret [OF assms(6,8)])
  have "hs = map (hash_str P) (tree_chunks mn mx (walk root))"
    using enc.put_all_names [OF assms(7) put] by simp
  then have "list_all ascii hs" by (simp add: list_all_iff)
  with sn assms(1-5) show ?thesis
    by (simp add: ascii_snapshot_def new_snapshot_def clock_laws.format_ascii byte_val_def)
qed

text \<open>
  The backup succeeds when the machine lets it: every visit readable, randomness available,
  commits that succeed and a chunk size below the database's value limit.
\<close>

lemma put_all_total:
  assumes "world_ready B w" and "\<And>i. rand_read P i 12 \<noteq> None" and "\<And>d. \<exists>d'. tx_commit B d = Inr d'"
    and "list_all (\<lambda>m. length m \<le> 2147483618) ms"
  shows "\<exists>hs' w'. put_all (Store_PutChunk P B s) ms hs w = (Inr hs', w')"
  using assms(1,4)
proof (induction ms arbitrary: hs w)
  case (Cons m ms)
  obtain w1 where w1: "Store_PutChunk P B s m w = (Inr (hash_str P m), w1)"
    using PutChunk_ok [OF Cons.prems(1) assms(2) _ assms(3)] Cons.prems(2) by auto
  with PutChunk_success [OF Cons.prems(1) w1] Cons show ?case by simp
qed simp

lemma snapshot_total:
  assumes "world_ready B w" and "\<And>i. rand_read P i 12 \<noteq> None" and "\<And>d. \<exists>d'. tx_commit B d = Inr d'"
    and "0 < mx" and "mx \<le> 2147483618" and "list_all readable (walk root)" and "length signerPriv = 64"
  shows "\<exists>sn w'. CreateSnapshot P C T B path root s signerPub signerPriv parent mn mx avg t1 t2 w = (Ret (Inr sn), w')"
proof -
  have "list_all (\<lambda>m. length m \<le> 2147483618) (tree_chunks mn mx vs)" for vs
  proof -
    have "length m \<le> nat mx" if "m \<in> set (file_chunks mn mx data)" for m data
      using that by (rule file_chunks_max)
    then have "length m \<le> 2147483618" if "m \<in> set (file_chunks mn mx data)" for m data
      using that assms(5) by fastforce
    then have "list_all (\<lambda>m. length m \<le> 2147483618) (visit_chunks mn mx v)" for v
      by (cases "(mn, mx, v)" rule: visit_chunks.cases) (simp_all add: list_all_iff)
    then show ?thesis by (simp add: tree_chunks_def list_all_iff)
  qed
  from put_all_total [OF assms(1-3) this] obtain hs w' where
    "put_all (Store_PutChunk P B s) (tree_chunks mn mx (walk root)) [] w = (Inr hs, w')" by blast
  with assms(7) show ?thesis
    by (simp add: CreateSnapshot_def walk_fn_put_all [OF assms(4,6)] Sign_def size_defs Let_def)
qed

end

section \<open>A concrete backup\<close>

text \<open>
  A clock for the witnesses, which writes a time as its decimal number of seconds.
\<close>

definition ref_clock :: clock where
  "ref_clock = \<lparr>
     rfc3339_format = (\<lambda>t. decimal (nat (unix_seconds t))),
     rfc3339_parse = (\<lambda>s. if s = decimal (undecimal s) then Inr (int (undecimal s) * second)
                          else Inl (ErrorString ''parsing time'')),
     add_days = (\<lambda>t n. t + n * 86400 * second)\<rparr>"

interpretation ref_clock: clock_laws ref_clock
  by unfold_locales (simp_all add: ref_clock_def unix_seconds_def second_def undecimal_decimal pos_imp_zdiv_nonneg_iff)

definition wit_tree :: node where
  "wit_tree = Directory None [(''b.txt'', RegFile (Inr (''world'', EOF))), (''a.txt'', RegFile (Inr (''hello'', EOF)))]"

definition wit_pub :: bytes where "wit_pub = replicate 32 (byte_of 0)"
definition wit_priv :: bytes where "wit_priv = replicate 32 (byte_of 0) @ replicate 32 (CHR 0x00)"

lemma wit_keys: "ed_generate ref_prims 0 = Some (wit_pub, wit_priv)"
  by (simp add: ref_prims_def wit_pub_def wit_priv_def)

lemma small_file_chunks:
  assumes "data \<noteq> []" and "int (length data) \<le> mn" and "mn \<le> mx"
  shows "file_chunks mn mx data = [data]"
proof -
  from assms(2,3) have "length data \<le> nat mx" by linarith
  then have take: "take (nat mx) data = data" and drop: "drop (nat mx) data = []" by simp_all
  have "cut_at mn data = length data"
    unfolding cut_at_whole_iff using assms(2) by (auto simp: is_boundary_def)
  with take have "next_chunk mn mx data = data" by (simp add: next_chunk_def)
  moreover have "0 < mx" using assms by (cases data) auto
  ultimately show ?thesis
    using assms(1) drop by (subst file_chunks.simps) (simp add: file_chunks.simps)
qed

lemma wit_walk: "walk wit_tree = [Visit_other, Visit_file (Inr (''hello'', EOF)), Visit_file (Inr (''world'', EOF))]"
  by (simp add: wit_tree_def)

lemma wit_chunks: "tree_chunks 16 64 (walk wit_tree) = [''hello'', ''world'']"
  by (simp add: wit_walk tree_chunks_def small_file_chunks)

lemma wit_readable: "list_all readable (walk wit_tree)"
  by (simp add: wit_walk)

lemma wit_named: "blocks_named ref_prims mem_bolt wit_store wit_world"
  by (simp add: blocks_named_def wit_fresh)

lemma wit_no_plain: "ran (Plain ref_prims mem_bolt wit_store wit_world) = {}"
  by (simp add: ran_def Plain_def wit_fresh)

lemma ref_hash_differs: "Hash ref_prims ''hello'' \<noteq> Hash ref_prims ''world''"
  by (simp add: ref_prims_def Hash_def ref_sha256_def)

abbreviation wit_backup :: "int \<Rightarrow> (gerror + Snapshot) outcome \<times> mem_db world" where
  "wit_backup t \<equiv> CreateSnapshot ref_prims ref_codec ref_clock mem_bolt ''/data'' wit_tree wit_store
     wit_pub wit_priv [] 16 64 32 t t wit_world"

lemma wit_backup_ok:
  obtains sn w' where "wit_backup t = (Ret (Inr sn), w')"
  using wit.snapshot_total [OF wit_ready ref_rand mem_commits, of 64 wit_tree wit_priv ref_codec ref_clock
      "''/data''" wit_pub "[]" 16 32 t t] wit_readable
  by (auto simp: wit_priv_def)

text \<open>A database with one chunk, and a snapshot that refers to it.\<close>

lemma wit_good:
  obtains w sn where "world_ready mem_bolt w" and "LoadSnapshot ref_codec mem_bolt w ''snap-1'' = Inr sn"
    and "Chunks sn = [hash_str ref_prims ''hello'']" and "Store_Exists mem_bolt w (hash_str ref_prims ''hello'')"
    and "blocks_named ref_prims mem_bolt wit_store w"
    and "inj_on (hash_str ref_prims) (ran (Plain ref_prims mem_bolt wit_store w) \<union> ran (Blocks mem_bolt w))"
proof -
  let ?h = "hash_str ref_prims ''hello''" and ?k = "baseKey wit_store" and ?n = "replicate 12 (CHR 0x00)"
  let ?v = "?n @ gcm_seal ref_prims ?k ?n ''hello''"
  obtain w1 where put: "Store_PutChunk ref_prims mem_bolt wit_store ''hello'' wit_world = (Inr ?h, w1)"
    by (rule wit_put [of "''hello''"]) simp
  note eff = wit.PutChunk_success [OF wit_ready put]
  have rnd: "rand_read ref_prims (wrng wit_world) 12 = Some ?n"
    by (simp add: ref_prims_def wit_world_def byte_of_def char_of_def)
  have b1: "Blocks mem_bolt w1 = [?h \<mapsto> ?v]"
    using eff rnd wit_fresh by (auto simp: PutChunk_effect_def fun_eq_iff)
  have o1: "other_buckets mem_bolt w1 = other_buckets mem_bolt wit_world"
    using wit.enc.putchunk_law [OF wit_ready put] by blast
  then have ok1: "snaps_ok ref_codec mem_bolt w1"
    using snaps_other_buckets [OF wit_snaps_ok _ o1] eff by blast
  define sn where "sn = wit_snapshot\<lparr>Chunks := [?h]\<rparr>"
  have asc: "ascii_snapshot sn"
    using wit_snapshot_ascii by (simp add: ascii_snapshot_def sn_def)
  have rdy1: "world_ready mem_bolt w1" using eff by blast
  obtain w2 where save: "SaveSnapshot ref_codec mem_bolt w1 sn = (None, w2)"
    by (rule mem_save_ok [OF rdy1, of sn ref_codec]) (simp_all add: sn_def wit_snapshot_def)
  note law = wit_versions.save_then_load [OF ok1 asc save]
  have b2: "Blocks mem_bolt w2 = [?h \<mapsto> ?v]"
    using law b1 blocks_non_snapshots [of mem_bolt w2 w1] by simp
  have p2: "Plain ref_prims mem_bolt wit_store w2 = [?h \<mapsto> ''hello'']"
    using ref.gcm_open_seal [OF wit.key_ok, of ?n "''hello''"] by (simp add: fun_eq_iff Plain_def b2)
  have r2: "world_ready mem_bolt w2" using law by (simp add: snaps_ok_def)
  have nth: "Hash ref_prims (c # m) ! 1 = c" for c m
    by (simp add: Hash_def ref_prims_def ref_sha256_def)
  have "?n = CHR 0x00 # replicate 11 (CHR 0x00)" by (simp add: numeral_eq_Suc)
  then have "Hash ref_prims ?v ! 1 = CHR 0x00" by (simp only: append_Cons nth)
  then have "Hash ref_prims ''hello'' \<noteq> Hash ref_prims ?v" using nth [of "CHR ''h''" "''ello''"] by auto
  then have inj: "inj_on (hash_str ref_prims) (ran (Plain ref_prims mem_bolt wit_store w2) \<union> ran (Blocks mem_bolt w2))"
    unfolding p2 b2 by (auto simp: inj_on_def)
  have nm: "blocks_named ref_prims mem_bolt wit_store w2" by (simp add: blocks_named_def p2 b2)
  have "LoadSnapshot ref_codec mem_bolt w2 ''snap-1'' = Inr sn" using law by (simp add: sn_def wit_snapshot_def)
  moreover have "Store_Exists mem_bolt w2 ?h" using b2 by (simp add: mem.store.exists_law [OF r2])
  ultimately show ?thesis using that [OF r2 _ _ _ nm inj, of sn] by (simp add: sn_def)
qed

section \<open>Properties\<close>

text \<open>
  C2. What a successful backup holds: \<open>CreateSnapshot\<close> returns a snapshot only if the whole tree
  could be read; its \<open>Chunks\<close> are the digests of the chunks of every regular file in walk
  order, each of them reads back through \<open>GetChunk\<close> as exactly the chunk of the file, every
  block is still named by its contents, and no bucket other than the blocks changed. The digests of the chunks
  and of the data stored before are assumed to be distinct for distinct data.
\<close>

theorem CreateSnapshot_restorable:
  assumes "store_env B P s" and "world_ready B w" and "blocks_named P B s w" and "0 < mx"
    and "CreateSnapshot P C T B path root s signerPub signerPriv parent mn mx avg t1 t2 w = (Ret (Inr sn), w')"
    and "inj_on (hash_str P) (ran (Plain P B s w) \<union> set (tree_chunks mn mx (walk root)))"
  shows "list_all readable (walk root) \<and>
    Chunks sn = map (hash_str P) (tree_chunks mn mx (walk root)) \<and>
    (\<forall>m \<in> set (tree_chunks mn mx (walk root)). Store_GetChunk P B s (hash_str P m) w' = Ret (Inr m)) \<and>
    world_ready B w' \<and> blocks_named P B s w' \<and> other_buckets B w' = other_buckets B w"
  using store_env.snapshot_chunks [OF assms] .

theorem CreateSnapshot_restorable_witness:
  "\<exists>sn w'. wit_backup 0 = (Ret (Inr sn), w') \<and>
     Chunks sn = [hash_str ref_prims ''hello'', hash_str ref_prims ''world''] \<and>
     Store_GetChunk ref_prims mem_bolt wit_store (hash_str ref_prims ''world'') w' = Ret (Inr ''world'')"
proof -
  obtain sn w' where b: "wit_backup 0 = (Ret (Inr sn), w')" by (rule wit_backup_ok)
  with CreateSnapshot_restorable [OF wit.store_env_axioms wit_ready wit_named _ b]
  show ?thesis by (auto simp: wit_chunks wit_no_plain ref_hash_differs)
qed

text \<open>
  C14. The signature of a snapshot: the two key fields of a created snapshot decode, and
  \<open>Verify\<close> accepts the signature over the serialisation of the snapshot without its signature,
  for any key pair \<open>ed25519.GenerateKey\<close> produced.
\<close>

theorem CreateSnapshot_signature:
  assumes "crypto_prims P" and "ed_generate P r = Some (signerPub, signerPriv)" and "0 < mx"
    and "CreateSnapshot P C T B path root s signerPub signerPriv parent mn mx avg t1 t2 w = (Ret (Inr sn), w')"
  shows "\<exists>pub sig. base64_DecodeString (SignerPub sn) = Some pub \<and>
    base64_DecodeString (Signature sn) = Some sig \<and>
    Verify P (marshal_Snapshot C (snapWithoutSignature sn)) sig pub = Ret True"
  using snapshot_signature [OF assms] .

theorem CreateSnapshot_signature_witness:
  "\<exists>sn w' pub sig. wit_backup 7 = (Ret (Inr sn), w') \<and> base64_DecodeString (SignerPub sn) = Some pub \<and>
     base64_DecodeString (Signature sn) = Some sig \<and>
     Verify ref_prims (marshal_Snapshot ref_codec (snapWithoutSignature sn)) sig pub = Ret True"
proof -
  obtain sn w' where b: "wit_backup 7 = (Ret (Inr sn), w')" by (rule wit_backup_ok)
  with CreateSnapshot_signature [OF ref.crypto_prims_axioms wit_keys _ b] show ?thesis by auto
qed

text \<open>
  C11. A backup goes through: with every visited file readable, randomness available, commits that
  succeed, a maximal chunk size within the database's value limit and a private key of the right size,
  \<open>CreateSnapshot\<close> returns a snapshot; it neither fails nor panics nor loops.
\<close>

theorem CreateSnapshot_total:
  assumes "store_env B P s" and "world_ready B w" and "\<And>i. rand_read P i 12 \<noteq> None"
    and "\<And>d. \<exists>d'. tx_commit B d = Inr d'"
    and "0 < mx" and "mx \<le> 2147483618" and "list_all readable (walk root)" and "length signerPriv = 64"
  shows "\<exists>sn w'. CreateSnapshot P C T B path root s signerPub signerPriv parent mn mx avg t1 t2 w = (Ret (Inr sn), w')"
  using store_env.snapshot_total [OF assms] .

theorem CreateSnapshot_total_witness:
  "\<exists>sn w'. CreateSnapshot ref_prims ref_codec ref_clock mem_bolt ''/data'' wit_tree wit_store
     wit_pub wit_priv [] 16 64 32 3 4 wit_world = (Ret (Inr sn), w')"
  by (rule CreateSnapshot_total [OF wit.store_env_axioms wit_ready ref_rand mem_commits])
    (simp_all add: wit_readable wit_priv_def)

text \<open>
  Snapshot IDs have the resolution of a second: two backups have the same ID exactly when
  they were made within the same second, and then saving the second one replaces the first, which
  no longer loads. Between different seconds both stay loadable.
\<close>

theorem same_second_overwrites:
  assumes "version_env B C" and "snaps_ok C B w" and "0 < mx"
    and "CreateSnapshot P C T B' path1 root1 s pub1 priv1 parent1 mn mx avg t1 u1 v1 = (Ret (Inr sn1), v1')"
    and "CreateSnapshot P C T B' path2 root2 s pub2 priv2 parent2 mn mx avg t2 u2 v2 = (Ret (Inr sn2), v2')"
    and "ascii_snapshot sn1" and "ascii_snapshot sn2"
    and "SaveSnapshot C B w sn1 = (None, w1)" and "SaveSnapshot C B w1 sn2 = (None, w2)"
  shows "LoadSnapshot C B w2 (ID sn1) = Inr (if unix_seconds t1 = unix_seconds t2 then sn2 else sn1)"
proof -
  have "ID sn1 = ID sn2 \<longleftrightarrow> unix_seconds t1 = unix_seconds t2"
    by (simp add: CreateSnapshot_ID [OF assms(3,4)] CreateSnapshot_ID [OF assms(3,5)])
  with version_env.save_then_load [OF assms(1,2,6,8)] version_env.save_then_load [OF assms(1) _ assms(7,9)]
  show ?thesis by auto
qed

theorem same_second_overwrites_witness:
  "\<exists>sn1 sn2 v1 v2 w1 w2. wit_backup 1 = (Ret (Inr sn1), v1) \<and> wit_backup 2 = (Ret (Inr sn2), v2) \<and>
     SaveSnapshot ref_codec mem_bolt wit_world sn1 = (None, w1) \<and>
     SaveSnapshot ref_codec mem_bolt w1 sn2 = (None, w2) \<and>
     LoadSnapshot ref_codec mem_bolt w2 (ID sn1) = Inr sn2"
proof -
  obtain sn1 v1 where b1: "wit_backup 1 = (Ret (Inr sn1), v1)" by (rule wit_backup_ok)
  obtain sn2 v2 where b2: "wit_backup 2 = (Ret (Inr sn2), v2)" by (rule wit_backup_ok)
  have a1: "ascii_snapshot sn1"
    by (rule wit.created_ascii [OF ref_clock.clock_laws_axioms _ _ _ _ _ wit_ready b1])
      (simp_all add: year_10000_def second_def byte_val_def)
  have a2: "ascii_snapshot sn2"
    by (rule wit.created_ascii [OF ref_clock.clock_laws_axioms _ _ _ _ _ wit_ready b2])
      (simp_all add: year_10000_def second_def byte_val_def)
  have ids: "ID sn1 \<noteq> []" "ID sn2 \<noteq> []"
    using CreateSnapshot_ID [OF _ b1] CreateSnapshot_ID [OF _ b2] by simp_all
  obtain w1 where w1: "SaveSnapshot ref_codec mem_bolt wit_world sn1 = (None, w1)"
    by (rule mem_save_ok [OF wit_ready ids(1)])
  have "world_ready mem_bolt w1"
    using wit_versions.save_then_load [OF wit_snaps_ok a1 w1] by (simp add: snaps_ok_def)
  then obtain w2 where w2: "SaveSnapshot ref_codec mem_bolt w1 sn2 = (None, w2)"
    by (rule mem_save_ok [OF _ ids(2)])
  have "LoadSnapshot ref_codec mem_bolt w2 (ID sn1) = Inr sn2"
    using same_second_overwrites [OF wit_versions.version_env_axioms wit_snaps_ok _ b1 b2 a1 a2 w1 w2]
    by (simp add: unix_seconds_def second_def)
  with b1 b2 w1 w2 show ?thesis by blast
qed

end
