(* ===== verification/SV_Verifier.thy ===== *)
theory SV_Verifier
  imports SV_Snapshots
begin

text \<open>
  \<open>internal/verification/verifier.go\<close>: checking the chunks of a snapshot, and repairing it.

  The database and the store are those of \<open>SV_Versioning\<close> and \<open>SV_Store\<close>; the
  function \<open>RepairSnapshot\<close> fetches with is an argument that may change the world. The
  theory shows what a report counts, when it reports success, and that the hash comparison of
  \<open>verifyChunk\<close> is made on the stored bytes, which are a nonce and a ciphertext, while the name of
  a chunk is the hash of the plaintext.
\<close>

section \<open>verifier.go\<close>

record VerificationResult =
  SnapshotID :: string
  TotalChunks :: nat
  VerifiedChunks :: nat
  MissingChunks :: "string list"
  CorruptedChunks :: "string list"
  SignatureValid :: bool
  Errors :: "gerror list"
  Success :: bool

definition verifySignature :: "Snapshot \<Rightarrow> bool" where
  "verifySignature snapshot = True"

definition verifyChunk :: "prims \<Rightarrow> 'd bolt \<Rightarrow> Store \<Rightarrow> 'd world \<Rightarrow> string \<Rightarrow> gerror option outcome" where
  "verifyChunk P B s w chunkHash =
     (case Store_Get B w chunkHash of
        Inl err \<Rightarrow> Ret (Some (SV (NewChunkNotFoundError chunkHash)))
      | Inr data \<Rightarrow>
          (let actualHash = hex_EncodeToString (Hash P data) in
           if actualHash \<noteq> chunkHash then
             Ret (Some (SV (WrapError ErrCodeChunkInvalid ''chunk hash mismatch''
               (ErrorString (''expected '' @ chunkHash @ '', got '' @ actualHash)))))
           else
             (case Store_GetChunk P B s chunkHash w of
                Panic m \<Rightarrow> Panic m
              | Ret (Inl err) \<Rightarrow> Ret (Some (SV (WrapError ErrCodeChunkInvalid ''chunk decryption failed'' err)))
              | Ret (Inr _) \<Rightarrow> Ret None)))"

fun verify_loop :: "(string \<Rightarrow> gerror option outcome) \<Rightarrow> string list \<Rightarrow> VerificationResult \<Rightarrow>
    VerificationResult outcome" where
  "verify_loop check [] result = Ret result"
| "verify_loop check (chunkHash # hs) result =
     (case check chunkHash of
        Panic m \<Rightarrow> Panic m
      | Ret None \<Rightarrow> verify_loop check hs (result\<lparr>VerifiedChunks := Suc (VerifiedChunks result)\<rparr>)
      | Ret (Some err) \<Rightarrow>
          (let result =
             (if GetErrorCode (Some err) = ErrCodeChunkNotFound
              then result\<lparr>MissingChunks := MissingChunks result @ [chunkHash]\<rparr>
              else result\<lparr>CorruptedChunks := CorruptedChunks result @ [chunkHash]\<rparr>)
           in verify_loop check hs (result\<lparr>Errors := Errors result @ [err]\<rparr>)))"

definition VerifySnapshot :: "prims \<Rightarrow> codec \<Rightarrow> 'd bolt \<Rightarrow> Store \<Rightarrow> 'd world \<Rightarrow> string \<Rightarrow>
    (gerror + VerificationResult) outcome" where
  "VerifySnapshot P C B s w snapshotID =
     (case LoadSnapshot C B w snapshotID of
        Inl err \<Rightarrow> Ret (Inl (SV (WrapError ErrCodeSnapshotNotFound ''failed to load snapshot'' err)))
      | Inr snapshot \<Rightarrow>
          (let valid = verifySignature snapshot;
               result = \<lparr>SnapshotID = snapshotID, TotalChunks = length (Chunks snapshot), VerifiedChunks = 0,
                 MissingChunks = [], CorruptedChunks = [], SignatureValid = valid,
                 Errors = (if valid then []
                           else [SV (NewInvalidSignatureError ''snapshot signature verification failed'')]),
                 Success = False\<rparr>
           in case verify_loop (verifyChunk P B s w) (Chunks snapshot) result of
                Panic m \<Rightarrow> Panic m
              | Ret r \<Rightarrow>
                  Ret (Inr (r\<lparr>Success := SignatureValid r \<and> MissingChunks r = [] \<and> CorruptedChunks r = []\<rparr>))))"

fun verify_all_loop :: "(string \<Rightarrow> (gerror + VerificationResult) outcome) \<Rightarrow> Snapshot list \<Rightarrow>
    VerificationResult list outcome" where
  "verify_all_loop verify [] = Ret []"
| "verify_all_loop verify (snapshot # sns) =
     (case verify (ID snapshot) of
        Panic m \<Rightarrow> Panic m
      | Ret (Inl err) \<Rightarrow> verify_all_loop verify sns
      | Ret (Inr result) \<Rightarrow>
          (case verify_all_loop verify sns of Panic m \<Rightarrow> Panic m | Ret results \<Rightarrow> Ret (result # results)))"

definition VerifyAllSnapshots :: "prims \<Rightarrow> codec \<Rightarrow> 'd bolt \<Rightarrow> Store \<Rightarrow> 'd world \<Rightarrow>
    (gerror + VerificationResult list) outcome" where
  "VerifyAllSnapshots P C B s w =
     (case ListAllSnapshots C B w of
        Inl err \<Rightarrow> Ret (Inl err)
      | Inr snapshots \<Rightarrow>
          (case verify_all_loop (VerifySnapshot P C B s w) snapshots of
             Panic m \<Rightarrow> Panic m
           | Ret results \<Rightarrow> Ret (Inr results)))"

definition QuickCheck :: "codec \<Rightarrow> 'd bolt \<Rightarrow> 'd world \<Rightarrow> string \<Rightarrow> gerror + bool" where
  "QuickCheck C B w snapshotID =
     (case LoadSnapshot C B w snapshotID of
        Inl err \<Rightarrow> Inl err
      | Inr snapshot \<Rightarrow> Inr (list_all (Store_Exists B w) (Chunks snapshot)))"

fun fetch_all :: "('w \<Rightarrow> string \<Rightarrow> gerror option \<times> 'w) \<Rightarrow> string list \<Rightarrow> 'w \<Rightarrow> 'w" where
  "fetch_all fetchFunc [] w = w"
| "fetch_all fetchFunc (chunkHash # hs) w = fetch_all fetchFunc hs (snd (fetchFunc w chunkHash))"

definition RepairSnapshot :: "prims \<Rightarrow> codec \<Rightarrow> 'd bolt \<Rightarrow> Store \<Rightarrow> ('d world \<Rightarrow> string \<Rightarrow> gerror option \<times> 'd world) \<Rightarrow>
    'd world \<Rightarrow> string \<Rightarrow> (gerror + VerificationResult) outcome \<times> 'd world" where
  "RepairSnapshot P C B s fetchFunc w snapshotID =
     (case VerifySnapshot P C B s w snapshotID of
        Panic m \<Rightarrow> (Panic m, w)
      | Ret (Inl err) \<Rightarrow> (Ret (Inl err), w)
      | Ret (Inr result) \<Rightarrow>
          (if Success result then (Ret (Inr result), w)
           else
             (let w' = fetch_all fetchFunc (MissingChunks result) w in
              (VerifySnapshot P C B s w' snapshotID, w'))))"

text \<open>
  The report. \<open>health_percentage\<close> is a floating-point number, \<open>valid_snapshots\<close> divided by
  \<open>total_snapshots\<close> times one hundred; the model keeps the two operands.
\<close>

record VerificationReport =
  total_snapshots :: nat
  valid_snapshots :: nat
  invalid_snapshots :: nat
  total_chunks :: nat
  missing_chunks :: nat
  corrupted_chunks :: nat
  health_operands :: "nat \<times> nat"

definition GetVerificationReport :: "prims \<Rightarrow> codec \<Rightarrow> 'd bolt \<Rightarrow> Store \<Rightarrow> 'd world \<Rightarrow>
    (gerror + VerificationReport) outcome" where
  "GetVerificationReport P C B s w =
     (case VerifyAllSnapshots P C B s w of
        Panic m \<Rightarrow> Panic m
      | Ret (Inl err) \<Rightarrow> Ret (Inl err)
      | Ret (Inr results) \<Rightarrow>
          (let totalSnapshots = length results; validSnapshots = length (filter Success results) in
           Ret (Inr \<lparr>total_snapshots = totalSnapshots, valid_snapshots = validSnapshots,
             invalid_snapshots = totalSnapshots - validSnapshots,
             total_chunks = sum_list (map TotalChunks results),
             missing_chunks = sum_list (map (length \<circ> MissingChunks) results),
             corrupted_chunks = sum_list (map (length \<circ> CorruptedChunks) results),
             health_operands = (validSnapshots, totalSnapshots)\<rparr>)))"

section \<open>What the loop collects\<close>

text \<open>The verdict on one chunk.\<close>

fun is_missing :: "gerror option outcome \<Rightarrow> bool" where
  "is_missing (Ret (Some e)) = (GetErrorCode (Some e) = ErrCodeChunkNotFound)"
| "is_missing _ = False"

fun is_corrupted :: "gerror option outcome \<Rightarrow> bool" where
  "is_corrupted (Ret (Some e)) = (GetErrorCode (Some e) \<noteq> ErrCodeChunkNotFound)"
| "is_corrupted _ = False"

lemma verify_loop_spec:
  assumes "\<And>h. h \<in> set hs \<Longrightarrow> \<not> is_panic (check h)"
  shows "\<exists>r'. verify_loop check hs r = Ret r' \<and>
    MissingChunks r' = MissingChunks r @ filter (\<lambda>h. is_missing (check h)) hs \<and>
    CorruptedChunks r' = CorruptedChunks r @ filter (\<lambda>h. is_corrupted (check h)) hs \<and>
    VerifiedChunks r' = VerifiedChunks r + length (filter (\<lambda>h. check h = Ret None) hs) \<and>
    length (Errors r') = length (Errors r) + length (filter (\<lambda>h. check h \<noteq> Ret None) hs) \<and>
    SnapshotID r' = SnapshotID r \<and> TotalChunks r' = TotalChunks r \<and> SignatureValid r' = SignatureValid r"
  using assms
proof (induction hs arbitrary: r)
  case (Cons h hs)
  from Cons.prems [of h] obtain v where v: "check h = Ret v" by (cases "check h") auto
  show ?case
  proof (cases v)
    case None
    with v Cons.IH [of "r\<lparr>VerifiedChunks := Suc (VerifiedChunks r)\<rparr>"] Cons.prems show ?thesis by simp
  next
    case (Some e)
    let ?r = "(if GetErrorCode (Some e) = ErrCodeChunkNotFound then r\<lparr>MissingChunks := MissingChunks r @ [h]\<rparr>
        else r\<lparr>CorruptedChunks := CorruptedChunks r @ [h]\<rparr>)\<lparr>Errors := Errors r @ [e]\<rparr>"
    from v Some Cons.IH [of ?r] Cons.prems show ?thesis by (simp add: Let_def split: if_splits)
  qed
qed simp

lemma verdicts_partition:
  assumes "\<And>h. h \<in> set hs \<Longrightarrow> \<not> is_panic (check h)"
  shows "length hs = length (filter (\<lambda>h. check h = Ret None) hs) +
    length (filter (\<lambda>h. is_missing (check h)) hs) + length (filter (\<lambda>h. is_corrupted (check h)) hs)"
  using assms
proof (induction hs)
  case (Cons h hs)
  from Cons.prems [of h] obtain v where v: "check h = Ret v" by (cases "check h") auto
  with Cons show ?case by (cases v) auto
qed simp

section \<open>The verdict on a chunk\<close>

lemma error_code_NotFound: "ErrCodeChunkInvalid \<noteq> ErrCodeChunkNotFound"
  by (simp add: ErrCodeChunkInvalid_def ErrCodeChunkNotFound_def)

context store_env
begin

lemma verifyChunk_verdict:
  assumes "world_ready B w"
  shows "\<not> is_panic (verifyChunk P B s w h)"
    and "is_missing (verifyChunk P B s w h) \<longleftrightarrow> \<not> Store_Exists B w h"
    and "verifyChunk P B s w h = Ret None \<longleftrightarrow>
      (\<exists>v m. Store_Get B w h = Inr v \<and> hash_str P v = h \<and> Store_GetChunk P B s h w = Ret (Inr m))"
proof -
  obtain r where r: "Store_GetChunk P B s h w = Ret r" using GetChunk_Plain [OF assms] by blast
  show "\<not> is_panic (verifyChunk P B s w h)"
    using r by (simp add: verifyChunk_def Let_def split: sum.splits)
  show "is_missing (verifyChunk P B s w h) \<longleftrightarrow> \<not> Store_Exists B w h"
    using r error_code_NotFound
    by (simp add: verifyChunk_def Let_def NewChunkNotFoundError_def db.store.get_law [OF assms]
        db.store.exists_law [OF assms] split: sum.splits option.splits)
  show "verifyChunk P B s w h = Ret None \<longleftrightarrow>
      (\<exists>v m. Store_Get B w h = Inr v \<and> hash_str P v = h \<and> Store_GetChunk P B s h w = Ret (Inr m))"
    using r by (simp add: verifyChunk_def Let_def split: sum.splits)
qed

lemma verdict_cases: "is_corrupted v \<longleftrightarrow> \<not> is_panic v \<and> \<not> is_missing v \<and> v \<noteq> Ret None"
  by (cases v rule: is_corrupted.cases) auto

definition intact :: "'d world \<Rightarrow> string \<Rightarrow> bool" where
  "intact w h \<longleftrightarrow> (\<exists>v m. Store_Get B w h = Inr v \<and> hash_str P v = h \<and> Store_GetChunk P B s h w = Ret (Inr m))"

lemma VerifySnapshot_spec:
  assumes "world_ready B w" and "LoadSnapshot C B w i = Inr sn"
  shows "\<exists>r. VerifySnapshot P C B s w i = Ret (Inr r) \<and>
    MissingChunks r = filter (\<lambda>h. \<not> Store_Exists B w h) (Chunks sn) \<and>
    CorruptedChunks r = filter (\<lambda>h. Store_Exists B w h \<and> \<not> intact w h) (Chunks sn) \<and>
    VerifiedChunks r = length (filter (intact w) (Chunks sn)) \<and>
    TotalChunks r = length (Chunks sn) \<and> TotalChunks r = VerifiedChunks r + length (MissingChunks r) + length (CorruptedChunks r) \<and>
    length (Errors r) = length (MissingChunks r) + length (CorruptedChunks r) \<and>
    (Success r \<longleftrightarrow> MissingChunks r = [] \<and> CorruptedChunks r = [])"
proof -
  let ?check = "verifyChunk P B s w" and ?hs = "Chunks sn"
  note v = verifyChunk_verdict [OF assms(1)]
  let ?r0 = "\<lparr>SnapshotID = i, TotalChunks = length ?hs, VerifiedChunks = 0, MissingChunks = [],
    CorruptedChunks = [], SignatureValid = True, Errors = [], Success = False\<rparr>"
  obtain r where r: "verify_loop ?check ?hs ?r0 = Ret r"
    "MissingChunks r = filter (\<lambda>h. is_missing (?check h)) ?hs"
    "CorruptedChunks r = filter (\<lambda>h. is_corrupted (?check h)) ?hs"
    "VerifiedChunks r = length (filter (\<lambda>h. ?check h = Ret None) ?hs)"
    "length (Errors r) = length (filter (\<lambda>h. ?check h \<noteq> Ret None) ?hs)"
    "TotalChunks r = length ?hs" "SignatureValid r"
    using verify_loop_spec [of ?hs ?check ?r0] v(1) by auto
  have part: "length ?hs = VerifiedChunks r + length (MissingChunks r) + length (CorruptedChunks r)"
    using verdicts_partition [of ?hs ?check] v(1) by (simp add: r)
  have "length (Errors r) = length (MissingChunks r) + length (CorruptedChunks r)"
    using part sum_length_filter_compl [of "\<lambda>h. ?check h = Ret None" ?hs] by (simp add: r)
  moreover have "intact w = (\<lambda>h. ?check h = Ret None)"
    by (simp add: fun_eq_iff v(3) intact_def)
  moreover have "is_corrupted (?check h) \<longleftrightarrow> Store_Exists B w h \<and> ?check h \<noteq> Ret None" for h
    using v by (simp add: verdict_cases)
  moreover have "VerifySnapshot P C B s w i = Ret (Inr (r\<lparr>Success := MissingChunks r = [] \<and> CorruptedChunks r = []\<rparr>))"
    using r(1,7) assms(2) by (simp add: VerifySnapshot_def verifySignature_def Let_def)
  ultimately show ?thesis using part by (simp add: r(2-4,6) v(2))
qed

lemma chunk_decrypts:
  assumes "world_ready B w" and "blocks_named P B s w" and "Store_Exists B w h"
  shows "\<exists>m. Store_GetChunk P B s h w = Ret (Inr m) \<and> hash_str P m = h"
  using assms by (simp add: blocks_named_def db.store.exists_law enc.getchunk_Inr)

lemma stored_never_intact:
  assumes "world_ready B w" and "blocks_named P B s w"
    and "inj_on (hash_str P) (ran (Plain P B s w) \<union> ran (Blocks B w))"
  shows "\<not> intact w h"
  using stored_hash_differs [OF assms(2,3)]
  by (auto simp: intact_def db.store.get_law [OF assms(1)] split: option.splits)

end

section \<open>A concrete database\<close>

definition wit_saved_world :: "mem_db world" where
  "wit_saved_world = snd (SaveSnapshot ref_codec mem_bolt wit_world wit_snapshot)"

lemma wit_saved:
  "snaps_ok ref_codec mem_bolt wit_saved_world \<and>
   LoadSnapshot ref_codec mem_bolt wit_saved_world ''snap-1'' = Inr wit_snapshot \<and>
   \<not> Store_Exists mem_bolt wit_saved_world h"
proof -
  obtain w' where w': "SaveSnapshot ref_codec mem_bolt wit_world wit_snapshot = (None, w')"
    by (rule mem_save_ok [OF wit_ready]) (auto simp: wit_snapshot_def)
  then have w: "wit_saved_world = w'" by (simp add: wit_saved_world_def)
  note law = wit_versions.save_then_load [OF wit_snaps_ok wit_snapshot_ascii w']
  then have "Blocks mem_bolt w' = Blocks mem_bolt wit_world"
    using blocks_non_snapshots by blast
  then have "\<not> Store_Exists mem_bolt w' h"
    using law wit_fresh by (simp add: mem.store.exists_law snaps_ok_def)
  with law show ?thesis by (simp add: w) (simp add: wit_snapshot_def)
qed

section \<open>Properties\<close>

text \<open>
  C22. What a verification reports: for every snapshot that loads, \<open>VerifySnapshot\<close> returns a
  result, without panicking, that lists exactly the chunks not in the store as missing and, as
  corrupted, exactly those that are in the store but whose stored bytes do not hash to their name or do not
  decrypt; the remaining ones are counted as verified, the three numbers add up to the total, there is one error per
  bad chunk, and success means that every chunk passed.
\<close>

theorem VerifySnapshot_report:
  assumes "store_env B P s" and "world_ready B w" and "LoadSnapshot C B w i = Inr sn"
  shows "\<exists>r. VerifySnapshot P C B s w i = Ret (Inr r) \<and>
    MissingChunks r = filter (\<lambda>h. \<not> Store_Exists B w h) (Chunks sn) \<and>
    CorruptedChunks r = filter (\<lambda>h. Store_Exists B w h \<and>
      \<not> (\<exists>v m. Store_Get B w h = Inr v \<and> hash_str P v = h \<and> Store_GetChunk P B s h w = Ret (Inr m))) (Chunks sn) \<and>
    TotalChunks r = length (Chunks sn) \<and>
    TotalChunks r = VerifiedChunks r + length (MissingChunks r) + length (CorruptedChunks r) \<and>
    length (Errors r) = length (MissingChunks r) + length (CorruptedChunks r) \<and>
    (Success r \<longleftrightarrow> MissingChunks r = [] \<and> CorruptedChunks r = [])"
  using store_env.VerifySnapshot_spec [OF assms] unfolding store_env.intact_def [OF assms(1)] by blast

theorem VerifySnapshot_report_witness:
  "\<exists>r. VerifySnapshot ref_prims ref_codec mem_bolt wit_store wit_saved_world ''snap-1'' = Ret (Inr r) \<and>
    MissingChunks r = [''c1'', ''c2''] \<and> \<not> Success r"
proof -
  have load: "LoadSnapshot ref_codec mem_bolt wit_saved_world ''snap-1'' = Inr wit_snapshot"
    using wit_saved by blast
  show ?thesis
    using VerifySnapshot_report [OF wit.store_env_axioms _ load] wit_saved
    by (auto simp: wit_snapshot_def snaps_ok_def)
qed

text \<open>
  C38. Verification rejects every healthy backup: when each stored block is what \<open>PutChunk\<close>
  writes (it decrypts to the data it is named after) and SHA-256 does not collide on the data at hand,
  \<open>VerifySnapshot\<close> of a snapshot all of whose chunks are present reports every one of them as
  corrupted, although \<open>QuickCheck\<close> succeeds and each of them decrypts. The comparison is made
  with the hash of the ciphertext.
\<close>

theorem VerifySnapshot_rejects_healthy:
  assumes "store_env B P s" and "world_ready B w" and "LoadSnapshot C B w i = Inr sn"
    and "blocks_named P B s w" and "list_all (Store_Exists B w) (Chunks sn)"
    and "inj_on (hash_str P) (ran (Plain P B s w) \<union> ran (Blocks B w))"
  shows "QuickCheck C B w i = Inr True \<and>
    (\<forall>h \<in> set (Chunks sn). \<exists>m. Store_GetChunk P B s h w = Ret (Inr m) \<and> hash_str P m = h) \<and>
    (\<exists>r. VerifySnapshot P C B s w i = Ret (Inr r) \<and> CorruptedChunks r = Chunks sn \<and> VerifiedChunks r = 0 \<and>
       (Success r \<longleftrightarrow> Chunks sn = []))"
proof -
  note bad = store_env.stored_never_intact [OF assms(1,2,4,6)]
  have "QuickCheck C B w i = Inr True" using assms(3,5) by (simp add: QuickCheck_def)
  moreover have "\<exists>m. Store_GetChunk P B s h w = Ret (Inr m) \<and> hash_str P m = h" if "h \<in> set (Chunks sn)" for h
    using store_env.chunk_decrypts [OF assms(1,2,4)] assms(5) that by (simp add: list_all_iff)
  moreover have "filter (\<lambda>h. \<not> Store_Exists B w h) (Chunks sn) = []"
    "filter (\<lambda>h. Store_Exists B w h \<and> \<not> store_env.intact B P s w h) (Chunks sn) = Chunks sn"
    "filter (store_env.intact B P s w) (Chunks sn) = []"
    using assms(5) bad by (simp_all add: filter_empty_conv filter_id_conv list_all_iff)
  ultimately show ?thesis using store_env.VerifySnapshot_spec [OF assms(1-3)] by auto
qed

theorem VerifySnapshot_rejects_healthy_witness:
  "\<exists>w r. QuickCheck ref_codec mem_bolt w ''snap-1'' = Inr True \<and>
     VerifySnapshot ref_prims ref_codec mem_bolt wit_store w ''snap-1'' = Ret (Inr r) \<and>
     CorruptedChunks r = [hash_str ref_prims ''hello''] \<and> \<not> Success r"
proof -
  obtain w sn where w: "world_ready mem_bolt w" "LoadSnapshot ref_codec mem_bolt w ''snap-1'' = Inr sn"
    "Chunks sn = [hash_str ref_prims ''hello'']" "Store_Exists mem_bolt w (hash_str ref_prims ''hello'')"
    "blocks_named ref_prims mem_bolt wit_store w"
    "inj_on (hash_str ref_prims) (ran (Plain ref_prims mem_bolt wit_store w) \<union> ran (Blocks mem_bolt w))"
    by (rule wit_good)
  from w(3,4) have "list_all (Store_Exists mem_bolt w) (Chunks sn)" by simp
  from VerifySnapshot_rejects_healthy [OF wit.store_env_axioms w(1,2,5) this w(6)] w(3) show ?thesis by auto
qed

end
