(* ===== verification/SV_Protocol.thy ===== *)
theory SV_Protocol
  imports SV_Snapshots
begin

text \<open>
  \<open>internal/protocol/messages.go\<close>: the signed messages of the peer-to-peer protocol.

  All five \<open>Validate\<close> methods decode the signature and the public key and verify the
  signature over a payload made of the other fields. \<open>signed_message\<close> is that common shape,
  with what follows from it: when a message is accepted, when validating it panics, and that a
  message signed with a generated key is accepted. It is interpreted for every message type.
\<close>

section \<open>messages.go\<close>

record SnapshotAnnouncement =
  sa_Snapshot :: Snapshot

definition SnapshotAnnouncement_Validate :: "prims \<Rightarrow> codec \<Rightarrow> SnapshotAnnouncement \<Rightarrow> gerror option outcome" where
  "SnapshotAnnouncement_Validate P C sa =
     (let rawSnap = \<lparr>ID = ID (sa_Snapshot sa), Parent = Parent (sa_Snapshot sa),
        Timestamp = Timestamp (sa_Snapshot sa), Chunks = Chunks (sa_Snapshot sa),
        Meta = Meta (sa_Snapshot sa), SignerPub = SignerPub (sa_Snapshot sa), Signature = []\<rparr>;
        data = marshal_Snapshot C rawSnap
      in case base64_DecodeString (Signature (sa_Snapshot sa)) of
           None \<Rightarrow> Ret (Some b64_error)
         | Some sigBytes \<Rightarrow>
             (case base64_DecodeString (SignerPub (sa_Snapshot sa)) of
                None \<Rightarrow> Ret (Some b64_error)
              | Some pubKeyBytes \<Rightarrow>
                  (case Verify P data sigBytes pubKeyBytes of
                     Panic m \<Rightarrow> Panic m
                   | Ret ok \<Rightarrow> Ret (if ok then None else Some (ErrorString ''snapshot signature invalid'')))))"

record ChunkRequest =
  cq_Hash :: string
  cq_Requestor :: string
  cq_SignerPub :: string
  cq_Signature :: string

definition ChunkRequest_Validate :: "prims \<Rightarrow> ChunkRequest \<Rightarrow> gerror option outcome" where
  "ChunkRequest_Validate P cr =
     (let payload = cq_Hash cr @ ''|'' @ cq_Requestor cr in
      case base64_DecodeString (cq_Signature cr) of
        None \<Rightarrow> Ret (Some b64_error)
      | Some sig \<Rightarrow>
          (case base64_DecodeString (cq_SignerPub cr) of
             None \<Rightarrow> Ret (Some b64_error)
           | Some pub \<Rightarrow>
               (case Verify P payload sig pub of
                  Panic m \<Rightarrow> Panic m
                | Ret ok \<Rightarrow> Ret (if ok then None else Some (ErrorString ''chunk request signature invalid'')))))"

record ChunkResponse =
  cs_Hash :: string
  cs_Data :: string
  cs_SignerPub :: string
  cs_Signature :: string

definition ChunkResponse_Validate :: "prims \<Rightarrow> ChunkResponse \<Rightarrow> gerror option outcome" where
  "ChunkResponse_Validate P cr =
     (let payload = cs_Hash cr @ ''|'' @ cs_Data cr in
      case base64_DecodeString (cs_Signature cr) of
        None \<Rightarrow> Ret (Some b64_error)
      | Some sig \<Rightarrow>
          (case base64_DecodeString (cs_SignerPub cr) of
             None \<Rightarrow> Ret (Some b64_error)
           | Some pub \<Rightarrow>
               (case Verify P payload sig pub of
                  Panic m \<Rightarrow> Panic m
                | Ret ok \<Rightarrow> Ret (if ok then None else Some (ErrorString ''chunk response signature invalid'')))))"

record PeerAdd =
  pa_Addr :: string
  pa_PeerID :: string
  pa_SignerPub :: string
  pa_Signature :: string

definition PeerAdd_Validate :: "prims \<Rightarrow> PeerAdd \<Rightarrow> gerror option outcome" where
  "PeerAdd_Validate P pa =
     (let payload = pa_Addr pa @ ''|'' @ pa_PeerID pa in
      case base64_DecodeString (pa_Signature pa) of
        None \<Rightarrow> Ret (Some b64_error)
      | Some sig \<Rightarrow>
          (case base64_DecodeString (pa_SignerPub pa) of
             None \<Rightarrow> Ret (Some b64_error)
           | Some pub \<Rightarrow>
               (case Verify P payload sig pub of
                  Panic m \<Rightarrow> Panic m
                | Ret ok \<Rightarrow> Ret (if ok then None else Some (ErrorString ''peer add signature invalid'')))))"

record PeerRemove =
  pr_PeerID :: string
  pr_SignerPub :: string
  pr_Signature :: string

definition PeerRemove_Validate :: "prims \<Rightarrow> PeerRemove \<Rightarrow> gerror option outcome" where
  "PeerRemove_Validate P pr =
     (let payload = pr_PeerID pr in
      case base64_DecodeString (pr_Signature pr) of
        None \<Rightarrow> Ret (Some b64_error)
      | Some sig \<Rightarrow>
          (case base64_DecodeString (pr_SignerPub pr) of
             None \<Rightarrow> Ret (Some b64_error)
           | Some pub \<Rightarrow>
               (case Verify P payload sig pub of
                  Panic m \<Rightarrow> Panic m
                | Ret ok \<Rightarrow> Ret (if ok then None else Some (ErrorString ''peer remove signature invalid'')))))"

section \<open>The common shape\<close>

locale signed_message =
  fixes P :: prims
    and payload :: "'m \<Rightarrow> bytes"
    and signature_of :: "'m \<Rightarrow> string"
    and signer_of :: "'m \<Rightarrow> string"
    and invalid :: gerror
    and validate :: "'m \<Rightarrow> gerror option outcome"
  assumes validate_law: "validate m =
     (case base64_DecodeString (signature_of m) of
        None \<Rightarrow> Ret (Some b64_error)
      | Some sig \<Rightarrow>
          (case base64_DecodeString (signer_of m) of
             None \<Rightarrow> Ret (Some b64_error)
           | Some pub \<Rightarrow>
               (case Verify P (payload m) sig pub of
                  Panic msg \<Rightarrow> Panic msg
                | Ret ok \<Rightarrow> Ret (if ok then None else Some invalid))))"
begin

lemma accepted_iff:
  "validate m = Ret None \<longleftrightarrow>
     (\<exists>sig pub. base64_DecodeString (signature_of m) = Some sig \<and> base64_DecodeString (signer_of m) = Some pub \<and>
        length pub = 32 \<and> ed_verify P pub (payload m) sig)"
  by (auto simp: validate_law Verify_def size_defs split: option.splits)

lemma panics_iff:
  "is_panic (validate m) \<longleftrightarrow>
     (\<exists>sig pub. base64_DecodeString (signature_of m) = Some sig \<and> base64_DecodeString (signer_of m) = Some pub \<and>
        length pub \<noteq> 32)"
  by (auto simp: validate_law Verify_def size_defs split: option.splits)

lemma signed_accepted:
  assumes "crypto_prims P" and "ed_generate P r = Some (pub, priv)"
    and "Sign P (payload m) priv = Ret sig"
    and "signature_of m = base64_EncodeToString sig" and "signer_of m = base64_EncodeToString pub"
  shows "validate m = Ret None"
  using crypto_prims.ed_keypair [OF assms(1,2)] assms(3-5)
  by (auto simp: accepted_iff Sign_def size_defs split: if_splits)

end

interpretation announcement: signed_message P
  "\<lambda>sa. marshal_Snapshot C (snapWithoutSignature (sa_Snapshot sa))"
  "\<lambda>sa. Signature (sa_Snapshot sa)" "\<lambda>sa. SignerPub (sa_Snapshot sa)"
  "ErrorString ''snapshot signature invalid''" "SnapshotAnnouncement_Validate P C" for P C
  by unfold_locales (simp only: SnapshotAnnouncement_Validate_def snapWithoutSignature_def Let_def)

interpretation chunk_request: signed_message P "\<lambda>m. cq_Hash m @ ''|'' @ cq_Requestor m" cq_Signature cq_SignerPub
  "ErrorString ''chunk request signature invalid''" "ChunkRequest_Validate P" for P
  by unfold_locales (simp only: ChunkRequest_Validate_def Let_def)

interpretation chunk_response: signed_message P "\<lambda>m. cs_Hash m @ ''|'' @ cs_Data m" cs_Signature cs_SignerPub
  "ErrorString ''chunk response signature invalid''" "ChunkResponse_Validate P" for P
  by unfold_locales (simp only: ChunkResponse_Validate_def Let_def)

interpretation peer_add: signed_message P "\<lambda>m. pa_Addr m @ ''|'' @ pa_PeerID m" pa_Signature pa_SignerPub
  "ErrorString ''peer add signature invalid''" "PeerAdd_Validate P" for P
  by unfold_locales (simp only: PeerAdd_Validate_def Let_def)

interpretation peer_remove: signed_message P pr_PeerID pr_Signature pr_SignerPub
  "ErrorString ''peer remove signature invalid''" "PeerRemove_Validate P" for P
  by unfold_locales (simp only: PeerRemove_Validate_def Let_def)

section \<open>What a payload binds\<close>

lemma split_at_bar:
  assumes "CHR ''|'' \<notin> set a" and "CHR ''|'' \<notin> set a'"
  shows "a @ ''|'' @ b = a' @ ''|'' @ b' \<longleftrightarrow> a = a' \<and> b = b'"
  using assms by (auto simp: append_eq_append_conv2 Cons_eq_append_conv append_eq_Cons_conv)

lemma hex_no_bar: "CHR ''|'' \<notin> set (hex_EncodeToString bs)"
proof (induction bs)
  case (Cons b bs)
  have "CHR ''|'' \<notin> set hex_alphabet" by (simp add: hex_alphabet_def)
  moreover have "hex_alphabet ! i \<in> set hex_alphabet" if "i < 16" for i
    using that by (simp add: nth_mem)
  ultimately have "hex_alphabet ! i \<noteq> CHR ''|''" if "i < 16" for i using that by metis
  then have "hex_alphabet ! (byte_val b div 16) \<noteq> CHR ''|''" "hex_alphabet ! (byte_val b mod 16) \<noteq> CHR ''|''"
    using byte_val_less [of b] by (simp_all add: less_mult_imp_div_less)
  with Cons show ?case by (auto simp: hex_byte_def)
qed simp

section \<open>Properties\<close>


text \<open>
  A peer can crash the agent with one message: whenever the two encoded fields of a message decode
  and the public key does not have 32 bytes, each of the five \<open>Validate\<close> methods panics
  instead of returning an error; the messages are otherwise arbitrary and need no valid signature.
\<close>

theorem Validate_panics_on_short_key:
  assumes "length pub \<noteq> 32"
  shows "let p = base64_EncodeToString pub; g = base64_EncodeToString sig in
    is_panic (SnapshotAnnouncement_Validate P C \<lparr>sa_Snapshot = sn\<lparr>SignerPub := p, Signature := g\<rparr>\<rparr>) \<and>
    is_panic (ChunkRequest_Validate P \<lparr>cq_Hash = h, cq_Requestor = q, cq_SignerPub = p, cq_Signature = g\<rparr>) \<and>
    is_panic (ChunkResponse_Validate P \<lparr>cs_Hash = h, cs_Data = d, cs_SignerPub = p, cs_Signature = g\<rparr>) \<and>
    is_panic (PeerAdd_Validate P \<lparr>pa_Addr = a, pa_PeerID = i, pa_SignerPub = p, pa_Signature = g\<rparr>) \<and>
    is_panic (PeerRemove_Validate P \<lparr>pr_PeerID = i, pr_SignerPub = p, pr_Signature = g\<rparr>)"
  using assms
  by (simp add: Let_def announcement.panics_iff chunk_request.panics_iff chunk_response.panics_iff
      peer_add.panics_iff peer_remove.panics_iff)

theorem Validate_panics_on_short_key_witness:
  "is_panic (PeerRemove_Validate ref_prims \<lparr>pr_PeerID = ''p'', pr_SignerPub = base64_EncodeToString [],
     pr_Signature = base64_EncodeToString ''s''\<rparr>)"
  using Validate_panics_on_short_key [of "[]" "''s''" ref_prims ref_codec wit_snapshot "''h''" "''q''" "''d''" "''a''" "''p''"]
  by (simp add: Let_def)

text \<open>
  Signatures are not bound to a message type: the payloads of a chunk request and of a peer
  introduction are built alike and the payload of a peer removal is an arbitrary string, so one signature
  that a chunk request carries is accepted as the introduction of its requestor under the address that is
  the hash, and as a removal.
\<close>

theorem signature_valid_across_types:
  assumes "ChunkRequest_Validate P q = Ret None"
  shows "PeerAdd_Validate P \<lparr>pa_Addr = cq_Hash q, pa_PeerID = cq_Requestor q, pa_SignerPub = cq_SignerPub q,
      pa_Signature = cq_Signature q\<rparr> = Ret None \<and>
    PeerRemove_Validate P \<lparr>pr_PeerID = cq_Hash q @ ''|'' @ cq_Requestor q, pr_SignerPub = cq_SignerPub q,
      pr_Signature = cq_Signature q\<rparr> = Ret None"
  using assms by (simp add: chunk_request.accepted_iff peer_add.accepted_iff peer_remove.accepted_iff)

theorem signature_valid_across_types_witness:
  "\<exists>q. ChunkRequest_Validate ref_prims q = Ret None \<and> cq_Hash q = ''ab'' \<and>
     PeerAdd_Validate ref_prims \<lparr>pa_Addr = ''ab'', pa_PeerID = ''me'', pa_SignerPub = cq_SignerPub q,
      pa_Signature = cq_Signature q\<rparr> = Ret None"
proof -
  let ?q = "\<lparr>cq_Hash = ''ab'', cq_Requestor = ''me'', cq_SignerPub = base64_EncodeToString wit_pub,
    cq_Signature = base64_EncodeToString (ed_sign ref_prims wit_priv ''ab|me'')\<rparr>"
  have q: "ChunkRequest_Validate ref_prims ?q = Ret None"
    by (rule chunk_request.signed_accepted [OF ref.crypto_prims_axioms wit_keys])
      (simp_all add: Sign_def size_defs wit_priv_def)
  with signature_valid_across_types [OF q] show ?thesis by (intro exI [of _ ?q]) simp
qed

end
