(* ===== verification/SV_Metrics.thy ===== *)
theory SV_Metrics
  imports SV_Prelude "HOL-Library.Signed_Division"
begin

text \<open>
  \<open>internal/monitoring/metrics.go\<close>: the counters and duration histograms.

  The atomic counters are machine words that wrap around: \<open>atomic.Uint64\<close> and
  \<open>atomic.Int64\<close> are both \<open>64 word\<close>, the latter and \<open>time.Duration\<close> (a number of
  nanoseconds) read with \<open>sint\<close>. \<open>metrics_event\<close> names the recording calls, so that the
  invariants hold of every sequence of calls, in particular of every interleaving of the
  goroutines that make them.
\<close>

section \<open>Duration histograms\<close>

record DurationHistogram =
  buckets :: "string \<rightharpoonup> u64"
  dh_sum :: i64
  dh_count :: u64

definition NewDurationHistogram :: DurationHistogram where
  "NewDurationHistogram = \<lparr>buckets = Map.empty, dh_sum = 0, dh_count = 0\<rparr>"

definition time_Second :: int where "time_Second = 1000000000"
definition time_Minute :: int where "time_Minute = 60 * time_Second"

definition getBucket :: "i64 \<Rightarrow> string" where
  "getBucket d =
     (if sint d < time_Second then ''0-1s''
      else if sint d < 5 * time_Second then ''1-5s''
      else if sint d < 10 * time_Second then ''5-10s''
      else if sint d < 30 * time_Second then ''10-30s''
      else if sint d < time_Minute then ''30-60s''
      else if sint d < 5 * time_Minute then ''1-5m''
      else ''5m+'')"

definition bucket_inc :: "(string \<rightharpoonup> u64) \<Rightarrow> string \<Rightarrow> string \<rightharpoonup> u64" where
  "bucket_inc m b = m(b \<mapsto> (case m b of None \<Rightarrow> 0 | Some n \<Rightarrow> n) + 1)"

definition Observe :: "i64 \<Rightarrow> DurationHistogram \<Rightarrow> DurationHistogram" where
  "Observe d h =
     h\<lparr>dh_sum := dh_sum h + d, dh_count := dh_count h + 1, buckets := bucket_inc (buckets h) (getBucket d)\<rparr>"

text \<open>
  \<open>time.Duration(h.count)\<close> reinterprets the unsigned count, and the signed division truncates
  towards zero.
\<close>

definition Average :: "DurationHistogram \<Rightarrow> i64" where
  "Average h = (if dh_count h = 0 then 0 else word_of_int (sint (dh_sum h) sdiv sint (dh_count h)))"

definition Histogram_Snapshot :: "DurationHistogram \<Rightarrow> string \<rightharpoonup> u64" where
  "Histogram_Snapshot h = buckets h"

section \<open>Metrics\<close>

record Metrics =
  BackupsCreated :: u64
  BackupsFailed :: u64
  RestoresCompleted :: u64
  RestoresFailed :: u64
  BytesBackedUp :: u64
  BytesRestored :: u64
  ChunksStored :: u64
  ChunksFetched :: u64
  DeduplicatedChunks :: u64
  PeersConnected :: i64
  PeersDiscovered :: u64
  MessagesReceived :: u64
  MessagesSent :: u64
  ChunkRequestsReceived :: u64
  ChunkRequestsSent :: u64
  ChunkRequestsFailed :: u64
  TotalStorageUsed :: i64
  BlocksStored :: u64
  BlocksDeleted :: u64
  GarbageCollectionRuns :: u64
  BackupDuration :: DurationHistogram
  RestoreDuration :: DurationHistogram
  ChunkFetchDuration :: DurationHistogram
  TotalErrors :: u64
  NetworkErrors :: u64
  StorageErrors :: u64
  CryptoErrors :: u64

definition NewMetrics :: Metrics where
  "NewMetrics = \<lparr>BackupsCreated = 0, BackupsFailed = 0, RestoresCompleted = 0, RestoresFailed = 0,
     BytesBackedUp = 0, BytesRestored = 0, ChunksStored = 0, ChunksFetched = 0, DeduplicatedChunks = 0,
     PeersConnected = 0, PeersDiscovered = 0, MessagesReceived = 0, MessagesSent = 0,
     ChunkRequestsReceived = 0, ChunkRequestsSent = 0, ChunkRequestsFailed = 0,
     TotalStorageUsed = 0, BlocksStored = 0, BlocksDeleted = 0, GarbageCollectionRuns = 0,
     BackupDuration = NewDurationHistogram, RestoreDuration = NewDurationHistogram,
     ChunkFetchDuration = NewDurationHistogram,
     TotalErrors = 0, NetworkErrors = 0, StorageErrors = 0, CryptoErrors = 0\<rparr>"

definition RecordBackupCreated :: "u64 \<Rightarrow> i64 \<Rightarrow> Metrics \<Rightarrow> Metrics" where
  "RecordBackupCreated n duration m =
     m\<lparr>BackupsCreated := BackupsCreated m + 1, BytesBackedUp := BytesBackedUp m + n,
       BackupDuration := Observe duration (BackupDuration m)\<rparr>"

definition RecordBackupFailed :: "Metrics \<Rightarrow> Metrics" where
  "RecordBackupFailed m = m\<lparr>BackupsFailed := BackupsFailed m + 1, TotalErrors := TotalErrors m + 1\<rparr>"

definition RecordRestoreCompleted :: "u64 \<Rightarrow> i64 \<Rightarrow> Metrics \<Rightarrow> Metrics" where
  "RecordRestoreCompleted n duration m =
     m\<lparr>RestoresCompleted := RestoresCompleted m + 1, BytesRestored := BytesRestored m + n,
       RestoreDuration := Observe duration (RestoreDuration m)\<rparr>"

definition RecordRestoreFailed :: "Metrics \<Rightarrow> Metrics" where
  "RecordRestoreFailed m = m\<lparr>RestoresFailed := RestoresFailed m + 1, TotalErrors := TotalErrors m + 1\<rparr>"

definition RecordChunkStored :: "u64 \<Rightarrow> bool \<Rightarrow> Metrics \<Rightarrow> Metrics" where
  "RecordChunkStored sz deduplicated m =
     (let m = m\<lparr>ChunksStored := ChunksStored m + 1\<rparr> in
      if deduplicated then m\<lparr>DeduplicatedChunks := DeduplicatedChunks m + 1\<rparr>
      else m\<lparr>TotalStorageUsed := TotalStorageUsed m + sz, BlocksStored := BlocksStored m + 1\<rparr>)"

definition RecordChunkFetched :: "i64 \<Rightarrow> Metrics \<Rightarrow> Metrics" where
  "RecordChunkFetched duration m =
     m\<lparr>ChunksFetched := ChunksFetched m + 1, ChunkFetchDuration := Observe duration (ChunkFetchDuration m)\<rparr>"

definition RecordPeerConnected :: "Metrics \<Rightarrow> Metrics" where
  "RecordPeerConnected m = m\<lparr>PeersConnected := PeersConnected m + 1\<rparr>"

definition RecordPeerDisconnected :: "Metrics \<Rightarrow> Metrics" where
  "RecordPeerDisconnected m = m\<lparr>PeersConnected := PeersConnected m + - 1\<rparr>"

definition RecordPeerDiscovered :: "Metrics \<Rightarrow> Metrics" where
  "RecordPeerDiscovered m = m\<lparr>PeersDiscovered := PeersDiscovered m + 1\<rparr>"

definition RecordMessageReceived :: "Metrics \<Rightarrow> Metrics" where
  "RecordMessageReceived m = m\<lparr>MessagesReceived := MessagesReceived m + 1\<rparr>"

definition RecordMessageSent :: "Metrics \<Rightarrow> Metrics" where
  "RecordMessageSent m = m\<lparr>MessagesSent := MessagesSent m + 1\<rparr>"

definition RecordChunkRequest :: "bool \<Rightarrow> bool \<Rightarrow> Metrics \<Rightarrow> Metrics" where
  "RecordChunkRequest sent failed m =
     (let m = (if sent then m\<lparr>ChunkRequestsSent := ChunkRequestsSent m + 1\<rparr>
               else m\<lparr>ChunkRequestsReceived := ChunkRequestsReceived m + 1\<rparr>) in
      if failed then m\<lparr>ChunkRequestsFailed := ChunkRequestsFailed m + 1,
        NetworkErrors := NetworkErrors m + 1, TotalErrors := TotalErrors m + 1\<rparr>
      else m)"

definition RecordGarbageCollection :: "u64 \<Rightarrow> i64 \<Rightarrow> Metrics \<Rightarrow> Metrics" where
  "RecordGarbageCollection blocksDeleted bytesFreed m =
     m\<lparr>GarbageCollectionRuns := GarbageCollectionRuns m + 1, BlocksDeleted := BlocksDeleted m + blocksDeleted,
       TotalStorageUsed := TotalStorageUsed m + - bytesFreed\<rparr>"

definition RecordError :: "string \<Rightarrow> Metrics \<Rightarrow> Metrics" where
  "RecordError errorType m =
     (let m = m\<lparr>TotalErrors := TotalErrors m + 1\<rparr> in
      if errorType = ''network'' then m\<lparr>NetworkErrors := NetworkErrors m + 1\<rparr>
      else if errorType = ''storage'' then m\<lparr>StorageErrors := StorageErrors m + 1\<rparr>
      else if errorType = ''crypto'' then m\<lparr>CryptoErrors := CryptoErrors m + 1\<rparr>
      else m)"

section \<open>Sequences of recordings\<close>

datatype metrics_event =
    Backup_created u64 i64 | Backup_failed | Restore_completed u64 i64 | Restore_failed
  | Chunk_stored u64 bool | Chunk_fetched i64 | Peer_connected | Peer_disconnected | Peer_discovered
  | Message_received | Message_sent | Chunk_request bool bool | Garbage_collection u64 i64 | Error_of string

fun record_event :: "metrics_event \<Rightarrow> Metrics \<Rightarrow> Metrics" where
  "record_event (Backup_created n d) = RecordBackupCreated n d"
| "record_event Backup_failed = RecordBackupFailed"
| "record_event (Restore_completed n d) = RecordRestoreCompleted n d"
| "record_event Restore_failed = RecordRestoreFailed"
| "record_event (Chunk_stored n b) = RecordChunkStored n b"
| "record_event (Chunk_fetched d) = RecordChunkFetched d"
| "record_event Peer_connected = RecordPeerConnected"
| "record_event Peer_disconnected = RecordPeerDisconnected"
| "record_event Peer_discovered = RecordPeerDiscovered"
| "record_event Message_received = RecordMessageReceived"
| "record_event Message_sent = RecordMessageSent"
| "record_event (Chunk_request s f) = RecordChunkRequest s f"
| "record_event (Garbage_collection n b) = RecordGarbageCollection n b"
| "record_event (Error_of t) = RecordError t"

lemmas record_defs = RecordBackupCreated_def RecordBackupFailed_def RecordRestoreCompleted_def
  RecordRestoreFailed_def RecordChunkStored_def RecordChunkFetched_def RecordPeerConnected_def
  RecordPeerDisconnected_def RecordPeerDiscovered_def RecordMessageReceived_def RecordMessageSent_def
  RecordChunkRequest_def RecordGarbageCollection_def RecordError_def

definition bucket_names :: "string list" where
  "bucket_names = [''0-1s'', ''1-5s'', ''5-10s'', ''10-30s'', ''30-60s'', ''1-5m'', ''5m+'']"

definition bucket_total :: "(string \<rightharpoonup> u64) \<Rightarrow> u64" where
  "bucket_total m = sum_list (map (\<lambda>b. case m b of None \<Rightarrow> 0 | Some n \<Rightarrow> n) bucket_names)"

definition histogram_ok :: "DurationHistogram \<Rightarrow> bool" where
  "histogram_ok h \<longleftrightarrow> bucket_total (buckets h) = dh_count h \<and> dom (buckets h) \<subseteq> set bucket_names"

lemma getBucket_in: "getBucket d \<in> set bucket_names"
  by (simp add: getBucket_def bucket_names_def)

lemma distinct_bucket_names: "distinct bucket_names"
  by (simp add: bucket_names_def)

lemma sum_list_map_upd:
  fixes f :: "'a \<Rightarrow> 'b::ab_group_add"
  assumes "distinct xs" and "b \<in> set xs"
  shows "sum_list (map (f(b := f b + k)) xs) = sum_list (map f xs) + k"
  using assms by (induction xs) (auto simp: add.assoc add.commute add.left_commute intro!: arg_cong [where f = sum_list] map_cong)

lemma Observe_ok: "histogram_ok h \<Longrightarrow> histogram_ok (Observe d h)"
proof -
  assume ok: "histogram_ok h"
  let ?f = "\<lambda>b. case buckets h b of None \<Rightarrow> 0 | Some n \<Rightarrow> n"
  have "(\<lambda>b. case bucket_inc (buckets h) (getBucket d) b of None \<Rightarrow> 0 | Some n \<Rightarrow> n) =
      ?f(getBucket d := ?f (getBucket d) + 1)"
    by (simp add: bucket_inc_def fun_eq_iff)
  then have "bucket_total (bucket_inc (buckets h) (getBucket d)) = bucket_total (buckets h) + 1"
    unfolding bucket_total_def
    using sum_list_map_upd [OF distinct_bucket_names getBucket_in, where f = ?f and k = 1] by presburger
  with ok show ?thesis
    using getBucket_in [of d] by (auto simp: histogram_ok_def Observe_def bucket_inc_def)
qed

definition histograms_ok :: "Metrics \<Rightarrow> bool" where
  "histograms_ok m \<longleftrightarrow> histogram_ok (BackupDuration m) \<and> histogram_ok (RestoreDuration m) \<and>
     histogram_ok (ChunkFetchDuration m)"

text \<open>
  How the counters hang together: every error is counted once in the total and at most once in a class,
  every stored chunk is either new or deduplicated, every histogram has as many observations as its event
  has occurrences.
\<close>

fun unclassified :: "metrics_event \<Rightarrow> nat" where
  "unclassified (Error_of t) = (if t = ''network'' \<or> t = ''storage'' \<or> t = ''crypto'' then 0 else 1)"
| "unclassified _ = 0"

definition counters_ok :: "nat \<Rightarrow> Metrics \<Rightarrow> bool" where
  "counters_ok k m \<longleftrightarrow>
     TotalErrors m = BackupsFailed m + RestoresFailed m + NetworkErrors m + StorageErrors m + CryptoErrors m + of_nat k \<and>
     ChunksStored m = DeduplicatedChunks m + BlocksStored m \<and>
     dh_count (BackupDuration m) = BackupsCreated m \<and> dh_count (RestoreDuration m) = RestoresCompleted m \<and>
     dh_count (ChunkFetchDuration m) = ChunksFetched m"

lemma histograms_record: "histograms_ok m \<Longrightarrow> histograms_ok (record_event e m)"
  by (cases e) (simp_all add: histograms_ok_def record_defs Observe_ok Let_def)

lemma counters_record: "counters_ok k m \<Longrightarrow> counters_ok (unclassified e + k) (record_event e m)"
  by (cases e) (auto simp: counters_ok_def record_defs Observe_def Let_def)

section \<open>Properties\<close>

text \<open>
  C24. After any sequence of recording calls, in whatever order the goroutines make them: the total
  of errors is the sum of the failure and class counters plus the errors of an unknown class,
  stored chunks are the new ones plus the deduplicated ones, the number of observations of each
  histogram is the counter of its event, and its buckets add up to that number and are the seven
  documented ones; all modulo \<open>2^64\<close>.
\<close>

theorem metrics_invariant:
  "let m = fold record_event es NewMetrics in
     counters_ok (sum_list (map unclassified es)) m \<and> histograms_ok m"
proof -
  have "counters_ok (sum_list (map unclassified es) + k) (fold record_event es m) \<and>
      histograms_ok (fold record_event es m)" if "counters_ok k m" "histograms_ok m" for k m
    using that
  proof (induction es arbitrary: k m)
    case (Cons e es)
    from Cons.IH [OF counters_record [OF Cons.prems(1), of e] histograms_record [OF Cons.prems(2)]]
    show ?case by (simp add: ac_simps)
  qed simp
  moreover have "counters_ok 0 NewMetrics" "histograms_ok NewMetrics"
    by (simp_all add: counters_ok_def histograms_ok_def NewMetrics_def NewDurationHistogram_def
        histogram_ok_def bucket_total_def bucket_names_def)
  ultimately show ?thesis by (metis add_0_right)
qed

end
