(* ===== verification/SV_Sync.thy ===== *)
theory SV_Sync
  imports SV_Protocol SV_Metrics
begin

text \<open>
  \<open>internal/p2p/sync.go\<close>: fetching chunks from peers, answering and announcing.

  \<open>pnode\<close> is the state of an agent these functions work on: the database, the metrics, the map
  \<open>pendingFetches\<close> from hashes to response channels, the channels (each with room for one
  message) and the messages published so far. \<open>FetchChunk\<close> blocks in the middle, so it is two
  operations: \<open>FetchChunk_begin\<close> up to the \<open>select\<close>, and \<open>FetchChunk_end\<close> for the case
  the \<open>select\<close> takes; the other handlers may run in between. The topic of the publish/subscribe
  library and the JSON encoding of an envelope are parameters: \<open>publish\<close> and the record \<open>wire\<close>.
  Durations that only feed the histograms are arguments.
\<close>

record 'd pnode =
  pworld :: "'d world"
  metrics :: Metrics
  pendingFetches :: "string \<rightharpoonup> nat"
  chans :: "nat \<Rightarrow> bytes list"
  nchans :: nat
  outbox :: "bytes list"

record wire =
  marshal_request :: "ChunkRequest \<Rightarrow> gerror + bytes"
  marshal_response :: "ChunkResponse \<Rightarrow> gerror + bytes"
  marshal_announcement :: "SnapshotAnnouncement \<Rightarrow> gerror + bytes"

type_synonym publish = "bytes \<Rightarrow> gerror option"

record ChunkFetcher =
  cf_store :: Store
  cf_signerPub :: bytes
  cf_signerPriv :: bytes
  maxConcurrent :: int
  cf_timeout :: i64

section \<open>ChunkFetcher\<close>

definition NewChunkFetcher :: "Store \<Rightarrow> bytes \<Rightarrow> bytes \<Rightarrow> int \<Rightarrow> i64 \<Rightarrow> ChunkFetcher" where
  "NewChunkFetcher store signerPub signerPriv mc timeout =
     \<lparr>cf_store = store, cf_signerPub = signerPub, cf_signerPriv = signerPriv, maxConcurrent = mc,
      cf_timeout = timeout\<rparr>"

datatype fetch = Finished "(gerror + bytes) outcome" | Waiting nat

definition meter :: "(Metrics \<Rightarrow> Metrics) \<Rightarrow> 'd pnode \<Rightarrow> 'd pnode" where
  "meter f n = n\<lparr>metrics := f (metrics n)\<rparr>"

definition FetchChunk_begin :: "prims \<Rightarrow> 'd bolt \<Rightarrow> wire \<Rightarrow> publish \<Rightarrow> ChunkFetcher \<Rightarrow> i64 \<Rightarrow> string \<Rightarrow> string \<Rightarrow>
    'd pnode \<Rightarrow> fetch \<times> 'd pnode" where
  "FetchChunk_begin P B W pub cf dur hash peerID n =
     (case Store_Get B (pworld n) hash of
        Inr data \<Rightarrow> (Finished (Ret (Inr data)), meter (RecordChunkFetched dur) n)
      | Inl _ \<Rightarrow>
          (case Sign P (hash @ ''|'' @ peerID) (cf_signerPriv cf) of
             Panic m \<Rightarrow> (Finished (Panic m), meter (RecordChunkFetched dur) n)
           | Ret sig \<Rightarrow>
               (let req = \<lparr>cq_Hash = hash, cq_Requestor = peerID,
                  cq_SignerPub = base64_EncodeToString (cf_signerPub cf),
                  cq_Signature = base64_EncodeToString sig\<rparr>
                in case marshal_request W req of
                     Inl err \<Rightarrow> (Finished (Ret (Inl (Wrapf ''failed to encode request'' err))),
                       meter (RecordChunkFetched dur) n)
                   | Inr reqBytes \<Rightarrow>
                       (let ch = nchans n;
                            n = n\<lparr>nchans := Suc ch, chans := (chans n)(ch := []),
                                  pendingFetches := (pendingFetches n)(hash \<mapsto> ch)\<rparr>
                        in case pub reqBytes of
                             Some err \<Rightarrow>
                               (Finished (Ret (Inl (Wrapf ''failed to publish request'' err))),
                                meter (RecordChunkFetched dur)
                                  ((meter (RecordChunkRequest True True) n)\<lparr>pendingFetches := (pendingFetches n)(hash := None)\<rparr>))
                           | None \<Rightarrow>
                               (Waiting ch, (meter (RecordChunkRequest True False) n)\<lparr>outbox := outbox n @ [reqBytes]\<rparr>)))))"

datatype fetch_event = Response | Timed_out | Ctx_cancelled gerror

definition FetchChunk_end :: "i64 \<Rightarrow> string \<Rightarrow> nat \<Rightarrow> fetch_event \<Rightarrow> 'd pnode \<Rightarrow> (gerror + bytes) \<times> 'd pnode" where
  "FetchChunk_end dur hash ch ev n =
     (let (r, n') =
        (case ev of
           Response \<Rightarrow> (Inr (hd (chans n ch)), n\<lparr>chans := (chans n)(ch := tl (chans n ch))\<rparr>)
         | Timed_out \<Rightarrow> (Inl (ErrorString ''chunk fetch timeout''), meter (RecordChunkRequest True True) n)
         | Ctx_cancelled e \<Rightarrow> (Inl e, n))
      in (r, meter (RecordChunkFetched dur) (n'\<lparr>pendingFetches := (pendingFetches n')(hash := None)\<rparr>)))"

text \<open>The \<open>select\<close> can take the first case only when a message is there.\<close>

definition event_enabled :: "nat \<Rightarrow> fetch_event \<Rightarrow> 'd pnode \<Rightarrow> bool" where
  "event_enabled ch ev n \<longleftrightarrow> (ev = Response \<longrightarrow> chans n ch \<noteq> [])"

text \<open>A non-blocking send to the channel waiting for a hash, if there is one.\<close>

definition notify :: "string \<Rightarrow> bytes \<Rightarrow> 'd pnode \<Rightarrow> 'd pnode" where
  "notify hash data n =
     (case pendingFetches n hash of
        None \<Rightarrow> n
      | Some ch \<Rightarrow> (if chans n ch = [] then n\<lparr>chans := (chans n)(ch := [data])\<rparr> else n))"

definition HandleChunkResponse :: "prims \<Rightarrow> 'd bolt \<Rightarrow> ChunkResponse \<Rightarrow> 'd pnode \<Rightarrow> gerror option outcome \<times> 'd pnode" where
  "HandleChunkResponse P B resp n =
     (case ChunkResponse_Validate P resp of
        Panic m \<Rightarrow> (Panic m, n)
      | Ret (Some err) \<Rightarrow> (Ret (Some (Wrapf ''invalid chunk response'' err)), n)
      | Ret None \<Rightarrow>
          (case base64_DecodeString (cs_Data resp) of
             None \<Rightarrow> (Ret (Some (Wrapf ''failed to decode chunk data'' b64_error)), n)
           | Some data \<Rightarrow>
               (let actualHash = hex_EncodeToString (Hash P data) in
                if actualHash \<noteq> cs_Hash resp then (Ret (Some (ErrorString ''chunk hash mismatch'')), n)
                else
                  (case Store_Put B (pworld n) (cs_Hash resp) data of
                     (Some err, w) \<Rightarrow> (Ret (Some (Wrapf ''failed to store chunk'' err)), n\<lparr>pworld := w\<rparr>)
                   | (None, w) \<Rightarrow> (Ret None, notify (cs_Hash resp) data (n\<lparr>pworld := w\<rparr>))))))"

definition HandleChunkRequest :: "prims \<Rightarrow> 'd bolt \<Rightarrow> wire \<Rightarrow> publish \<Rightarrow> ChunkFetcher \<Rightarrow> ChunkRequest \<Rightarrow> 'd pnode \<Rightarrow>
    gerror option outcome \<times> 'd pnode" where
  "HandleChunkRequest P B W pub cf req n =
     (let n = meter (RecordChunkRequest False False) n in
      case ChunkRequest_Validate P req of
        Panic m \<Rightarrow> (Panic m, n)
      | Ret (Some err) \<Rightarrow>
          (Ret (Some (Wrapf ''invalid chunk request'' err)), meter (RecordChunkRequest False True) n)
      | Ret None \<Rightarrow>
          (case Store_Get B (pworld n) (cq_Hash req) of
             Inl _ \<Rightarrow> (Ret None, n)
           | Inr data \<Rightarrow>
               (let d = base64_EncodeToString data in
                case Sign P (cq_Hash req @ ''|'' @ d) (cf_signerPriv cf) of
                  Panic m \<Rightarrow> (Panic m, n)
                | Ret sig \<Rightarrow>
                    (case marshal_response W \<lparr>cs_Hash = cq_Hash req, cs_Data = d,
                             cs_SignerPub = base64_EncodeToString (cf_signerPub cf),
                             cs_Signature = base64_EncodeToString sig\<rparr> of
                       Inl err \<Rightarrow> (Ret (Some (Wrapf ''failed to encode response'' err)),
                         meter (RecordChunkRequest False True) n)
                     | Inr respBytes \<Rightarrow>
                         (case pub respBytes of
                            Some err \<Rightarrow> (Ret (Some (Wrapf ''failed to publish response'' err)),
                              meter (RecordChunkRequest False True) n)
                          | None \<Rightarrow> (Ret None, n\<lparr>outbox := outbox n @ [respBytes]\<rparr>))))))"

section \<open>SnapshotSyncer\<close>

definition BroadcastSnapshot :: "wire \<Rightarrow> publish \<Rightarrow> Snapshot \<Rightarrow> 'd pnode \<Rightarrow> gerror option \<times> 'd pnode" where
  "BroadcastSnapshot W pub snapshot n =
     (case marshal_announcement W \<lparr>sa_Snapshot = snapshot\<rparr> of
        Inl err \<Rightarrow> (Some (Wrapf ''failed to encode announcement'' err), n)
      | Inr annBytes \<Rightarrow>
          (case pub annBytes of
             Some err \<Rightarrow> (Some (Wrapf ''failed to publish announcement'' err), n)
           | None \<Rightarrow> (None, meter RecordMessageSent (n\<lparr>outbox := outbox n @ [annBytes]\<rparr>))))"

text \<open>
  The goroutine of \<open>HandleSnapshotAnnouncement\<close>: the hashes it starts a fetch for, in order,
  repeated as often as the snapshot repeats them. Making the semaphore panics for a negative capacity.
\<close>

definition fetchMissingChunks :: "'d bolt \<Rightarrow> ChunkFetcher \<Rightarrow> Snapshot \<Rightarrow> 'd pnode \<Rightarrow> string list outcome" where
  "fetchMissingChunks B cf snapshot n =
     (if maxConcurrent cf < 0 then Panic ''makechan: size out of range''
      else Ret (filter (\<lambda>chunkHash. case Store_Get B (pworld n) chunkHash of Inr _ \<Rightarrow> False | Inl _ \<Rightarrow> True)
        (Chunks snapshot)))"

text \<open>A call returns its error and the snapshot whose chunks the new goroutine fetches, if it starts one.\<close>

definition HandleSnapshotAnnouncement :: "prims \<Rightarrow> codec \<Rightarrow> SnapshotAnnouncement \<Rightarrow>
    (gerror option \<times> Snapshot option) outcome" where
  "HandleSnapshotAnnouncement P C ann =
     (case SnapshotAnnouncement_Validate P C ann of
        Panic m \<Rightarrow> Panic m
      | Ret (Some err) \<Rightarrow> Ret (Some (Wrapf ''invalid announcement'' err), None)
      | Ret None \<Rightarrow> Ret (None, Some (sa_Snapshot ann)))"

section \<open>What a response does\<close>

lemma FetchChunk_begin_Waiting:
  assumes "FetchChunk_begin P B W pub cf dur hash peerID n = (Waiting ch, n1)"
  shows "ch = nchans n" and "pworld n1 = pworld n" and "nchans n1 = Suc (nchans n)"
    and "chans n1 = (chans n)(ch := [])" and "pendingFetches n1 = (pendingFetches n)(hash \<mapsto> ch)"
    and "length (outbox n1) = Suc (length (outbox n))"
    and "metrics n1 = RecordChunkRequest True False (metrics n)"
  using assms
  by (auto simp: FetchChunk_begin_def Let_def meter_def split: sum.splits outcome.splits option.splits)

context bolt_db
begin

lemma HandleChunkResponse_accepts:
  assumes "world_ready B (pworld n)" and "HandleChunkResponse P B resp n = (Ret None, n')"
  obtains data where "ChunkResponse_Validate P resp = Ret None"
    and "base64_DecodeString (cs_Data resp) = Some data" and "hash_str P data = cs_Hash resp"
    and "world_ready B (pworld n')" and "Blocks B (pworld n') = (Blocks B (pworld n))(cs_Hash resp \<mapsto> data)"
    and "other_buckets B (pworld n') = other_buckets B (pworld n)"
    and "n' = notify (cs_Hash resp) data (n\<lparr>pworld := pworld n'\<rparr>)"
proof -
  from assms(2) obtain data w where v: "ChunkResponse_Validate P resp = Ret None"
    and d: "base64_DecodeString (cs_Data resp) = Some data" "hash_str P data = cs_Hash resp"
    and put: "Store_Put B (pworld n) (cs_Hash resp) data = (None, w)"
    and n': "n' = notify (cs_Hash resp) data (n\<lparr>pworld := w\<rparr>)"
    by (auto simp: HandleChunkResponse_def Let_def split: outcome.splits option.splits if_splits prod.splits)
  have "pworld n' = w" by (simp add: n' notify_def split: option.splits)
  with store.put_law [OF assms(1) put] n' that [OF v d] show ?thesis by simp
qed

lemma HandleChunkResponse_rejects:
  assumes "HandleChunkResponse P B resp n = (r, n')" and "r \<noteq> Ret None"
  shows "n' = n"
proof -
  have "w = pworld n" if "Store_Put B (pworld n) h d = (Some e, w)" for h d e w
    using store.put_err that by blast
  with assms show ?thesis
    by (fastforce simp: HandleChunkResponse_def Let_def split: outcome.splits option.splits if_splits prod.splits)
qed

lemma fetch_answered:
  assumes "world_ready B (pworld n)"
    and "FetchChunk_begin P B W pub cf dur hash peerID n = (Waiting ch, n1)"
    and "HandleChunkResponse P B resp n1 = (Ret None, n2)" and "cs_Hash resp = hash"
  shows "event_enabled ch Response n2 \<and>
    (\<exists>data n3. FetchChunk_end dur' hash ch Response n2 = (Inr data, n3) \<and> hash_str P data = hash \<and>
       Store_Get B (pworld n3) hash = Inr data \<and> pendingFetches n3 hash = None)"
proof -
  have n1: "pworld n1 = pworld n" "pendingFetches n1 hash = Some ch" "chans n1 ch = []"
    by (simp_all add: FetchChunk_begin_Waiting [OF assms(2)])
  obtain data where d: "hash_str P data = hash" and rdy: "world_ready B (pworld n2)"
    and b: "Blocks B (pworld n2) hash = Some data"
    and n2: "n2 = notify hash data (n1\<lparr>pworld := pworld n2\<rparr>)"
    using HandleChunkResponse_accepts [OF _ assms(3)] assms(1,4) n1(1) by (metis fun_upd_same)
  have ch: "chans n2 ch = [data]" by (subst n2) (simp add: notify_def n1)
  with d rdy b show ?thesis
    by (simp add: event_enabled_def FetchChunk_end_def meter_def store.get_law)
qed

end

section \<open>What a peer answers\<close>

context store_env
begin

lemma request_answered:
  assumes "ed_generate P r = Some (cf_signerPub cf, cf_signerPriv cf)"
    and "world_ready B (pworld n)" and "ChunkRequest_Validate P req = Ret None"
    and "Blocks B (pworld n) (cq_Hash req) = Some data"
    and "\<And>resp. \<exists>b. marshal_response W resp = Inr b" and "\<And>b. pub b = None"
  obtains resp b n' where "HandleChunkRequest P B W pub cf req n = (Ret None, n')"
    and "marshal_response W resp = Inr b" and "outbox n' = outbox n @ [b]"
    and "cs_Hash resp = cq_Hash req" and "base64_DecodeString (cs_Data resp) = Some data"
    and "ChunkResponse_Validate P resp = Ret None" and "pworld n' = pworld n"
proof -
  let ?d = "base64_EncodeToString data"
  have len: "length (cf_signerPriv cf) = 64" using crypto.ed_keypair [OF assms(1)] by blast
  then obtain sig where sig: "Sign P (cq_Hash req @ ''|'' @ ?d) (cf_signerPriv cf) = Ret sig"
    by (simp add: Sign_def size_defs)
  let ?resp = "\<lparr>cs_Hash = cq_Hash req, cs_Data = ?d, cs_SignerPub = base64_EncodeToString (cf_signerPub cf),
    cs_Signature = base64_EncodeToString sig\<rparr>"
  from assms(5) obtain b where b: "marshal_response W ?resp = Inr b" by blast
  have "Store_Get B (pworld n) (cq_Hash req) = Inr data" using assms(2,4) by (simp add: db.store.get_law)
  then have "HandleChunkRequest P B W pub cf req n =
      (Ret None, (meter (RecordChunkRequest False False) n)\<lparr>outbox := outbox n @ [b]\<rparr>)"
    using assms(3,6) sig b by (simp add: HandleChunkRequest_def Let_def meter_def)
  moreover have "ChunkResponse_Validate P ?resp = Ret None"
    using sig by (intro chunk_response.signed_accepted [OF crypto.crypto_prims_axioms assms(1)]) simp_all
  ultimately show ?thesis using b that [of _ ?resp b] by (simp add: meter_def)
qed

end

section \<open>A concrete node\<close>

definition ref_wire :: wire where
  "ref_wire = \<lparr>marshal_request = (\<lambda>q. Inr (cq_Hash q @ cq_Requestor q)),
     marshal_response = (\<lambda>r. Inr (cs_Hash r @ cs_Data r)),
     marshal_announcement = (\<lambda>a. Inr (ID (sa_Snapshot a)))\<rparr>"

definition wit_node :: "'d world \<Rightarrow> 'd pnode" where
  "wit_node w = \<lparr>pworld = w, metrics = NewMetrics, pendingFetches = Map.empty, chans = (\<lambda>_. []), nchans = 0, outbox = []\<rparr>"

definition wit_fetcher :: ChunkFetcher where
  "wit_fetcher = NewChunkFetcher wit_store wit_pub wit_priv 4 0"

lemma wit_fetcher_keys: "ed_generate ref_prims 0 = Some (cf_signerPub wit_fetcher, cf_signerPriv wit_fetcher)"
  by (simp add: wit_fetcher_def NewChunkFetcher_def wit_keys)

definition wit_response :: ChunkResponse where
  "wit_response = \<lparr>cs_Hash = hash_str ref_prims ''hello'', cs_Data = base64_EncodeToString ''hello'',
     cs_SignerPub = base64_EncodeToString wit_pub,
     cs_Signature = base64_EncodeToString (ed_sign ref_prims wit_priv (hash_str ref_prims ''hello'' @ ''|'' @ base64_EncodeToString ''hello''))\<rparr>"

lemma wit_response_fields:
  "cs_Hash wit_response = hash_str ref_prims ''hello''" "base64_DecodeString (cs_Data wit_response) = Some ''hello''"
  by (simp_all only: wit_response_def ChunkResponse.select_convs base64_round_trip)

lemma wit_response_valid: "ChunkResponse_Validate ref_prims wit_response = Ret None"
  by (rule chunk_response.signed_accepted [OF ref.crypto_prims_axioms wit_keys])
    (simp_all add: Sign_def size_defs wit_priv_def wit_response_def)

lemma mem_put_ok:
  assumes "world_ready mem_bolt w" and "h \<noteq> []" and "length h \<le> 32768" and "length v \<le> 2147483646"
  obtains w' where "Store_Put mem_bolt w h v = (None, w')"
proof -
  from assms(1) have "tx_bucket mem_bolt (wdb w) BucketBlocks" and b: "tx_begin mem_bolt (wdb w) = None"
    by (simp_all add: world_ready_def)
  from mem.put_ok [OF this(1) assms(2-4)] obtain d where "tx_put mem_bolt (wdb w) BucketBlocks h v = Inr d" ..
  moreover obtain d' where "tx_commit mem_bolt d = Inr d'" using mem_commits by blast
  ultimately show ?thesis using that b by (simp add: Store_Put_def DB_Update_def)
qed

lemma wit_response_accepted:
  assumes "world_ready mem_bolt (pworld n)"
  obtains n' where "HandleChunkResponse ref_prims mem_bolt wit_response n = (Ret None, n')"
proof -
  obtain w' where "Store_Put mem_bolt (pworld n) (hash_str ref_prims ''hello'') ''hello'' = (None, w')"
    using mem_put_ok [OF assms, of "hash_str ref_prims ''hello''" "''hello''"] ref.hash_str_length [of "''hello''"]
      ref.hash_str_nonempty [of "''hello''"] by auto
  then have "HandleChunkResponse ref_prims mem_bolt wit_response n =
      (Ret None, notify (hash_str ref_prims ''hello'') ''hello'' (n\<lparr>pworld := w'\<rparr>))"
    using wit_response_valid by (simp add: HandleChunkResponse_def wit_response_fields)
  with that show ?thesis by blast
qed

lemma wit_fetch_begins:
  assumes "pworld n = wit_world"
  shows "\<exists>n1. FetchChunk_begin ref_prims mem_bolt ref_wire (\<lambda>_. None) wit_fetcher dur (hash_str ref_prims ''hello'') ''me''
     n = (Waiting (nchans n), n1) \<and> pworld n1 = wit_world"
  using wit_fresh assms
  by (simp add: FetchChunk_begin_def mem.store.get_law [OF wit_ready] Sign_def size_defs wit_fetcher_def
      NewChunkFetcher_def wit_priv_def ref_wire_def Let_def meter_def)

definition wit_request :: ChunkRequest where
  "wit_request = \<lparr>cq_Hash = hash_str ref_prims ''hello'', cq_Requestor = ''me'', cq_SignerPub = base64_EncodeToString wit_pub,
     cq_Signature = base64_EncodeToString (ed_sign ref_prims wit_priv (hash_str ref_prims ''hello'' @ ''|'' @ ''me''))\<rparr>"

lemma wit_request_valid: "ChunkRequest_Validate ref_prims wit_request = Ret None"
  by (rule chunk_request.signed_accepted [OF ref.crypto_prims_axioms wit_keys])
    (simp_all add: Sign_def size_defs wit_priv_def wit_request_def)

section \<open>Properties\<close>

text \<open>
  C10. Only data with the right hash is stored: if \<open>HandleChunkResponse\<close> succeeds, the response
  carried a verified signature and data whose SHA-256 is the hash it names; exactly that entry of
  the store is written. In every other case, errors and panics included, nothing changes at all.
\<close>

theorem HandleChunkResponse_integrity:
  assumes "bolt_db B" and "world_ready B (pworld n)" and "HandleChunkResponse P B resp n = (r, n')"
  shows "if r = Ret None
    then ChunkResponse_Validate P resp = Ret None \<and>
      (\<exists>data. base64_DecodeString (cs_Data resp) = Some data \<and> hash_str P data = cs_Hash resp \<and>
         Blocks B (pworld n') = (Blocks B (pworld n))(cs_Hash resp \<mapsto> data)) \<and>
      other_buckets B (pworld n') = other_buckets B (pworld n)
    else n' = n"
proof (cases "r = Ret None")
  case True
  with assms(3) show ?thesis
    by (auto intro: bolt_db.HandleChunkResponse_accepts [OF assms(1,2)])
next
  case False
  with bolt_db.HandleChunkResponse_rejects [OF assms(1,3)] show ?thesis by simp
qed

theorem HandleChunkResponse_integrity_witness:
  "\<exists>n'. HandleChunkResponse ref_prims mem_bolt wit_response (wit_node wit_world) = (Ret None, n') \<and>
     (\<exists>data. hash_str ref_prims data = hash_str ref_prims ''hello'' \<and>
        Blocks mem_bolt (pworld n') = [hash_str ref_prims ''hello'' \<mapsto> data])"
proof -
  have rdy: "world_ready mem_bolt (pworld (wit_node wit_world))" using wit_ready by (simp add: wit_node_def)
  then obtain n' where n': "HandleChunkResponse ref_prims mem_bolt wit_response (wit_node wit_world) = (Ret None, n')"
    by (rule wit_response_accepted)
  have "Blocks mem_bolt (pworld (wit_node wit_world)) = Map.empty" using wit_fresh by (simp add: fun_eq_iff wit_node_def)
  with HandleChunkResponse_integrity [OF mem.bolt_db_axioms rdy n'] n' show ?thesis
    by (auto simp: wit_response_fields)
qed



text \<open>
  C39. Peers reject each other's chunks: for a valid request, an agent whose stored block decrypts to the
  data it is named after publishes a correctly signed response with that block, and every agent that
  handles the response refuses it with a hash mismatch and stores nothing, unless SHA-256 collides. The block is
  a ciphertext, the requested name is the hash of the plaintext.
\<close>

theorem peers_reject_genuine_chunks:
  assumes "store_env B P (cf_store cf)" and "ed_generate P r = Some (cf_signerPub cf, cf_signerPriv cf)"
    and "world_ready B (pworld n)" and "blocks_named P B (cf_store cf) (pworld n)"
    and "inj_on (hash_str P) (ran (Plain P B (cf_store cf) (pworld n)) \<union> ran (Blocks B (pworld n)))"
    and "ChunkRequest_Validate P req = Ret None" and "Store_Exists B (pworld n) (cq_Hash req)"
    and "\<And>resp. \<exists>b. marshal_response W resp = Inr b" and "\<And>b. pub b = None"
  shows "\<exists>n' resp b. HandleChunkRequest P B W pub cf req n = (Ret None, n') \<and>
    outbox n' = outbox n @ [b] \<and> marshal_response W resp = Inr b \<and>
    cs_Hash resp = cq_Hash req \<and> ChunkResponse_Validate P resp = Ret None \<and>
    (\<forall>B' peer. HandleChunkResponse P B' resp peer = (Ret (Some (ErrorString ''chunk hash mismatch'')), peer))"
proof -
  from assms(7) obtain data where data: "Blocks B (pworld n) (cq_Hash req) = Some data"
    by (auto simp: Store_Exists_def DB_View_def split: option.splits sum.splits if_splits)
  note differs = store_env.stored_hash_differs [OF assms(1,4,5) data]
  obtain resp b n' where "HandleChunkRequest P B W pub cf req n = (Ret None, n')"
    "marshal_response W resp = Inr b" "outbox n' = outbox n @ [b]" "cs_Hash resp = cq_Hash req"
    and d: "base64_DecodeString (cs_Data resp) = Some data" and v: "ChunkResponse_Validate P resp = Ret None"
    by (rule store_env.request_answered [OF assms(1,2,3,6) data assms(8,9)])
  moreover from this have "HandleChunkResponse P B' resp peer = (Ret (Some (ErrorString ''chunk hash mismatch'')), peer)" for B' peer
    using differs by (simp add: HandleChunkResponse_def)
  ultimately show ?thesis by blast
qed

theorem peers_reject_genuine_chunks_witness:
  "\<exists>n n' resp b. HandleChunkRequest ref_prims mem_bolt ref_wire (\<lambda>_. None) wit_fetcher wit_request n = (Ret None, n') \<and>
    outbox n' = outbox n @ [b] \<and> marshal_response ref_wire resp = Inr b \<and>
    (\<forall>peer. HandleChunkResponse ref_prims mem_bolt resp peer = (Ret (Some (ErrorString ''chunk hash mismatch'')), peer))"
proof -
  obtain w sn where w: "world_ready mem_bolt w" "Store_Exists mem_bolt w (hash_str ref_prims ''hello'')"
    "blocks_named ref_prims mem_bolt wit_store w"
    "inj_on (hash_str ref_prims) (ran (Plain ref_prims mem_bolt wit_store w) \<union> ran (Blocks mem_bolt w))"
    by (rule wit_good)
  have st: "cf_store wit_fetcher = wit_store" by (simp add: wit_fetcher_def NewChunkFetcher_def)
  have node: "pworld (wit_node w) = w" by (simp add: wit_node_def)
  have "\<exists>n' resp b. HandleChunkRequest ref_prims mem_bolt ref_wire (\<lambda>_. None) wit_fetcher wit_request (wit_node w) = (Ret None, n') \<and>
    outbox n' = outbox (wit_node w) @ [b] \<and> marshal_response ref_wire resp = Inr b \<and>
    cs_Hash resp = cq_Hash wit_request \<and> ChunkResponse_Validate ref_prims resp = Ret None \<and>
    (\<forall>B' peer. HandleChunkResponse ref_prims B' resp peer = (Ret (Some (ErrorString ''chunk hash mismatch'')), peer))"
    by (rule peers_reject_genuine_chunks [OF _ wit_fetcher_keys])
      (simp_all add: st node w wit.store_env_axioms wit_request_valid, simp_all add: wit_request_def w ref_wire_def)
  then show ?thesis by blast
qed

text \<open>
  Two fetches of one hash: when a second \<open>FetchChunk\<close> of the same hash starts while the
  first one waits, it replaces the first one's channel; an accepted response wakes the second, and the
  first one's channel stays empty, so that it can only time out or be cancelled.
\<close>

theorem concurrent_fetch_loses_wakeup:
  assumes "bolt_db B" and "world_ready B (pworld n)"
    and "FetchChunk_begin P B W pub cf d1 hash p1 n = (Waiting c1, n1)"
    and "FetchChunk_begin P B W pub cf d2 hash p2 n1 = (Waiting c2, n2)"
    and "HandleChunkResponse P B resp n2 = (Ret None, n3)" and "cs_Hash resp = hash"
  shows "event_enabled c2 Response n3 \<and> \<not> event_enabled c1 Response n3 \<and>
    event_enabled c1 Timed_out n3 \<and> fst (FetchChunk_end d3 hash c1 Timed_out n3) = Inl (ErrorString ''chunk fetch timeout'')"
proof -
  note begins = FetchChunk_begin_Waiting [OF assms(3)] FetchChunk_begin_Waiting [OF assms(4)]
  from assms(2) begins have "world_ready B (pworld n2)" by simp
  from bolt_db.HandleChunkResponse_accepts [OF assms(1) this assms(5)] assms(6)
  obtain data where n3: "n3 = notify hash data (n2\<lparr>pworld := pworld n3\<rparr>)" by metis
  have "chans n3 c2 = [data]" "chans n3 c1 = []"
    by (subst n3, simp add: notify_def begins)+
  then show ?thesis by (simp add: event_enabled_def FetchChunk_end_def Let_def)
qed

theorem concurrent_fetch_loses_wakeup_witness:
  "\<exists>n1 n2 n3. FetchChunk_begin ref_prims mem_bolt ref_wire (\<lambda>_. None) wit_fetcher 0 (hash_str ref_prims ''hello'') ''me''
     (wit_node wit_world) = (Waiting 0, n1) \<and>
     FetchChunk_begin ref_prims mem_bolt ref_wire (\<lambda>_. None) wit_fetcher 0 (hash_str ref_prims ''hello'') ''me'' n1 = (Waiting 1, n2) \<and>
     HandleChunkResponse ref_prims mem_bolt wit_response n2 = (Ret None, n3) \<and> \<not> event_enabled 0 Response n3"
proof -
  let ?h = "hash_str ref_prims ''hello''"
  obtain n1 where n1: "FetchChunk_begin ref_prims mem_bolt ref_wire (\<lambda>_. None) wit_fetcher 0 ?h ''me'' (wit_node wit_world) = (Waiting 0, n1)"
    using wit_fetch_begins [of "wit_node wit_world" 0] by (auto simp: wit_node_def)
  note b1 = FetchChunk_begin_Waiting [OF n1]
  then obtain n2 where n2: "FetchChunk_begin ref_prims mem_bolt ref_wire (\<lambda>_. None) wit_fetcher 0 ?h ''me'' n1 = (Waiting 1, n2)"
    using wit_fetch_begins [of n1 0] by (auto simp: wit_node_def)
  note b2 = FetchChunk_begin_Waiting [OF n2]
  have "world_ready mem_bolt (pworld n2)" using b1 b2 wit_ready by (simp add: wit_node_def)
  then obtain n3 where n3: "HandleChunkResponse ref_prims mem_bolt wit_response n2 = (Ret None, n3)"
    by (rule wit_response_accepted)
  from concurrent_fetch_loses_wakeup [OF mem.bolt_db_axioms _ n1 n2 n3 wit_response_fields(1), of 0] n1 n2 n3 wit_ready
  show ?thesis by (auto simp: wit_node_def)
qed

text \<open>
  The request counters: a fetch that published its request and then timed out is one request on the
  wire, but the metrics count two requests sent and one failed.
\<close>

theorem timeout_counts_request_twice:
  assumes "FetchChunk_begin P B W pub cf d1 hash p n = (Waiting ch, n1)"
    and "FetchChunk_end d2 hash ch Timed_out n1 = (r, n2)"
  shows "length (outbox n2) = Suc (length (outbox n)) \<and>
    ChunkRequestsSent (metrics n2) = ChunkRequestsSent (metrics n) + 2 \<and>
    ChunkRequestsFailed (metrics n2) = ChunkRequestsFailed (metrics n) + 1"
  using FetchChunk_begin_Waiting [OF assms(1)] assms(2)
  by (auto simp: FetchChunk_end_def Let_def meter_def RecordChunkRequest_def RecordChunkFetched_def)

theorem timeout_counts_request_twice_witness:
  "\<exists>n1 n2 r. FetchChunk_begin ref_prims mem_bolt ref_wire (\<lambda>_. None) wit_fetcher 0 (hash_str ref_prims ''hello'') ''me''
     (wit_node wit_world) = (Waiting 0, n1) \<and>
     FetchChunk_end 0 (hash_str ref_prims ''hello'') 0 Timed_out n1 = (r, n2) \<and> ChunkRequestsSent (metrics n2) = 2"
proof -
  let ?h = "hash_str ref_prims ''hello''"
  obtain n1 where n1: "FetchChunk_begin ref_prims mem_bolt ref_wire (\<lambda>_. None) wit_fetcher 0 ?h ''me'' (wit_node wit_world) = (Waiting 0, n1)"
    using wit_fetch_begins [of "wit_node wit_world" 0] by (auto simp: wit_node_def)
  obtain r n2 where n2: "FetchChunk_end 0 ?h 0 Timed_out n1 = (r, n2)" by (metis surj_pair)
  from timeout_counts_request_twice [OF n1 n2] n1 n2 show ?thesis
    by (auto simp: wit_node_def NewMetrics_def)
qed

end
