(* ===== verification/SV_Config.thy ===== *)
theory SV_Config
  imports SV_Chunker
begin

text \<open>
  \<open>config/config.go\<close>: loading, overriding, completing and validating the configuration.

  The configuration is a record of records as in the source. Integers and durations (in nanoseconds) are
  only compared and set, so they are \<open>int\<close>. The YAML decoder is a third-party package and
  an argument of \<open>Load\<close>, as are the contents of the file and the environment. Lower-casing is
  exact on ASCII strings; beyond them it depends on the Unicode tables, an argument.
\<close>

section \<open>The configuration\<close>

record NATConfig =
  EnableAutoRelay :: bool
  EnableHolePunching :: bool

record SnapshotConfig =
  MinChunkSize :: int
  MaxChunkSize :: int
  AvgChunkSize :: int
  Compression :: bool

record ACLConfig =
  Admins :: "string list"

record P2PConfig =
  MaxPeers :: int
  ConnectionTimeout :: int
  DiscoveryInterval :: int
  HeartbeatInterval :: int
  MaxConcurrentFetch :: int
  ChunkFetchTimeout :: int
  ReconnectBackoff :: int
  MaxReconnectBackoff :: int

record StorageConfig =
  MaxCacheSize :: int
  GCInterval :: int
  RetentionDays :: int
  VerifyOnRestore :: bool
  EnableDeduplication :: bool

record MonitoringConfig =
  EnableMetrics :: bool
  MetricsPort :: int
  EnableProfiling :: bool
  ProfilingPort :: int
  HealthCheckPort :: int
  LogLevel :: string
  LogFormat :: string
  EnableTracing :: bool
  TracingEndpoint :: string

record SchedulerConfig =
  EnableAutoBackup :: bool
  BackupInterval :: int
  BackupPaths :: "string list"
  MaxBackupRetries :: int

record SecurityConfig =
  EnableRateLimiting :: bool
  RequestsPerSecond :: int
  BurstSize :: int
  EnableIPWhitelist :: bool
  WhitelistedIPs :: "string list"
  MaxRequestSize :: int

record Config =
  RepositoryPath :: string
  ListenPort :: int
  PeerBootstrap :: "string list"
  NATTraversal :: NATConfig
  cfg_Snapshot :: SnapshotConfig
  cfg_ACL :: ACLConfig
  cfg_P2P :: P2PConfig
  cfg_Storage :: StorageConfig
  cfg_Monitoring :: MonitoringConfig
  cfg_Scheduler :: SchedulerConfig
  cfg_Security :: SecurityConfig

section \<open>The parts of the standard library it uses\<close>

text \<open>
  \<open>strconv.Atoi\<close>: an optional sign and at least one digit, within 64 bits.
\<close>

definition is_digit :: "char \<Rightarrow> bool" where
  "is_digit c \<longleftrightarrow> 48 \<le> byte_val c \<and> byte_val c \<le> 57"

definition strconv_Atoi :: "string \<Rightarrow> int option" where
  "strconv_Atoi s =
     (let (neg, ds) = (case s of
            [] \<Rightarrow> (False, [])
          | c # cs \<Rightarrow> (if c = CHR ''-'' then (True, cs) else if c = CHR ''+'' then (False, cs) else (False, s)))
      in if ds = [] \<or> \<not> list_all is_digit ds then None
         else (let v = int (undecimal ds); n = (if neg then - v else v) in
               if - (2 ^ 63) \<le> n \<and> n < 2 ^ 63 then Some n else None))"

text \<open>\<open>strings.Split(s, ",")\<close>.\<close>

fun split_comma :: "string \<Rightarrow> string list" where
  "split_comma [] = [[]]"
| "split_comma (c # cs) =
     (if c = CHR '','' then [] # split_comma cs
      else (case split_comma cs of [] \<Rightarrow> [[c]] | p # ps \<Rightarrow> (c # p) # ps))"

definition ascii_lower :: "char \<Rightarrow> char" where
  "ascii_lower c = (if 65 \<le> byte_val c \<and> byte_val c \<le> 90 then byte_of (byte_val c + 32) else c)"

definition strings_ToLower :: "(string \<Rightarrow> string) \<Rightarrow> string \<Rightarrow> string" where
  "strings_ToLower unicode_lower s =
     (if list_all (\<lambda>c. byte_val c < 128) s then map ascii_lower s else unicode_lower s)"

section \<open>config.go\<close>

definition applyEnvironmentOverrides :: "(string \<Rightarrow> string) \<Rightarrow> Config \<Rightarrow> Config" where
  "applyEnvironmentOverrides getenv c0 =
     (let val = getenv ''SHADOWVAULT_REPO_PATH'';
          c1 = (if val \<noteq> [] then c0\<lparr>RepositoryPath := val\<rparr> else c0);
          val = getenv ''SHADOWVAULT_LISTEN_PORT'';
          c2 = (if val \<noteq> [] then (case strconv_Atoi val of Some port \<Rightarrow> c1\<lparr>ListenPort := port\<rparr> | None \<Rightarrow> c1) else c1);
          val = getenv ''SHADOWVAULT_LOG_LEVEL'';
          c3 = (if val \<noteq> [] then c2\<lparr>cfg_Monitoring := (cfg_Monitoring c2)\<lparr>LogLevel := val\<rparr>\<rparr> else c2);
          val = getenv ''SHADOWVAULT_LOG_FORMAT'';
          c4 = (if val \<noteq> [] then c3\<lparr>cfg_Monitoring := (cfg_Monitoring c3)\<lparr>LogFormat := val\<rparr>\<rparr> else c3);
          val = getenv ''SHADOWVAULT_METRICS_PORT'';
          c5 = (if val \<noteq> []
                then (case strconv_Atoi val of
                        Some port \<Rightarrow> c4\<lparr>cfg_Monitoring := (cfg_Monitoring c4)\<lparr>MetricsPort := port\<rparr>\<rparr>
                      | None \<Rightarrow> c4)
                else c4);
          val = getenv ''SHADOWVAULT_BOOTSTRAP_PEERS'';
          c6 = (if val \<noteq> [] then c5\<lparr>PeerBootstrap := split_comma val\<rparr> else c5);
          val = getenv ''SHADOWVAULT_ENABLE_COMPRESSION''
      in if val \<noteq> []
         then c6\<lparr>cfg_Snapshot := (cfg_Snapshot c6)\<lparr>Compression := (val = ''true'' \<or> val = ''1'')\<rparr>\<rparr>
         else c6)"

definition or_default :: "int \<Rightarrow> int \<Rightarrow> int" where
  "or_default x d = (if x = 0 then d else x)"

definition or_default_str :: "string \<Rightarrow> string \<Rightarrow> string" where
  "or_default_str s d = (if s = [] then d else s)"

definition Second :: int where "Second = 1000000000"
definition Minute :: int where "Minute = 60 * Second"
definition Hour :: int where "Hour = 60 * Minute"

definition snapshot_defaults :: "SnapshotConfig \<Rightarrow> SnapshotConfig" where
  "snapshot_defaults s = s\<lparr>MinChunkSize := or_default (MinChunkSize s) 2048,
     MaxChunkSize := or_default (MaxChunkSize s) 65536, AvgChunkSize := or_default (AvgChunkSize s) 8192\<rparr>"

definition p2p_defaults :: "P2PConfig \<Rightarrow> P2PConfig" where
  "p2p_defaults p = p\<lparr>MaxPeers := or_default (MaxPeers p) 50,
     ConnectionTimeout := or_default (ConnectionTimeout p) (30 * Second),
     DiscoveryInterval := or_default (DiscoveryInterval p) (5 * Minute),
     HeartbeatInterval := or_default (HeartbeatInterval p) (30 * Second),
     MaxConcurrentFetch := or_default (MaxConcurrentFetch p) 10,
     ChunkFetchTimeout := or_default (ChunkFetchTimeout p) (60 * Second),
     ReconnectBackoff := or_default (ReconnectBackoff p) (5 * Second),
     MaxReconnectBackoff := or_default (MaxReconnectBackoff p) (5 * Minute)\<rparr>"

definition storage_defaults :: "StorageConfig \<Rightarrow> StorageConfig" where
  "storage_defaults s = s\<lparr>MaxCacheSize := or_default (MaxCacheSize s) (1024 * 1024 * 1024),
     GCInterval := or_default (GCInterval s) (24 * Hour), RetentionDays := or_default (RetentionDays s) 30,
     VerifyOnRestore := True, EnableDeduplication := True\<rparr>"

definition monitoring_defaults :: "MonitoringConfig \<Rightarrow> MonitoringConfig" where
  "monitoring_defaults m = m\<lparr>MetricsPort := or_default (MetricsPort m) 9090,
     ProfilingPort := or_default (ProfilingPort m) 6060, HealthCheckPort := or_default (HealthCheckPort m) 8080,
     LogLevel := or_default_str (LogLevel m) ''info'', LogFormat := or_default_str (LogFormat m) ''json''\<rparr>"

definition scheduler_defaults :: "SchedulerConfig \<Rightarrow> SchedulerConfig" where
  "scheduler_defaults s = s\<lparr>BackupInterval := or_default (BackupInterval s) (24 * Hour),
     MaxBackupRetries := or_default (MaxBackupRetries s) 3\<rparr>"

definition security_defaults :: "SecurityConfig \<Rightarrow> SecurityConfig" where
  "security_defaults s = s\<lparr>RequestsPerSecond := or_default (RequestsPerSecond s) 100,
     BurstSize := or_default (BurstSize s) 200, MaxRequestSize := or_default (MaxRequestSize s) (100 * 1024 * 1024)\<rparr>"

definition applyDefaults :: "Config \<Rightarrow> Config" where
  "applyDefaults c =
     c\<lparr>cfg_Snapshot := snapshot_defaults (cfg_Snapshot c),
       ListenPort := or_default (ListenPort c) 9000,
       RepositoryPath := or_default_str (RepositoryPath c) ''./data'',
       cfg_P2P := p2p_defaults (cfg_P2P c),
       cfg_Storage := storage_defaults (cfg_Storage c),
       cfg_Monitoring := monitoring_defaults (cfg_Monitoring c),
       cfg_Scheduler := scheduler_defaults (cfg_Scheduler c),
       cfg_Security := security_defaults (cfg_Security c)\<rparr>"

definition bad_port :: "int \<Rightarrow> bool" where
  "bad_port p \<longleftrightarrow> p < 1 \<or> 65535 < p"

definition validLogLevels :: "string list" where
  "validLogLevels = [''debug'', ''info'', ''warn'', ''error'', ''fatal'']"

definition Config_Validate :: "(string \<Rightarrow> string) \<Rightarrow> Config \<Rightarrow> gerror option" where
  "Config_Validate ul c =
     (let S = cfg_Snapshot c; M = cfg_Monitoring c; mn = MinChunkSize S; mx = MaxChunkSize S; avg = AvgChunkSize S in
      if mn \<le> 0 then Some (ErrorString (''min_chunk_size must be > 0, got '' @ itoa mn))
      else if mx \<le> mn then
        Some (ErrorString (''max_chunk_size ('' @ itoa mx @ '') must be > min_chunk_size ('' @ itoa mn @ '')''))
      else if avg < mn \<or> mx < avg then
        Some (ErrorString (''avg_chunk_size ('' @ itoa avg @ '') must be between min ('' @ itoa mn @ '') and max ('' @ itoa mx @ '')''))
      else if bad_port (ListenPort c) then
        Some (ErrorString (''listen_port must be 1-65535, got '' @ itoa (ListenPort c)))
      else if EnableMetrics M \<and> bad_port (MetricsPort M) then
        Some (ErrorString (''metrics_port must be 1-65535, got '' @ itoa (MetricsPort M)))
      else if EnableProfiling M \<and> bad_port (ProfilingPort M) then
        Some (ErrorString (''profiling_port must be 1-65535, got '' @ itoa (ProfilingPort M)))
      else if bad_port (HealthCheckPort M) then
        Some (ErrorString (''health_check_port must be 1-65535, got '' @ itoa (HealthCheckPort M)))
      else if RepositoryPath c = [] then Some (ErrorString ''repository_path cannot be empty'')
      else if MaxPeers (cfg_P2P c) < 1 then
        Some (ErrorString (''max_peers must be >= 1, got '' @ itoa (MaxPeers (cfg_P2P c))))
      else if MaxConcurrentFetch (cfg_P2P c) < 1 then
        Some (ErrorString (''max_concurrent_fetch must be >= 1, got '' @ itoa (MaxConcurrentFetch (cfg_P2P c))))
      else if RetentionDays (cfg_Storage c) < 0 then
        Some (ErrorString (''retention_days must be >= 0, got '' @ itoa (RetentionDays (cfg_Storage c))))
      else if MaxCacheSize (cfg_Storage c) < 0 then
        Some (ErrorString (''max_cache_size must be >= 0, got '' @ itoa (MaxCacheSize (cfg_Storage c))))
      else if strings_ToLower ul (LogLevel M) \<notin> set validLogLevels then
        Some (ErrorString (''invalid log_level: '' @ LogLevel M @ '' (must be debug, info, warn, error, or fatal)''))
      else if LogFormat M \<noteq> ''json'' \<and> LogFormat M \<noteq> ''text'' then
        Some (ErrorString (''invalid log_format: '' @ LogFormat M @ '' (must be json or text)''))
      else if EnableRateLimiting (cfg_Security c) \<and> RequestsPerSecond (cfg_Security c) < 1 then
        Some (ErrorString (''requests_per_second must be >= 1, got '' @ itoa (RequestsPerSecond (cfg_Security c))))
      else if EnableRateLimiting (cfg_Security c) \<and> BurstSize (cfg_Security c) < RequestsPerSecond (cfg_Security c) then
        Some (ErrorString (''burst_size ('' @ itoa (BurstSize (cfg_Security c)) @ '') must be >= requests_per_second (''
          @ itoa (RequestsPerSecond (cfg_Security c)) @ '')''))
      else None)"

definition Load :: "(string \<Rightarrow> string) \<Rightarrow> (string \<Rightarrow> gerror + bytes) \<Rightarrow> (bytes \<Rightarrow> gerror + Config) \<Rightarrow> (string \<Rightarrow> string) \<Rightarrow>
    string \<Rightarrow> gerror + Config" where
  "Load ul open_file decode getenv path =
     (case open_file path of
        Inl err \<Rightarrow> Inl (Wrapf ''failed to open config file'' err)
      | Inr contents \<Rightarrow>
          (case decode contents of
             Inl err \<Rightarrow> Inl (Wrapf ''failed to decode config'' err)
           | Inr cfg \<Rightarrow>
               (let cfg = applyDefaults (applyEnvironmentOverrides getenv cfg) in
                case Config_Validate ul cfg of
                  Some err \<Rightarrow> Inl (Wrapf ''config validation failed'' err)
                | None \<Rightarrow> Inr cfg)))"

section \<open>What a loaded configuration satisfies\<close>

lemmas defaults_defs = snapshot_defaults_def p2p_defaults_def storage_defaults_def monitoring_defaults_def
  scheduler_defaults_def security_defaults_def

lemma or_default_idem [simp]: "d \<noteq> 0 \<Longrightarrow> or_default (or_default x d) d = or_default x d"
  by (simp add: or_default_def)

lemma or_default_str_idem [simp]: "or_default_str (or_default_str s d) d = or_default_str s d"
  by (simp add: or_default_str_def)

lemma applyDefaults_idem: "applyDefaults (applyDefaults c) = applyDefaults c"
  by (simp add: applyDefaults_def defaults_defs Second_def Minute_def Hour_def)

lemma Config_Validate_None:
  assumes "Config_Validate ul c = None"
  shows "0 < MinChunkSize (cfg_Snapshot c)" and "MinChunkSize (cfg_Snapshot c) < MaxChunkSize (cfg_Snapshot c)"
    and "MinChunkSize (cfg_Snapshot c) \<le> AvgChunkSize (cfg_Snapshot c)"
    and "AvgChunkSize (cfg_Snapshot c) \<le> MaxChunkSize (cfg_Snapshot c)"
    and "1 \<le> MaxConcurrentFetch (cfg_P2P c)" and "0 \<le> RetentionDays (cfg_Storage c)"
    and "strings_ToLower ul (LogLevel (cfg_Monitoring c)) \<in> set validLogLevels"
    and "\<not> bad_port (ListenPort c)"
  using assms by (simp_all add: Config_Validate_def Let_def not_le not_less split: if_splits)

lemma Load_Inr:
  assumes "Load ul open_file decode getenv path = Inr cfg"
  shows "Config_Validate ul cfg = None" and "applyDefaults cfg = cfg"
  using assms
  by (auto simp: Load_def Let_def applyDefaults_idem split: sum.splits option.splits)

lemma decimal_all_digits: "list_all is_digit (decimal n)"
  using decimal_digits by (auto simp: list_all_iff is_digit_def byte_val_def)

lemma decimal_first: "decimal n = c # cs \<Longrightarrow> c \<noteq> CHR ''-'' \<and> c \<noteq> CHR ''+''"
  using decimal_all_digits [of n] by (auto simp: is_digit_def byte_val_def)

lemma Atoi_itoa:
  assumes "- (2 ^ 63) \<le> i" and "i < 2 ^ 63"
  shows "strconv_Atoi (itoa i) = Some i"
proof (cases "i < 0")
  case True
  with assms decimal_all_digits [of "nat (- i)"] decimal_nonempty [of "nat (- i)"] show ?thesis
    by (simp add: strconv_Atoi_def itoa_def undecimal_decimal)
next
  case False
  obtain c cs where cs: "decimal (nat i) = c # cs" using decimal_nonempty [of "nat i"] by (cases "decimal (nat i)") auto
  then have "undecimal (c # cs) = nat i" "list_all is_digit (c # cs)"
    using undecimal_decimal [of "nat i"] decimal_all_digits [of "nat i"] by simp_all
  with False assms cs decimal_first [OF cs] show ?thesis
    by (simp add: strconv_Atoi_def itoa_def)
qed

section \<open>Properties\<close>


definition empty_config :: Config where
  "empty_config = \<lparr>RepositoryPath = [], ListenPort = 0, PeerBootstrap = [],
     NATTraversal = \<lparr>EnableAutoRelay = False, EnableHolePunching = False\<rparr>,
     cfg_Snapshot = \<lparr>MinChunkSize = 0, MaxChunkSize = 0, AvgChunkSize = 0, Compression = False\<rparr>,
     cfg_ACL = \<lparr>Admins = []\<rparr>,
     cfg_P2P = \<lparr>MaxPeers = 0, ConnectionTimeout = 0, DiscoveryInterval = 0, HeartbeatInterval = 0,
       MaxConcurrentFetch = 0, ChunkFetchTimeout = 0, ReconnectBackoff = 0, MaxReconnectBackoff = 0\<rparr>,
     cfg_Storage = \<lparr>MaxCacheSize = 0, GCInterval = 0, RetentionDays = 0, VerifyOnRestore = False, EnableDeduplication = False\<rparr>,
     cfg_Monitoring = \<lparr>EnableMetrics = False, MetricsPort = 0, EnableProfiling = False, ProfilingPort = 0,
       HealthCheckPort = 0, LogLevel = [], LogFormat = [], EnableTracing = False, TracingEndpoint = []\<rparr>,
     cfg_Scheduler = \<lparr>EnableAutoBackup = False, BackupInterval = 0, BackupPaths = [], MaxBackupRetries = 0\<rparr>,
     cfg_Security = \<lparr>EnableRateLimiting = False, RequestsPerSecond = 0, BurstSize = 0, EnableIPWhitelist = False,
       WhitelistedIPs = [], MaxRequestSize = 0\<rparr>\<rparr>"

lemma empty_config_valid: "Config_Validate ul (applyDefaults empty_config) = None"
  by (simp add: Config_Validate_def applyDefaults_def empty_config_def defaults_defs or_default_def or_default_str_def
      bad_port_def validLogLevels_def strings_ToLower_def ascii_lower_def byte_val_def)

lemma no_overrides: "applyEnvironmentOverrides (\<lambda>_. []) c = c"
  by (simp add: applyEnvironmentOverrides_def)

lemma empty_config_loads:
  "Load id (\<lambda>_. Inr []) (\<lambda>_. Inr empty_config) (\<lambda>_. []) ''config.yaml'' = Inr (applyDefaults empty_config)"
  by (simp add: Load_def no_overrides empty_config_valid)


definition wit_env :: "string \<Rightarrow> string" where
  "wit_env v = (if v = ''SHADOWVAULT_LISTEN_PORT'' then itoa 9999
     else if v = ''SHADOWVAULT_REPO_PATH'' then ''/data'' else [])"

lemma wit_env_loads:
  "Load id (\<lambda>_. Inr []) (\<lambda>_. Inr empty_config) wit_env ''config.yaml'' =
     Inr (applyDefaults (applyEnvironmentOverrides wit_env empty_config))"
proof -
  have "itoa 9999 \<noteq> []" by (simp add: itoa_def decimal_nonempty)
  then have "applyEnvironmentOverrides wit_env empty_config = empty_config\<lparr>RepositoryPath := ''/data'', ListenPort := 9999\<rparr>"
    by (simp add: applyEnvironmentOverrides_def wit_env_def Atoi_itoa)
  moreover have "Config_Validate id (applyDefaults (empty_config\<lparr>RepositoryPath := ''/data'', ListenPort := 9999\<rparr>)) = None"
    by (simp add: Config_Validate_def applyDefaults_def empty_config_def defaults_defs or_default_def or_default_str_def
        bad_port_def validLogLevels_def strings_ToLower_def ascii_lower_def byte_val_def)
  ultimately show ?thesis by (simp add: Load_def)
qed

text \<open>
  The two storage switches are true whatever the file says, and a retention period of zero days
  becomes thirty.
\<close>

lemma storage_switches_forced:
  "VerifyOnRestore (cfg_Storage (applyDefaults c)) \<and> EnableDeduplication (cfg_Storage (applyDefaults c)) \<and>
   RetentionDays (cfg_Storage (applyDefaults c)) \<noteq> 0"
  by (simp add: applyDefaults_def defaults_defs or_default_def)

text \<open>
  The environment wins: when \<open>SHADOWVAULT_LISTEN_PORT\<close> holds a number in decimal notation
  and the configuration loads, that number is the port, whatever the file says; it is then between 1 and 65535.
  Likewise a repository path from the environment is the one that is used.
\<close>

theorem environment_overrides_file:
  assumes "Load ul open_file decode getenv path = Inr cfg"
    and "getenv ''SHADOWVAULT_LISTEN_PORT'' = itoa port" and "- (2 ^ 63) \<le> port" and "port < 2 ^ 63" and "port \<noteq> 0"
    and "getenv ''SHADOWVAULT_REPO_PATH'' \<noteq> []"
  shows "ListenPort cfg = port \<and> 1 \<le> port \<and> port \<le> 65535 \<and> RepositoryPath cfg = getenv ''SHADOWVAULT_REPO_PATH''"
proof -
  from assms(1) obtain c where c: "cfg = applyDefaults (applyEnvironmentOverrides getenv c)"
    by (auto simp: Load_def Let_def split: sum.splits option.splits)
  have "itoa port \<noteq> []" by (simp add: itoa_def decimal_nonempty)
  then have "ListenPort (applyEnvironmentOverrides getenv c) = port"
    "RepositoryPath (applyEnvironmentOverrides getenv c) = getenv ''SHADOWVAULT_REPO_PATH''"
    using assms(2,6) Atoi_itoa [OF assms(3,4)] by (simp_all add: applyEnvironmentOverrides_def Let_def split: option.splits)
  then have "ListenPort cfg = port" "RepositoryPath cfg = getenv ''SHADOWVAULT_REPO_PATH''"
    using assms(5,6) by (simp_all add: c applyDefaults_def or_default_def or_default_str_def)
  with Config_Validate_None(8) [OF Load_Inr(1) [OF assms(1)]] show ?thesis by (simp add: bad_port_def)
qed

theorem environment_overrides_file_witness:
  "ListenPort (applyDefaults (applyEnvironmentOverrides wit_env empty_config)) = 9999"
  using environment_overrides_file [OF wit_env_loads, of 9999] by (simp add: wit_env_def)

end
