(* ===== verification/SV_Host.thy ===== *)
theory SV_Host
  imports SV_Sync SV_Config
begin

text \<open>
  \<open>internal/p2p/host.go\<close>: bringing up the peer-to-peer host.

  libp2p, its DHT and its publish/subscribe router are third-party packages: the record
  \<open>net\<close> gives the result of each call into them. What remains is the program's own logic: which
  failures abort the set-up, which are skipped, what is counted, and the periodic discovery. (A failure of the DHT's own
  bootstrap is only logged and does not appear.)
\<close>

record net =
  libp2p_New :: "string \<Rightarrow> bool \<Rightarrow> gerror option"
  dht_New :: "gerror option"
  NewMultiaddr :: "string \<Rightarrow> gerror option"
  AddrInfoFromP2pAddr :: "string \<Rightarrow> gerror + string"
  Host_Connect :: "string \<Rightarrow> gerror option"
  NewFloodSub :: "gerror option"
  PubSub_Join :: "string \<Rightarrow> gerror option"

definition listen_addr :: "Config \<Rightarrow> string" where
  "listen_addr cfg = ''/ip4/0.0.0.0/tcp/'' @ itoa (ListenPort cfg)"

text \<open>
  The bootstrap loop: an address that does not parse or a peer that does not answer is skipped.
\<close>

fun bootstrap_loop :: "net \<Rightarrow> string list \<Rightarrow> Metrics \<Rightarrow> Metrics" where
  "bootstrap_loop N [] m = m"
| "bootstrap_loop N (addr # addrs) m =
     (case NewMultiaddr N addr of
        Some _ \<Rightarrow> bootstrap_loop N addrs m
      | None \<Rightarrow>
          (case AddrInfoFromP2pAddr N addr of
             Inl _ \<Rightarrow> bootstrap_loop N addrs m
           | Inr info \<Rightarrow>
               (case Host_Connect N info of
                  Some _ \<Rightarrow> bootstrap_loop N addrs m
                | None \<Rightarrow> bootstrap_loop N addrs (RecordPeerConnected m))))"

definition Setup :: "net \<Rightarrow> Config \<Rightarrow> Store \<Rightarrow> bytes \<Rightarrow> bytes \<Rightarrow> Metrics \<Rightarrow> (gerror + ChunkFetcher) \<times> Metrics" where
  "Setup N cfg store signerPub signerPriv m =
     (case libp2p_New N (listen_addr cfg) (EnableAutoRelay (NATTraversal cfg)) of
        Some err \<Rightarrow> (Inl err, m)
      | None \<Rightarrow>
          (case dht_New N of
             Some err \<Rightarrow> (Inl err, m)
           | None \<Rightarrow>
               (let m = bootstrap_loop N (PeerBootstrap cfg) m in
                case NewFloodSub N of
                  Some err \<Rightarrow> (Inl err, m)
                | None \<Rightarrow>
                    (case PubSub_Join N ''backup-sync'' of
                       Some err \<Rightarrow> (Inl err, m)
                     | None \<Rightarrow>
                         (Inr (NewChunkFetcher store signerPub signerPriv (MaxConcurrentFetch (cfg_P2P cfg))
                            (word_of_int (ChunkFetchTimeout (cfg_P2P cfg)))), m)))))"

text \<open>
  One tick of the discovery goroutine over the peers the routing found: \<open>self\<close> and peers already
  connected are skipped.
\<close>

fun discovery_tick :: "net \<Rightarrow> string \<Rightarrow> (string \<Rightarrow> bool) \<Rightarrow> string list \<Rightarrow> Metrics \<Rightarrow> Metrics" where
  "discovery_tick N self connected [] m = m"
| "discovery_tick N self connected (p # ps) m =
     (if p = self \<or> connected p then discovery_tick N self connected ps m
      else
        (case Host_Connect N p of
           Some _ \<Rightarrow> discovery_tick N self connected ps m
         | None \<Rightarrow> discovery_tick N self (connected(p := True)) ps (RecordPeerDiscovered (RecordPeerConnected m))))"

text \<open>
  The discovery goroutine over the ticks it takes: what is connected at each, and the peers found or the error.
\<close>

fun discovery_ticks :: "net \<Rightarrow> string \<Rightarrow> ((string \<Rightarrow> bool) \<times> (gerror + string list)) list \<Rightarrow> Metrics \<Rightarrow> Metrics" where
  "discovery_ticks N self [] m = m"
| "discovery_ticks N self ((connected, found) # ticks) m =
     (case found of
        Inl err \<Rightarrow> discovery_ticks N self ticks m
      | Inr peers \<Rightarrow> discovery_ticks N self ticks (discovery_tick N self connected peers m))"

definition discovery_goroutine :: "net \<Rightarrow> Config \<Rightarrow> string \<Rightarrow> ((string \<Rightarrow> bool) \<times> (gerror + string list)) list \<Rightarrow> Metrics \<Rightarrow>
    Metrics outcome" where
  "discovery_goroutine N cfg self ticks m =
     (if DiscoveryInterval (cfg_P2P cfg) \<le> 0 then Panic ''non-positive interval for NewTicker''
      else Ret (discovery_ticks N self ticks m))"

section \<open>What is counted\<close>

definition reachable_peer :: "net \<Rightarrow> string \<Rightarrow> bool" where
  "reachable_peer N addr \<longleftrightarrow> NewMultiaddr N addr = None \<and>
     (case AddrInfoFromP2pAddr N addr of Inl _ \<Rightarrow> False | Inr info \<Rightarrow> Host_Connect N info = None)"

lemma bootstrap_loop_counts:
  "bootstrap_loop N addrs m =
     m\<lparr>PeersConnected := PeersConnected m + of_nat (length (filter (reachable_peer N) addrs))\<rparr>"
  by (induction addrs arbitrary: m)
    (simp_all add: reachable_peer_def RecordPeerConnected_def add.assoc split: option.splits sum.splits)

lemma discovery_tick_counts:
  "\<exists>k. discovery_tick N self connected ps m =
     m\<lparr>PeersConnected := PeersConnected m + of_nat k, PeersDiscovered := PeersDiscovered m + of_nat k\<rparr>"
proof (induction ps arbitrary: m connected)
  case Nil
  show ?case by (rule exI [of _ 0]) simp
next
  case (Cons p ps)
  show ?case
  proof (cases "p = self \<or> connected p \<or> Host_Connect N p \<noteq> None")
    case True
    then show ?thesis using Cons.IH [of connected m] by (auto split: option.splits)
  next
    case False
    let ?m = "RecordPeerDiscovered (RecordPeerConnected m)"
    from Cons.IH [of "connected(p := True)" ?m] obtain k where
      "discovery_tick N self (connected(p := True)) ps ?m =
        ?m\<lparr>PeersConnected := PeersConnected ?m + of_nat k, PeersDiscovered := PeersDiscovered ?m + of_nat k\<rparr>" by blast
    with False show ?thesis
      by (intro exI [of _ "Suc k"]) (simp add: RecordPeerConnected_def RecordPeerDiscovered_def add.assoc)
  qed
qed

text \<open>
  The discovery counts the same number of peers as connected and as discovered. A negative interval passes the validation of the
  configuration, which does not look at it, and panics here, in a goroutine, which ends the process.
\<close>

lemma discovery_ticks_counts:
  "\<exists>k. discovery_ticks N self ticks m =
     m\<lparr>PeersConnected := PeersConnected m + of_nat k, PeersDiscovered := PeersDiscovered m + of_nat k\<rparr>"
proof (induction ticks arbitrary: m)
  case Nil
  show ?case by (rule exI [of _ 0]) simp
next
  case (Cons tick ticks)
  obtain connected found where tick: "tick = (connected, found)" by (cases tick)
  show ?case
  proof (cases found)
    case (Inl e)
    with Cons show ?thesis by (simp add: tick)
  next
    case (Inr ps)
    from discovery_tick_counts [of N self connected ps m] obtain k where k: "discovery_tick N self connected ps m =
      m\<lparr>PeersConnected := PeersConnected m + of_nat k, PeersDiscovered := PeersDiscovered m + of_nat k\<rparr>" by blast
    from Cons [of "discovery_tick N self connected ps m"] obtain j where
      "discovery_ticks N self ticks (discovery_tick N self connected ps m) =
        (discovery_tick N self connected ps m)\<lparr>PeersConnected := PeersConnected (discovery_tick N self connected ps m) + of_nat j,
          PeersDiscovered := PeersDiscovered (discovery_tick N self connected ps m) + of_nat j\<rparr>" by blast
    with k show ?thesis by (intro exI [of _ "k + j"]) (simp add: tick Inr add.assoc)
  qed
qed

lemma negative_discovery_interval:
  "Config_Validate ul ((applyDefaults empty_config)\<lparr>cfg_P2P := (cfg_P2P (applyDefaults empty_config))\<lparr>DiscoveryInterval := - 1\<rparr>\<rparr>) = None \<and>
   discovery_goroutine N ((applyDefaults empty_config)\<lparr>cfg_P2P := (cfg_P2P (applyDefaults empty_config))\<lparr>DiscoveryInterval := - 1\<rparr>\<rparr>)
     self ticks m = Panic ''non-positive interval for NewTicker''"
  by (simp add: discovery_goroutine_def Config_Validate_def applyDefaults_def empty_config_def defaults_defs or_default_def
      or_default_str_def bad_port_def validLogLevels_def strings_ToLower_def ascii_lower_def byte_val_def Let_def)

section \<open>Properties\<close>

text \<open>
  Bootstrapping: \<open>Setup\<close> succeeds exactly when the host, the DHT, the router and the topic come up,
  whatever the bootstrap list holds; unreachable or malformed peers are skipped, and the gauge of connected peers
  grows by the number of reachable entries.
\<close>

theorem Setup_bootstrap:
  assumes "Setup N cfg store signerPub signerPriv m = (r, m')"
  shows "((\<exists>cf. r = Inr cf) \<longleftrightarrow>
      libp2p_New N (listen_addr cfg) (EnableAutoRelay (NATTraversal cfg)) = None \<and> dht_New N = None \<and>
      NewFloodSub N = None \<and> PubSub_Join N ''backup-sync'' = None) \<and>
    (\<forall>cf. r = Inr cf \<longrightarrow>
      m' = m\<lparr>PeersConnected := PeersConnected m + of_nat (length (filter (reachable_peer N) (PeerBootstrap cfg)))\<rparr> \<and>
      cf_store cf = store \<and> cf_signerPub cf = signerPub \<and> cf_signerPriv cf = signerPriv \<and>
      maxConcurrent cf = MaxConcurrentFetch (cfg_P2P cfg))"
  using assms
  by (auto simp: Setup_def Let_def bootstrap_loop_counts NewChunkFetcher_def split: option.splits)

definition wit_net :: net where
  "wit_net = \<lparr>libp2p_New = (\<lambda>_ _. None), dht_New = None, NewMultiaddr = (\<lambda>a. if a = [] then Some (ErrorString ''empty multiaddr'') else None),
     AddrInfoFromP2pAddr = (\<lambda>a. Inr a), Host_Connect = (\<lambda>a. if a = ''/dead'' then Some (ErrorString ''timeout'') else None),
     NewFloodSub = None, PubSub_Join = (\<lambda>_. None)\<rparr>"

theorem Setup_bootstrap_witness:
  "\<exists>cf m'. Setup wit_net (empty_config\<lparr>PeerBootstrap := [''/a'', [], ''/dead'', ''/b'']\<rparr>) wit_store [] [] NewMetrics = (Inr cf, m') \<and>
     PeersConnected m' = 2"
proof -
  let ?cfg = "empty_config\<lparr>PeerBootstrap := [''/a'', [], ''/dead'', ''/b'']\<rparr>"
  obtain r m' where s: "Setup wit_net ?cfg wit_store [] [] NewMetrics = (r, m')" by (metis surj_pair)
  have "length (filter (reachable_peer wit_net) (PeerBootstrap ?cfg)) = 2"
    by (simp add: reachable_peer_def wit_net_def)
  moreover have "libp2p_New wit_net a b = None" "dht_New wit_net = None" "NewFloodSub wit_net = None"
    "PubSub_Join wit_net c = None" for a b c by (simp_all add: wit_net_def)
  with Setup_bootstrap [OF s] obtain cf where r: "r = Inr cf" by blast
  moreover from Setup_bootstrap [OF s] r have "m' = NewMetrics\<lparr>PeersConnected := PeersConnected NewMetrics +
      of_nat (length (filter (reachable_peer wit_net) (PeerBootstrap ?cfg)))\<rparr>" by blast
  ultimately have "PeersConnected m' = 2" by (simp only: Metrics.simps) (simp add: NewMetrics_def)
  with s r show ?thesis by blast
qed

end
