(* ===== verification/SV_Agent.thy ===== *)
theory SV_Agent
  imports SV_Host
begin

text \<open>
  \<open>internal/agent/agent.go\<close> and the commands \<open>cmd/backup-agent\<close>,
  \<open>cmd/backup-agent-restore\<close> and \<open>cmd/peerctl\<close>.

  An agent is a record of its configuration, keys and access list; its state is the
  \<open>pnode\<close> of \<open>SV_Sync\<close>, the database included. The decoding of an incoming envelope with
  \<open>encoding/json\<close> is the parameter \<open>inbox\<close>. The theory composes the components: a backup made by an
  agent and restored with the same key gives back the chunks of the files, a new agent has another key, and the
  message loop counts and dispatches what it receives.
\<close>

section \<open>filepath.Join on Unix\<close>

fun split_slash :: "string \<Rightarrow> string list" where
  "split_slash [] = [[]]"
| "split_slash (c # cs) =
     (if c = CHR ''/'' then [] # split_slash cs
      else (case split_slash cs of [] \<Rightarrow> [[c]] | p # ps \<Rightarrow> (c # p) # ps))"

text \<open>The elements kept so far are in reverse order.\<close>

fun clean_elems :: "bool \<Rightarrow> string list \<Rightarrow> string list \<Rightarrow> string list" where
  "clean_elems rooted acc [] = rev acc"
| "clean_elems rooted acc (e # es) =
     (if e = [] \<or> e = ''.'' then clean_elems rooted acc es
      else if e = ''..'' then
        (case acc of
           [] \<Rightarrow> clean_elems rooted (if rooted then [] else [''..'']) es
         | a # acc' \<Rightarrow> (if a = ''..'' then clean_elems rooted (''..'' # acc) es else clean_elems rooted acc' es))
      else clean_elems rooted (e # acc) es)"

fun join_slash :: "string list \<Rightarrow> string" where
  "join_slash [] = []"
| "join_slash [e] = e"
| "join_slash (e # es) = e @ ''/'' @ join_slash es"

definition filepath_Clean :: "string \<Rightarrow> string" where
  "filepath_Clean path =
     (let rooted = (path \<noteq> [] \<and> hd path = CHR ''/'');
          s = (if rooted then ''/'' else []) @ join_slash (clean_elems rooted [] (split_slash path))
      in if s = [] then ''.'' else s)"

definition filepath_Join :: "string \<Rightarrow> string \<Rightarrow> string" where
  "filepath_Join a b =
     (if a = [] \<and> b = [] then []
      else if a = [] then filepath_Clean b
      else if b = [] then filepath_Clean a
      else filepath_Clean (a @ ''/'' @ b))"

section \<open>agent.go\<close>

record Agent =
  a_Config :: Config
  a_Store :: Store
  a_Fetcher :: ChunkFetcher
  a_ACL :: ACL
  a_SignerPub :: bytes
  a_SignerPriv :: bytes

text \<open>
  \<open>New\<close>: the result is the agent and the opened database; the counter of random draws and the metrics go through.
\<close>

definition Agent_New :: "prims \<Rightarrow> 'd bolt \<Rightarrow> net \<Rightarrow> Config \<Rightarrow> string \<Rightarrow> nat \<Rightarrow> Metrics \<Rightarrow>
    (gerror + Agent \<times> 'd) \<times> nat \<times> Metrics" where
  "Agent_New P B N cfg passphrase r m =
     (case DB_Open B (filepath_Join (RepositoryPath cfg) ''metadata.db'') of
        Inl err \<Rightarrow> (Inl err, r, m)
      | Inr db \<Rightarrow>
          (case DeriveKey P passphrase None r of
             (key, r1) \<Rightarrow>
               (case Store_New key of
                  Inl err \<Rightarrow> (Inl err, r1, m)
                | Inr store \<Rightarrow>
                    (let acl = NewACL (Admins (cfg_ACL cfg)) in
                     case GenerateEd25519Keypair P r1 of
                       (Inl err, r2) \<Rightarrow> (Inl err, r2, m)
                     | (Inr (pub, priv), r2) \<Rightarrow>
                         (case Setup N cfg store pub priv m of
                            (Inl err, m') \<Rightarrow> (Inl err, r2, m')
                          | (Inr cf, m') \<Rightarrow>
                              (Inr (\<lparr>a_Config = cfg, a_Store = store, a_Fetcher = cf, a_ACL = acl,
                                 a_SignerPub = pub, a_SignerPriv = priv\<rparr>, db), r2, m'))))))"

fun total_bytes :: "'d bolt \<Rightarrow> 'd world \<Rightarrow> string list \<Rightarrow> u64 \<Rightarrow> u64" where
  "total_bytes B w [] totalBytes = totalBytes"
| "total_bytes B w (chunkHash # hs) totalBytes =
     (case Store_Get B w chunkHash of
        Inr data \<Rightarrow> total_bytes B w hs (totalBytes + of_nat (length data))
      | Inl _ \<Rightarrow> total_bytes B w hs totalBytes)"

definition CreateAndSaveSnapshot :: "prims \<Rightarrow> codec \<Rightarrow> clock \<Rightarrow> 'd bolt \<Rightarrow> wire \<Rightarrow> publish \<Rightarrow> Agent \<Rightarrow>
    string \<Rightarrow> node \<Rightarrow> int \<Rightarrow> int \<Rightarrow> i64 \<Rightarrow> 'd pnode \<Rightarrow> gerror option outcome \<times> 'd pnode" where
  "CreateAndSaveSnapshot P C T B W pub a path root t1 t2 dur n =
     (case CreateSnapshot P C T B path root (a_Store a) (a_SignerPub a) (a_SignerPriv a) []
             (MinChunkSize (cfg_Snapshot (a_Config a))) (MaxChunkSize (cfg_Snapshot (a_Config a)))
             (AvgChunkSize (cfg_Snapshot (a_Config a))) t1 t2 (pworld n) of
        (Panic msg, w) \<Rightarrow> (Panic msg, n\<lparr>pworld := w\<rparr>)
      | (Ret (Inl err), w) \<Rightarrow> (Ret (Some err), meter RecordBackupFailed (n\<lparr>pworld := w\<rparr>))
      | (Ret (Inr snap), w) \<Rightarrow>
          (case SaveSnapshot C B w snap of
             (Some err, w') \<Rightarrow> (Ret (Some err), meter RecordBackupFailed (n\<lparr>pworld := w'\<rparr>))
           | (None, w') \<Rightarrow>
               (let totalBytes = total_bytes B w' (Chunks snap) 0;
                    n = meter (RecordBackupCreated totalBytes dur) (n\<lparr>pworld := w'\<rparr>)
                in (Ret None, snd (BroadcastSnapshot W pub snap n)))))"

subsection \<open>Incoming messages\<close>

record 'j inbox =
  parse_envelope :: "bytes \<Rightarrow> gerror + (string \<Rightarrow> 'j option)"
  as_string :: "'j option \<Rightarrow> string option"
  to_announcement :: "'j option \<Rightarrow> gerror + SnapshotAnnouncement"
  to_request :: "'j option \<Rightarrow> gerror + ChunkRequest"
  to_response :: "'j option \<Rightarrow> gerror + ChunkResponse"
  to_peer_add :: "'j option \<Rightarrow> gerror + PeerAdd"
  to_peer_remove :: "'j option \<Rightarrow> gerror + PeerRemove"

text \<open>
  A handler returns, or panics and takes the process down with it. The fetches an announcement starts are the
  snapshots in the second component.
\<close>

definition handleSnapshotAnnouncement :: "prims \<Rightarrow> codec \<Rightarrow> 'j inbox \<Rightarrow> (string \<Rightarrow> 'j option) \<Rightarrow> Snapshot list outcome" where
  "handleSnapshotAnnouncement P C J envelope =
     (case to_announcement J (envelope ''announcement'') of
        Inl err \<Rightarrow> Ret []
      | Inr ann \<Rightarrow>
          (case HandleSnapshotAnnouncement P C ann of
             Panic msg \<Rightarrow> Panic msg
           | Ret (err, None) \<Rightarrow> Ret []
           | Ret (err, Some sn) \<Rightarrow> Ret [sn]))"

definition handleChunkRequest :: "prims \<Rightarrow> 'd bolt \<Rightarrow> wire \<Rightarrow> publish \<Rightarrow> 'j inbox \<Rightarrow> Agent \<Rightarrow> (string \<Rightarrow> 'j option) \<Rightarrow>
    'd pnode \<Rightarrow> unit outcome \<times> 'd pnode" where
  "handleChunkRequest P B W pub J a envelope n =
     (case to_request J (envelope ''request'') of
        Inl err \<Rightarrow> (Ret (), n)
      | Inr req \<Rightarrow>
          (case HandleChunkRequest P B W pub (a_Fetcher a) req n of
             (Panic msg, n') \<Rightarrow> (Panic msg, n')
           | (Ret err, n') \<Rightarrow> (Ret (), n')))"

definition handleChunkResponse :: "prims \<Rightarrow> 'd bolt \<Rightarrow> 'j inbox \<Rightarrow> (string \<Rightarrow> 'j option) \<Rightarrow> 'd pnode \<Rightarrow> unit outcome \<times> 'd pnode" where
  "handleChunkResponse P B J envelope n =
     (case to_response J (envelope ''response'') of
        Inl err \<Rightarrow> (Ret (), n)
      | Inr resp \<Rightarrow>
          (case HandleChunkResponse P B resp n of
             (Panic msg, n') \<Rightarrow> (Panic msg, n')
           | (Ret err, n') \<Rightarrow> (Ret (), n')))"

definition handlePeerAdd :: "prims \<Rightarrow> 'j inbox \<Rightarrow> Agent \<Rightarrow> (string \<Rightarrow> 'j option) \<Rightarrow> 'd pnode \<Rightarrow> unit outcome \<times> 'd pnode" where
  "handlePeerAdd P J a envelope n =
     (case to_peer_add J (envelope ''peer_add'') of
        Inl err \<Rightarrow> (Ret (), n)
      | Inr peerAdd \<Rightarrow>
          (case PeerAdd_Validate P peerAdd of
             Panic msg \<Rightarrow> (Panic msg, n)
           | Ret (Some err) \<Rightarrow> (Ret (), n)
           | Ret None \<Rightarrow>
               (if \<not> ACL_IsAdmin (a_ACL a) (pa_SignerPub peerAdd) then (Ret (), n)
                else (Ret (), meter RecordPeerDiscovered n))))"

definition handlePeerRemove :: "prims \<Rightarrow> 'j inbox \<Rightarrow> Agent \<Rightarrow> (string \<Rightarrow> 'j option) \<Rightarrow> 'd pnode \<Rightarrow> unit outcome \<times> 'd pnode" where
  "handlePeerRemove P J a envelope n =
     (case to_peer_remove J (envelope ''peer_remove'') of
        Inl err \<Rightarrow> (Ret (), n)
      | Inr peerRemove \<Rightarrow>
          (case PeerRemove_Validate P peerRemove of
             Panic msg \<Rightarrow> (Panic msg, n)
           | Ret (Some err) \<Rightarrow> (Ret (), n)
           | Ret None \<Rightarrow>
               (if \<not> ACL_IsAdmin (a_ACL a) (pr_SignerPub peerRemove) then (Ret (), n) else (Ret (), n))))"

definition handle_message :: "prims \<Rightarrow> codec \<Rightarrow> 'd bolt \<Rightarrow> wire \<Rightarrow> publish \<Rightarrow> 'j inbox \<Rightarrow> Agent \<Rightarrow> bytes \<Rightarrow> 'd pnode \<Rightarrow>
    Snapshot list outcome \<times> 'd pnode" where
  "handle_message P C B W pub J a data n0 =
     (let n = meter RecordMessageReceived n0;
          ok = (\<lambda>(r, n'). (case r of Panic msg \<Rightarrow> Panic msg | Ret () \<Rightarrow> Ret [], n'))
      in case parse_envelope J data of
           Inl err \<Rightarrow> (Ret [], n)
         | Inr envelope \<Rightarrow>
             (case as_string J (envelope ''type'') of
                None \<Rightarrow> (Ret [], n)
              | Some msgType \<Rightarrow>
                  (if msgType = ''snapshot_announcement'' then (handleSnapshotAnnouncement P C J envelope, n)
                   else if msgType = ''chunk_request'' then ok (handleChunkRequest P B W pub J a envelope n)
                   else if msgType = ''chunk_response'' then ok (handleChunkResponse P B J envelope n)
                   else if msgType = ''peer_add'' then ok (handlePeerAdd P J a envelope n)
                   else if msgType = ''peer_remove'' then ok (handlePeerRemove P J a envelope n)
                   else (Ret [], n))))"

text \<open>The loop over the messages of the subscription, until it ends.\<close>

fun handlePubSub :: "prims \<Rightarrow> codec \<Rightarrow> 'd bolt \<Rightarrow> wire \<Rightarrow> publish \<Rightarrow> 'j inbox \<Rightarrow> Agent \<Rightarrow> bytes list \<Rightarrow> 'd pnode \<Rightarrow>
    Snapshot list outcome \<times> 'd pnode" where
  "handlePubSub P C B W pub J a [] n = (Ret [], n)"
| "handlePubSub P C B W pub J a (d # ds) n =
     (case handle_message P C B W pub J a d n of
        (Panic msg, n') \<Rightarrow> (Panic msg, n')
      | (Ret sns, n') \<Rightarrow>
          (case handlePubSub P C B W pub J a ds n' of
             (Panic msg, n'') \<Rightarrow> (Panic msg, n'')
           | (Ret sns', n'') \<Rightarrow> (Ret (sns @ sns'), n'')))"

section \<open>The commands\<close>

text \<open>
  \<open>cmd/backup-agent-restore\<close>, from the loaded snapshot on: the chunks are decrypted and written to one file, the second
  component of the result; the outcome of creating the directory and the file are arguments.
\<close>

fun restore_loop :: "(string \<Rightarrow> (gerror + bytes) outcome) \<Rightarrow> (bytes \<Rightarrow> gerror option) \<Rightarrow> string list \<Rightarrow> bytes \<Rightarrow>
    gerror option outcome \<times> bytes" where
  "restore_loop get write [] out = (Ret None, out)"
| "restore_loop get write (h # hs) out =
     (case get h of
        Panic msg \<Rightarrow> (Panic msg, out)
      | Ret (Inl err) \<Rightarrow> (Ret (Some (Wrapf (''failed to get chunk '' @ h) err)), out)
      | Ret (Inr data) \<Rightarrow>
          (case write data of
             Some err \<Rightarrow> (Ret (Some err), out)
           | None \<Rightarrow> restore_loop get write hs (out @ data)))"

definition restore_run :: "prims \<Rightarrow> codec \<Rightarrow> 'd bolt \<Rightarrow> Store \<Rightarrow> string \<Rightarrow> gerror option \<Rightarrow> gerror option \<Rightarrow>
    (bytes \<Rightarrow> gerror option) \<Rightarrow> 'd world \<Rightarrow> gerror option outcome \<times> bytes" where
  "restore_run P C B store snapshotID mkdir create write w =
     (case LoadSnapshot C B w snapshotID of
        Inl err \<Rightarrow> (Ret (Some err), [])
      | Inr snap \<Rightarrow>
          (case mkdir of
             Some err \<Rightarrow> (Ret (Some err), [])
           | None \<Rightarrow>
               (case create of
                  Some err \<Rightarrow> (Ret (Some err), [])
                | None \<Rightarrow> restore_loop (\<lambda>h. Store_GetChunk P B store h w) write (Chunks snap) [])))"

definition passphrase_required :: gerror where
  "passphrase_required = ErrorString ''passphrase is required''"

definition restoreCmd :: "prims \<Rightarrow> codec \<Rightarrow> 'd bolt \<Rightarrow> net \<Rightarrow> (gerror + Config) \<Rightarrow> string \<Rightarrow> string \<Rightarrow>
    gerror option \<Rightarrow> gerror option \<Rightarrow> (bytes \<Rightarrow> gerror option) \<Rightarrow> nat \<Rightarrow> Metrics \<Rightarrow> gerror option outcome \<times> bytes" where
  "restoreCmd P C B N cfg passphrase snapshotID mkdir create write r m =
     (if passphrase = [] then (Ret (Some passphrase_required), [])
      else
        (case cfg of
           Inl err \<Rightarrow> (Ret (Some err), [])
         | Inr cfg \<Rightarrow>
             (case Agent_New P B N cfg passphrase r m of
                (Inl err, _) \<Rightarrow> (Ret (Some err), [])
              | (Inr (ag, db), r', _) \<Rightarrow>
                  restore_run P C B (a_Store ag) snapshotID mkdir create write \<lparr>wdb = db, wrng = r'\<rparr>)))"

text \<open>
  \<open>cmd/backup-agent snapshot\<close>, with the state of the new agent.
\<close>

definition new_pnode :: "'d \<Rightarrow> nat \<Rightarrow> Metrics \<Rightarrow> 'd pnode" where
  "new_pnode db r m = \<lparr>pworld = \<lparr>wdb = db, wrng = r\<rparr>, metrics = m, pendingFetches = Map.empty,
     chans = (\<lambda>_. []), nchans = 0, outbox = []\<rparr>"

definition snapCmd :: "prims \<Rightarrow> codec \<Rightarrow> clock \<Rightarrow> 'd bolt \<Rightarrow> net \<Rightarrow> wire \<Rightarrow> publish \<Rightarrow> (gerror + Config) \<Rightarrow> string \<Rightarrow> string \<Rightarrow> node \<Rightarrow>
    int \<Rightarrow> int \<Rightarrow> i64 \<Rightarrow> nat \<Rightarrow> Metrics \<Rightarrow> gerror option outcome \<times> 'd pnode option" where
  "snapCmd P C T B N W pub cfg passphrase path root t1 t2 dur r m =
     (if passphrase = [] then (Ret (Some passphrase_required), None)
      else
        (case cfg of
           Inl err \<Rightarrow> (Ret (Some err), None)
         | Inr cfg \<Rightarrow>
             (case Agent_New P B N cfg passphrase r m of
                (Inl err, _) \<Rightarrow> (Ret (Some err), None)
              | (Inr (ag, db), r', m') \<Rightarrow>
                  (case CreateAndSaveSnapshot P C T B W pub ag path root t1 t2 dur (new_pnode db r' m') of
                     (res, n) \<Rightarrow> (res, Some n)))))"

text \<open>\<open>cmd/peerctl\<close>: the database part of the three commands.\<close>

definition peerctl_add :: "'d bolt \<Rightarrow> string \<Rightarrow> bytes \<Rightarrow> 'd world \<Rightarrow> gerror option \<times> 'd world" where
  "peerctl_add B peerID val w =
     (case DB_Update B (\<lambda>tx. tx_put B tx BucketPeers peerID val) (wdb w) of (err, d) \<Rightarrow> (err, w\<lparr>wdb := d\<rparr>))"

definition peerctl_remove :: "'d bolt \<Rightarrow> string \<Rightarrow> 'd world \<Rightarrow> gerror option \<times> 'd world" where
  "peerctl_remove B peerID w =
     (case DB_Update B (\<lambda>tx. tx_delete B tx BucketPeers peerID) (wdb w) of (err, d) \<Rightarrow> (err, w\<lparr>wdb := d\<rparr>))"

definition peerctl_list :: "'d bolt \<Rightarrow> 'd world \<Rightarrow> gerror + string list" where
  "peerctl_list B w = DB_View B (\<lambda>tx. Inr (map fst (tx_foreach B tx BucketPeers))) (wdb w)"

text \<open>The commands around them; the stored value of a peer is the JSON of its address information.\<close>

definition addCmd :: "prims \<Rightarrow> 'd bolt \<Rightarrow> net \<Rightarrow> (string \<Rightarrow> string) \<Rightarrow> (string \<Rightarrow> bytes) \<Rightarrow> (gerror + Config) \<Rightarrow> string \<Rightarrow> string \<Rightarrow>
    nat \<Rightarrow> Metrics \<Rightarrow> gerror option \<times> 'd world option" where
  "addCmd P B N peer_ID marshal_info cfg passphrase maddrStr r m =
     (if passphrase = [] then (Some passphrase_required, None)
      else
        (case cfg of
           Inl err \<Rightarrow> (Some err, None)
         | Inr cfg \<Rightarrow>
             (case Agent_New P B N cfg passphrase r m of
                (Inl err, _) \<Rightarrow> (Some err, None)
              | (Inr (ag, db), r', _) \<Rightarrow>
                  (let w = \<lparr>wdb = db, wrng = r'\<rparr> in
                   case NewMultiaddr N maddrStr of
                     Some err \<Rightarrow> (Some err, Some w)
                   | None \<Rightarrow>
                       (case AddrInfoFromP2pAddr N maddrStr of
                          Inl err \<Rightarrow> (Some err, Some w)
                        | Inr info \<Rightarrow>
                            (case Host_Connect N info of
                               Some err \<Rightarrow> (Some err, Some w)
                             | None \<Rightarrow>
                                 (case peerctl_add B (peer_ID info) (marshal_info info) w of (err, w') \<Rightarrow> (err, Some w'))))))))"

definition removeCmd :: "prims \<Rightarrow> 'd bolt \<Rightarrow> net \<Rightarrow> (gerror + Config) \<Rightarrow> string \<Rightarrow> string \<Rightarrow> nat \<Rightarrow> Metrics \<Rightarrow>
    gerror option \<times> 'd world option" where
  "removeCmd P B N cfg passphrase peerID r m =
     (if passphrase = [] then (Some passphrase_required, None)
      else
        (case cfg of
           Inl err \<Rightarrow> (Some err, None)
         | Inr cfg \<Rightarrow>
             (case Agent_New P B N cfg passphrase r m of
                (Inl err, _) \<Rightarrow> (Some err, None)
              | (Inr (ag, db), r', _) \<Rightarrow>
                  (case peerctl_remove B peerID \<lparr>wdb = db, wrng = r'\<rparr> of (err, w') \<Rightarrow> (err, Some w')))))"

definition listCmd :: "prims \<Rightarrow> 'd bolt \<Rightarrow> net \<Rightarrow> (gerror + Config) \<Rightarrow> string \<Rightarrow> nat \<Rightarrow> Metrics \<Rightarrow> gerror + string list" where
  "listCmd P B N cfg passphrase r m =
     (if passphrase = [] then Inl passphrase_required
      else
        (case cfg of
           Inl err \<Rightarrow> Inl err
         | Inr cfg \<Rightarrow>
             (case Agent_New P B N cfg passphrase r m of
                (Inl err, _) \<Rightarrow> Inl err
              | (Inr (ag, db), r', _) \<Rightarrow> peerctl_list B \<lparr>wdb = db, wrng = r'\<rparr>)))"

text \<open>
  \<open>RunDaemon\<close> and the command \<open>daemon\<close>: after the subscription, the messages of the topic are handled until a
  signal or the end of the context.
\<close>

datatype daemon_end = By_signal | By_context gerror

definition RunDaemon :: "prims \<Rightarrow> codec \<Rightarrow> 'd bolt \<Rightarrow> wire \<Rightarrow> publish \<Rightarrow> 'j inbox \<Rightarrow> Agent \<Rightarrow> gerror option \<Rightarrow> bytes list \<Rightarrow>
    daemon_end \<Rightarrow> 'd pnode \<Rightarrow> gerror option outcome \<times> 'd pnode" where
  "RunDaemon P C B W pub J a subscribe ds fin n =
     (case subscribe of
        Some err \<Rightarrow> (Ret (Some err), n)
      | None \<Rightarrow>
          (case handlePubSub P C B W pub J a ds n of
             (Panic msg, n') \<Rightarrow> (Panic msg, n')
           | (Ret _, n') \<Rightarrow> (Ret (case fin of By_signal \<Rightarrow> None | By_context err \<Rightarrow> Some err), n')))"

definition initCmd :: "prims \<Rightarrow> codec \<Rightarrow> 'd bolt \<Rightarrow> net \<Rightarrow> wire \<Rightarrow> publish \<Rightarrow> 'j inbox \<Rightarrow> (gerror + Config) \<Rightarrow> string \<Rightarrow>
    gerror option \<Rightarrow> bytes list \<Rightarrow> daemon_end \<Rightarrow> nat \<Rightarrow> Metrics \<Rightarrow> gerror option outcome \<times> 'd pnode option" where
  "initCmd P C B N W pub J cfg passphrase subscribe ds fin r m =
     (if passphrase = [] then (Ret (Some passphrase_required), None)
      else
        (case cfg of
           Inl err \<Rightarrow> (Ret (Some err), None)
         | Inr cfg \<Rightarrow>
             (case Agent_New P B N cfg passphrase r m of
                (Inl err, _) \<Rightarrow> (Ret (Some err), None)
              | (Inr (ag, db), r', m') \<Rightarrow>
                  (case RunDaemon P C B W pub J ag subscribe ds fin (new_pnode db r' m') of (res, n) \<Rightarrow> (res, Some n)))))"

section \<open>Restoring what was backed up\<close>

definition file_contents :: "visit list \<Rightarrow> bytes" where
  "file_contents vs = concat (map (\<lambda>v. case v of Visit_file (Inr (data, _)) \<Rightarrow> data | _ \<Rightarrow> []) vs)"

text \<open>A tree none of whose files has a boundary inside a buffer.\<close>

definition lossless :: "int \<Rightarrow> int \<Rightarrow> visit list \<Rightarrow> bool" where
  "lossless mn mx vs \<longleftrightarrow>
     (\<forall>data e. Visit_file (Inr (data, e)) \<in> set vs \<longrightarrow> concat (file_chunks mn mx data) = data)"

lemma lossless_contents: "lossless mn mx vs \<Longrightarrow> concat (tree_chunks mn mx vs) = file_contents vs"
proof (induction vs)
  case (Cons v vs)
  have "concat (visit_chunks mn mx v) = (case v of Visit_file (Inr (data, _)) \<Rightarrow> data | _ \<Rightarrow> [])"
    using Cons.prems by (cases "(mn, mx, v)" rule: visit_chunks.cases) (auto simp: lossless_def)
  moreover have "lossless mn mx vs" using Cons.prems by (auto simp: lossless_def)
  ultimately show ?case using Cons.IH by (simp add: tree_chunks_def file_contents_def)
qed (simp add: tree_chunks_def file_contents_def)

lemma restore_loop_all:
  assumes "list_all2 (\<lambda>h m. get h = Ret (Inr m)) hs ms" and "\<And>d. write d = None"
  shows "restore_loop get write hs out = (Ret None, out @ concat ms)"
  using assms(1) by (induction hs ms arbitrary: out rule: list_all2_induct) (simp_all add: assms(2))

lemma GetChunk_same_blocks:
  assumes "world_ready B w" and "world_ready B w'" and "Blocks B w' = Blocks B w"
  shows "Store_GetChunk P B s h w' = Store_GetChunk P B s h w"
  using assms by (simp add: Store_GetChunk_def lookup_tx_def world_ready_def)

lemma CreateAndSaveSnapshot_ok:
  assumes "CreateAndSaveSnapshot P C T B W pub a path root t1 t2 dur n = (Ret None, n')"
  obtains snap w where "CreateSnapshot P C T B path root (a_Store a) (a_SignerPub a) (a_SignerPriv a) []
      (MinChunkSize (cfg_Snapshot (a_Config a))) (MaxChunkSize (cfg_Snapshot (a_Config a)))
      (AvgChunkSize (cfg_Snapshot (a_Config a))) t1 t2 (pworld n) = (Ret (Inr snap), w)"
    and "SaveSnapshot C B w snap = (None, pworld n')"
proof -
  have "pworld (snd (BroadcastSnapshot W pub sn k)) = pworld k" for sn and k :: "'a pnode"
    by (simp add: BroadcastSnapshot_def meter_def split: sum.splits option.splits)
  with assms that show ?thesis
    by (auto simp: CreateAndSaveSnapshot_def Let_def meter_def split: prod.splits outcome.splits sum.splits option.splits)
qed

locale agent_env = store_env B P "a_Store a" + versions: version_env B C + clock_laws T
  for B :: "'d bolt" and P :: prims and a :: Agent and C :: codec and T :: clock
begin

abbreviation min_size :: int where "min_size \<equiv> MinChunkSize (cfg_Snapshot (a_Config a))"
abbreviation max_size :: int where "max_size \<equiv> MaxChunkSize (cfg_Snapshot (a_Config a))"

lemma backup_then_restore:
  assumes "snaps_ok C B (pworld n)" and "blocks_named P B (a_Store a) (pworld n)" and "0 < max_size"
    and "ascii path" and "0 \<le> t2" and "t2 < year_10000"
    and "inj_on (hash_str P) (ran (Plain P B (a_Store a) (pworld n)) \<union> set (tree_chunks min_size max_size (walk root)))"
    and "CreateAndSaveSnapshot P C T B W pub a path root t1 t2 dur n = (Ret None, n')"
    and "\<And>d. write d = None"
  shows "restore_run P C B (a_Store a) (''snap-'' @ itoa (unix_seconds t1)) None None write (pworld n') =
    (Ret None, concat (tree_chunks min_size max_size (walk root))) \<and> snaps_ok C B (pworld n')"
proof -
  obtain snap w where cr: "CreateSnapshot P C T B path root (a_Store a) (a_SignerPub a) (a_SignerPriv a) []
      min_size max_size (AvgChunkSize (cfg_Snapshot (a_Config a))) t1 t2 (pworld n) = (Ret (Inr snap), w)"
    and save: "SaveSnapshot C B w snap = (None, pworld n')"
    by (rule CreateAndSaveSnapshot_ok [OF assms(8)])
  have rdy: "world_ready B (pworld n)" using assms(1) by (rule snaps_ok_ready)
  note made = snapshot_chunks [OF rdy assms(2,3) cr assms(7)]
  have okw: "snaps_ok C B w" using snaps_other_buckets [OF assms(1)] made by blast
  have asc: "ascii_snapshot snap"
    by (rule created_ascii [OF clock_laws_axioms assms(5,6,4) _ assms(3) rdy cr]) simp
  note saved = versions.save_then_load [OF okw asc save]
  have id: "ID snap = ''snap-'' @ itoa (unix_seconds t1)" by (rule CreateSnapshot_ID [OF assms(3) cr])
  have blocks: "Blocks B (pworld n') = Blocks B w" using saved blocks_non_snapshots by blast
  have "Store_GetChunk P B (a_Store a) (hash_str P m) (pworld n') = Ret (Inr m)"
    if "m \<in> set (tree_chunks min_size max_size (walk root))" for m
    using made that GetChunk_same_blocks [OF _ _ blocks] saved snaps_ok_ready by metis
  then have "list_all2 (\<lambda>h m. Store_GetChunk P B (a_Store a) h (pworld n') = Ret (Inr m)) (Chunks snap)
      (tree_chunks min_size max_size (walk root))"
    using made by (simp add: list_all2_conv_all_nth)
  note loop = restore_loop_all [OF this, of "write" "[]", OF assms(9)]
  have "LoadSnapshot C B (pworld n') (''snap-'' @ itoa (unix_seconds t1)) = Inr snap"
    using saved id by metis
  with loop saved show ?thesis unfolding restore_run_def by simp
qed

end

section \<open>The message loop\<close>

lemma meter_fields [simp]:
  "pworld (meter f n) = pworld n" "metrics (meter f n) = f (metrics n)" "outbox (meter f n) = outbox n"
  by (simp_all add: meter_def)

lemma MessagesReceived_unchanged [simp]:
  "MessagesReceived (RecordChunkRequest s f m) = MessagesReceived m"
  "MessagesReceived (RecordPeerDiscovered m) = MessagesReceived m"
  "MessagesReceived (RecordMessageReceived m) = MessagesReceived m + 1"
  by (simp_all add: RecordChunkRequest_def RecordPeerDiscovered_def RecordMessageReceived_def Let_def)

text \<open>
  What a sequence of messages can do to a node: count them, write blocks that are named after their own hash, and
  nothing else to the database.
\<close>

definition blocks_sound :: "prims \<Rightarrow> 'd bolt \<Rightarrow> 'd world \<Rightarrow> 'd world \<Rightarrow> bool" where
  "blocks_sound P B w w' \<longleftrightarrow> other_buckets B w' = other_buckets B w \<and>
     (\<forall>h. Blocks B w' h = Blocks B w h \<or> (\<exists>v. Blocks B w' h = Some v \<and> hash_str P v = h))"

lemma blocks_sound_refl [simp]: "blocks_sound P B w w"
  by (simp add: blocks_sound_def)

lemma blocks_sound_trans: "blocks_sound P B w w' \<Longrightarrow> blocks_sound P B w' w'' \<Longrightarrow> blocks_sound P B w w''"
  unfolding blocks_sound_def by metis

lemma HandleChunkRequest_frame:
  "HandleChunkRequest P B W pub cf req n = (r, n') \<Longrightarrow>
     pworld n' = pworld n \<and> MessagesReceived (metrics n') = MessagesReceived (metrics n)"
  by (auto simp: HandleChunkRequest_def Let_def split: outcome.splits option.splits sum.splits)

lemma notify_frame [simp]: "pworld (notify h d n) = pworld n" "metrics (notify h d n) = metrics n"
  by (simp_all add: notify_def split: option.splits)

context bolt_db
begin

lemma HandleChunkResponse_frame:
  assumes "world_ready B (pworld n)" and "HandleChunkResponse P B resp n = (r, n')"
  shows "world_ready B (pworld n') \<and> blocks_sound P B (pworld n) (pworld n') \<and> metrics n' = metrics n"
proof (cases "r = Ret None")
  case True
  with assms(2) have acc: "HandleChunkResponse P B resp n = (Ret None, n')" by simp
  show ?thesis
  proof (rule HandleChunkResponse_accepts [OF assms(1) acc])
    fix data
    assume h: "hash_str P data = cs_Hash resp" and r: "world_ready B (pworld n')"
      and b: "Blocks B (pworld n') = (Blocks B (pworld n))(cs_Hash resp \<mapsto> data)"
      and o: "other_buckets B (pworld n') = other_buckets B (pworld n)"
      and n': "n' = notify (cs_Hash resp) data (n\<lparr>pworld := pworld n'\<rparr>)"
    from arg_cong [OF n', of metrics] have "metrics n' = metrics n" by simp
    with h r b o show ?thesis by (auto simp: blocks_sound_def)
  qed
next
  case False
  with HandleChunkResponse_rejects [OF assms(2)] assms(1) show ?thesis by simp
qed

lemma handle_message_frame:
  assumes "world_ready B (pworld n)" and "handle_message P C B W pub J a d n = (r, n')"
  shows "world_ready B (pworld n') \<and> blocks_sound P B (pworld n) (pworld n') \<and>
    MessagesReceived (metrics n') = MessagesReceived (metrics n) + 1"
proof -
  let ?n = "meter RecordMessageReceived n"
  have req: "pworld n2 = pworld n \<and> MessagesReceived (metrics n2) = MessagesReceived (metrics n) + 1"
    if "handleChunkRequest P B W pub J a e ?n = (r2, n2)" for e r2 n2
    using that HandleChunkRequest_frame
    by (fastforce simp: handleChunkRequest_def split: sum.splits prod.splits outcome.splits)
  have resp: "world_ready B (pworld n2) \<and> blocks_sound P B (pworld n) (pworld n2) \<and>
      MessagesReceived (metrics n2) = MessagesReceived (metrics n) + 1"
    if "handleChunkResponse P B J e ?n = (r2, n2)" for e r2 n2
    using that assms(1) HandleChunkResponse_frame [of ?n]
    by (fastforce simp: handleChunkResponse_def split: sum.splits prod.splits outcome.splits)
  have add: "pworld n2 = pworld n \<and> MessagesReceived (metrics n2) = MessagesReceived (metrics n) + 1"
    if "handlePeerAdd P J a e ?n = (r2, n2) \<or> handlePeerRemove P J a e ?n = (r2, n2)" for e r2 n2
    using that
    by (auto simp: handlePeerAdd_def handlePeerRemove_def split: sum.splits outcome.splits option.splits if_splits)
  show ?thesis
    using assms req resp add
    by (auto simp: handle_message_def Let_def split: sum.splits option.splits if_splits prod.splits) force+
qed

lemma handlePubSub_frame:
  assumes "world_ready B (pworld n)" and "handlePubSub P C B W pub J a ds n = (r, n')"
  shows "world_ready B (pworld n') \<and> blocks_sound P B (pworld n) (pworld n') \<and>
    (\<exists>k \<le> length ds. MessagesReceived (metrics n') = MessagesReceived (metrics n) + of_nat k \<and>
       (\<not> is_panic r \<longrightarrow> k = length ds))"
  using assms
proof (induction ds arbitrary: n r)
  case (Cons d ds)
  obtain r1 n1 where msg: "handle_message P C B W pub J a d n = (r1, n1)" by (metis surj_pair)
  note one = handle_message_frame [OF Cons.prems(1) msg]
  show ?case
  proof (cases r1)
    case (Panic m)
    with Cons.prems(2) msg have "n' = n1" "is_panic r" by auto
    with one show ?thesis by (auto intro!: exI [of _ "1::nat"])
  next
    case (Ret sns)
    obtain r2 n2 where rest: "handlePubSub P C B W pub J a ds n1 = (r2, n2)" by (metis surj_pair)
    from Cons.prems(2) msg Ret rest have n': "n' = n2" and pan: "is_panic r2 = is_panic r"
      by (auto split: outcome.splits)
    from Cons.IH [OF _ rest [folded n']] one obtain k where
      "k \<le> length ds" "MessagesReceived (metrics n') = MessagesReceived (metrics n1) + of_nat k"
      "\<not> is_panic r2 \<longrightarrow> k = length ds" "world_ready B (pworld n')" "blocks_sound P B (pworld n1) (pworld n')"
      by (auto simp: n')
    with one pan show ?thesis
      by (auto intro!: exI [of _ "Suc k"] intro: blocks_sound_trans simp: add.assoc)
  qed
qed simp

end

lemma Agent_New_ok:
  assumes "Agent_New P B N cfg passphrase r m = (Inr (a, db), r', m')"
  obtains "DB_Open B (filepath_Join (RepositoryPath cfg) ''metadata.db'') = Inr db"
    and "baseKey (a_Store a) = fst (DeriveKey P passphrase None r)" and "length (baseKey (a_Store a)) = 32"
    and "a_ACL a = NewACL (Admins (cfg_ACL cfg))" and "a_Config a = cfg"
    and "ed_generate P (Suc r) = Some (a_SignerPub a, a_SignerPriv a)"
  using assms
  by (auto simp: Agent_New_def Store_New_def GenerateEd25519Keypair_def DeriveKey_def Let_def
      split: sum.splits prod.splits option.splits if_splits)

lemma DeriveKey_fresh:
  "rand_read P r 16 = Some s \<Longrightarrow> fst (DeriveKey P passphrase None r) = argon2_IDKey P passphrase s 1 65536 4 32"
  by (simp add: DeriveKey_def saltSize_def Let_def)

text \<open>
  The administrators' messages among those received.
\<close>

definition admin_peer_add :: "prims \<Rightarrow> 'j inbox \<Rightarrow> Agent \<Rightarrow> bytes \<Rightarrow> bool" where
  "admin_peer_add P J a d \<longleftrightarrow>
     (case parse_envelope J d of
        Inl _ \<Rightarrow> False
      | Inr envelope \<Rightarrow> as_string J (envelope ''type'') = Some ''peer_add'' \<and>
          (case to_peer_add J (envelope ''peer_add'') of
             Inl _ \<Rightarrow> False
           | Inr pa \<Rightarrow> PeerAdd_Validate P pa = Ret None \<and> ACL_IsAdmin (a_ACL a) (pa_SignerPub pa)))"

lemma PeersDiscovered_unchanged [simp]:
  "PeersDiscovered (RecordChunkRequest s f m) = PeersDiscovered m"
  "PeersDiscovered (RecordPeerDiscovered m) = PeersDiscovered m + 1"
  "PeersDiscovered (RecordMessageReceived m) = PeersDiscovered m"
  by (simp_all add: RecordChunkRequest_def RecordPeerDiscovered_def RecordMessageReceived_def Let_def)

lemma HandleChunkResponse_metrics: "HandleChunkResponse P B resp n = (r, n') \<Longrightarrow> metrics n' = metrics n"
  by (auto simp: HandleChunkResponse_def Let_def split: outcome.splits option.splits sum.splits if_splits prod.splits)

lemma HandleChunkRequest_discovered:
  "HandleChunkRequest P B W pub cf req n = (r, n') \<Longrightarrow> PeersDiscovered (metrics n') = PeersDiscovered (metrics n)"
  by (auto simp: HandleChunkRequest_def Let_def split: outcome.splits option.splits sum.splits)

lemma handle_message_discovered:
  assumes "handle_message P C B W pub J a d n = (r, n')"
  shows "PeersDiscovered (metrics n') = PeersDiscovered (metrics n) + (if admin_peer_add P J a d then 1 else 0)"
proof -
  let ?n = "meter RecordMessageReceived n"
  have req: "PeersDiscovered (metrics n2) = PeersDiscovered (metrics n)"
    if "handleChunkRequest P B W pub J a e ?n = (r2, n2)" for e r2 n2
    using that HandleChunkRequest_discovered
    by (fastforce simp: handleChunkRequest_def split: sum.splits prod.splits outcome.splits)
  have resp: "PeersDiscovered (metrics n2) = PeersDiscovered (metrics n)"
    if "handleChunkResponse P B J e ?n = (r2, n2)" for e r2 n2
    using that HandleChunkResponse_metrics
    by (fastforce simp: handleChunkResponse_def split: sum.splits prod.splits outcome.splits)
  have rem: "PeersDiscovered (metrics n2) = PeersDiscovered (metrics n)"
    if "handlePeerRemove P J a e ?n = (r2, n2)" for e r2 n2
    using that by (auto simp: handlePeerRemove_def split: sum.splits outcome.splits option.splits if_splits)
  have add: "PeersDiscovered (metrics (snd (handlePeerAdd P J a e ?n))) = PeersDiscovered (metrics n) +
      (case to_peer_add J (e ''peer_add'') of Inl _ \<Rightarrow> 0
       | Inr pa \<Rightarrow> if PeerAdd_Validate P pa = Ret None \<and> ACL_IsAdmin (a_ACL a) (pa_SignerPub pa) then 1 else 0)" for e
    by (auto simp: handlePeerAdd_def split: sum.splits outcome.splits option.splits)
  show ?thesis
  proof (cases "parse_envelope J d")
    case (Inl e)
    with assms show ?thesis by (auto simp: handle_message_def admin_peer_add_def Let_def)
  next
    case (Inr e)
    show ?thesis
    proof (cases "as_string J (e ''type'') = Some ''peer_add''")
      case True
      with assms Inr add [of e] show ?thesis
        by (auto simp: handle_message_def admin_peer_add_def Let_def case_prod_unfold split: sum.splits)
    next
      case False
      then have "\<not> admin_peer_add P J a d" using Inr by (simp add: admin_peer_add_def)
      with assms Inr False req resp rem show ?thesis
        by (auto simp: handle_message_def Let_def split: option.splits if_splits prod.splits)
    qed
  qed
qed

lemma handlePubSub_discovered:
  assumes "handlePubSub P C B W pub J a ds n = (r, n')"
  shows "\<exists>k \<le> length ds. (\<not> is_panic r \<longrightarrow> k = length ds) \<and>
    PeersDiscovered (metrics n') = PeersDiscovered (metrics n) + of_nat (length (filter (admin_peer_add P J a) (take k ds)))"
  using assms
proof (induction ds arbitrary: n r)
  case (Cons d ds)
  obtain r1 n1 where msg: "handle_message P C B W pub J a d n = (r1, n1)" by (metis surj_pair)
  note one = handle_message_discovered [OF msg]
  show ?case
  proof (cases r1)
    case (Panic m)
    with Cons.prems msg have "n' = n1" "is_panic r" by auto
    with one show ?thesis by (auto intro!: exI [of _ "1::nat"])
  next
    case (Ret sns)
    obtain r2 n2 where rest: "handlePubSub P C B W pub J a ds n1 = (r2, n2)" by (metis surj_pair)
    from Cons.prems msg Ret rest have n': "n' = n2" and pan: "is_panic r2 = is_panic r"
      by (auto split: outcome.splits)
    from Cons.IH [OF rest [folded n']] obtain k where "k \<le> length ds" "\<not> is_panic r2 \<longrightarrow> k = length ds"
      "PeersDiscovered (metrics n') = PeersDiscovered (metrics n1) + of_nat (length (filter (admin_peer_add P J a) (take k ds)))"
      by auto
    with one pan show ?thesis by (intro exI [of _ "Suc k"]) (auto simp: add.assoc)
  qed
qed simp

section \<open>A concrete agent\<close>

definition wit_config :: Config where
  "wit_config = (applyDefaults empty_config)\<lparr>cfg_Snapshot := \<lparr>MinChunkSize = 16, MaxChunkSize = 64, AvgChunkSize = 32,
     Compression = False\<rparr>\<rparr>"

definition wit_agent :: Agent where
  "wit_agent = \<lparr>a_Config = wit_config, a_Store = wit_store, a_Fetcher = wit_fetcher,
     a_ACL = NewACL [base64_EncodeToString wit_pub], a_SignerPub = wit_pub, a_SignerPriv = wit_priv\<rparr>"

lemma wit_agent_fields:
  "a_Store wit_agent = wit_store" "a_SignerPub wit_agent = wit_pub" "a_SignerPriv wit_agent = wit_priv"
  "MinChunkSize (cfg_Snapshot (a_Config wit_agent)) = 16" "MaxChunkSize (cfg_Snapshot (a_Config wit_agent)) = 64"
  "AvgChunkSize (cfg_Snapshot (a_Config wit_agent)) = 32"
  by (simp_all add: wit_agent_def wit_config_def)

interpretation wit_agent: agent_env mem_bolt ref_prims wit_agent ref_codec ref_clock
  using wit.store_env_axioms wit_versions.version_env_axioms ref_clock.clock_laws_axioms
  by (simp add: agent_env_def wit_agent_fields)

lemma wit_agent_backup:
  obtains n' where "CreateAndSaveSnapshot ref_prims ref_codec ref_clock mem_bolt ref_wire (\<lambda>_. None) wit_agent ''/data'' wit_tree
    5 5 0 (wit_node wit_world) = (Ret None, n')"
proof -
  obtain sn w where b: "wit_backup 5 = (Ret (Inr sn), w)" by (rule wit_backup_ok)
  have "world_ready mem_bolt w"
    using wit.snapshot_chunks [OF wit_ready wit_named _ b] by (auto simp: wit_chunks wit_no_plain ref_hash_differs)
  moreover have "ID sn \<noteq> []" using CreateSnapshot_ID [OF _ b] by simp
  ultimately obtain w' where "SaveSnapshot ref_codec mem_bolt w sn = (None, w')" by (rule mem_save_ok)
  with b that show ?thesis
    by (simp add: CreateAndSaveSnapshot_def wit_agent_fields wit_node_def Let_def)
qed

text \<open>The keys of the salts 0 and 2.\<close>

lemma replicates:
  "replicate 15 x = [x, x, x, x, x, x, x, x, x, x, x, x, x, x, x]" "replicate 12 x = [x, x, x, x, x, x, x, x, x, x, x, x]"
  "replicate 11 x = [x, x, x, x, x, x, x, x, x, x, x]"
  by (simp_all add: numeral_eq_Suc)

lemma wit_other_key:
  "gcm_open ref_prims (argon2_IDKey ref_prims ''secret'' (replicate 16 (byte_of 2)) 1 65536 4 32) (replicate 12 (byte_of 0))
     (gcm_seal ref_prims (argon2_IDKey ref_prims ''secret'' (replicate 16 (byte_of 0)) 1 65536 4 32)
       (replicate 12 (byte_of 0)) ''hello'') = None"
  by (simp add: ref_prims_def ref_open_def ref_tag_def sum_byte_def replicates byte_val_def byte_of_def)

lemma wit_new:
  obtains a db r' m' where
    "Agent_New ref_prims mem_bolt wit_net wit_config ''secret'' r NewMetrics = (Inr (a, db), r', m')"
proof -
  have "\<exists>db. DB_Open mem_bolt path = Inr db" for path
    by (simp add: DB_Open_def DB_Update_def mem_bolt_def all_buckets_def split: option.splits)
  then obtain db where db: "DB_Open mem_bolt (filepath_Join (RepositoryPath wit_config) ''metadata.db'') = Inr db" by blast
  obtain key where key: "DeriveKey ref_prims ''secret'' None r = (key, Suc r)"
    by (simp add: DeriveKey_def Let_def)
  then have "length key = 32" by (rule ref.DeriveKey_length)
  then have store: "Store_New key = Inr \<lparr>baseKey = key\<rparr>" by (simp add: Store_New_def)
  obtain pub priv where keys: "GenerateEd25519Keypair ref_prims (Suc r) = (Inr (pub, priv), Suc (Suc r))"
    by (simp add: GenerateEd25519Keypair_def ref_prims_def)
  obtain cf m' where "Setup wit_net wit_config \<lparr>baseKey = key\<rparr> pub priv NewMetrics = (Inr cf, m')"
    by (simp add: Setup_def wit_net_def Let_def)
  with db key store keys that show ?thesis by (simp add: Agent_New_def Let_def)
qed

section \<open>Properties\<close>



text \<open>
  C6. Peers cannot touch snapshots or plant wrong blocks: whatever messages arrive, handled completely or cut
  short by a panic, every bucket other than the blocks is unchanged, each block is what it was or hashes to
  its name, and the counter of received messages has grown by the number of messages taken from the
  subscription, which is all of them unless the process panicked.
\<close>

theorem peer_messages_integrity:
  assumes "bolt_db B" and "world_ready B (pworld n)" and "handlePubSub P C B W pub J a ds n = (r, n')"
  shows "world_ready B (pworld n') \<and> other_buckets B (pworld n') = other_buckets B (pworld n) \<and>
    (\<forall>h. Blocks B (pworld n') h = Blocks B (pworld n) h \<or>
       (\<exists>v. Blocks B (pworld n') h = Some v \<and> hash_str P v = h)) \<and>
    (\<exists>k \<le> length ds. MessagesReceived (metrics n') = MessagesReceived (metrics n) + of_nat k \<and>
       (\<not> is_panic r \<longrightarrow> k = length ds))"
  using bolt_db.handlePubSub_frame [OF assms] by (simp add: blocks_sound_def)

definition wit_peer_add :: PeerAdd where
  "wit_peer_add = \<lparr>pa_Addr = ''/ip4/1.2.3.4'', pa_PeerID = ''p'', pa_SignerPub = base64_EncodeToString wit_pub,
     pa_Signature = base64_EncodeToString (ed_sign ref_prims wit_priv (''/ip4/1.2.3.4'' @ ''|'' @ ''p''))\<rparr>"

definition wit_inbox :: "bytes inbox" where
  "wit_inbox = \<lparr>parse_envelope = (\<lambda>d. if d = [] then Inl (ErrorString ''unexpected end of JSON input'') else Inr (\<lambda>k. Some d)),
     as_string = (\<lambda>j. j), to_announcement = (\<lambda>j. Inl b64_error), to_request = (\<lambda>j. Inl b64_error),
     to_response = (\<lambda>j. Inr wit_response), to_peer_add = (\<lambda>j. Inr wit_peer_add), to_peer_remove = (\<lambda>j. Inl b64_error)\<rparr>"

theorem peer_messages_integrity_witness:
  "\<exists>r n'. handlePubSub ref_prims ref_codec mem_bolt ref_wire (\<lambda>_. None) wit_inbox wit_agent
      [''chunk_response'', [], ''hello''] (wit_node wit_world) = (r, n') \<and>
     other_buckets mem_bolt (pworld n') = other_buckets mem_bolt wit_world"
proof -
  obtain r n' where run: "handlePubSub ref_prims ref_codec mem_bolt ref_wire (\<lambda>_. None) wit_inbox wit_agent
      [''chunk_response'', [], ''hello''] (wit_node wit_world) = (r, n')" by (metis surj_pair)
  have w: "pworld (wit_node wit_world) = wit_world" by (simp add: wit_node_def)
  from peer_messages_integrity [OF mem.bolt_db_axioms _ run, unfolded w, OF wit_ready] run show ?thesis by blast
qed





text \<open>
  C27. Only administrators add peers: whatever arrives on the topic, the counter of discovered peers
  grows by exactly the number of handled \<open>peer_add\<close> messages that carry a valid signature of a key on
  the configured list of administrators.
\<close>

theorem only_admins_add_peers:
  assumes "handlePubSub P C B W pub J a ds n = (r, n')"
  shows "\<exists>k \<le> length ds. (\<not> is_panic r \<longrightarrow> k = length ds) \<and>
    PeersDiscovered (metrics n') = PeersDiscovered (metrics n) +
      of_nat (length (filter (admin_peer_add P J a) (take k ds)))"
  using handlePubSub_discovered [OF assms] .

lemma wit_admin_add: "admin_peer_add ref_prims wit_inbox wit_agent ''peer_add''"
proof -
  have "Verify ref_prims (''/ip4/1.2.3.4'' @ ''|'' @ ''p'') (ed_sign ref_prims wit_priv (''/ip4/1.2.3.4'' @ ''|'' @ ''p'')) wit_pub = Ret True"
    using ref.ed_keypair [OF wit_keys] by (simp add: Verify_def ed_PublicKeySize_def)
  then have "PeerAdd_Validate ref_prims wit_peer_add = Ret None"
    by (simp only: PeerAdd_Validate_def wit_peer_add_def PeerAdd.select_convs base64_round_trip Let_def option.simps
        outcome.simps if_True)
  moreover have "ACL_IsAdmin (a_ACL wit_agent) (pa_SignerPub wit_peer_add)"
    by (simp add: wit_agent_def wit_peer_add_def)
  ultimately show ?thesis by (simp add: admin_peer_add_def wit_inbox_def)
qed

theorem only_admins_add_peers_witness:
  "\<exists>n'. handlePubSub ref_prims ref_codec mem_bolt ref_wire (\<lambda>_. None) wit_inbox wit_agent
      [''peer_add'', [], ''peer_add''] (wit_node wit_world) = (Ret [], n') \<and> PeersDiscovered (metrics n') = 2"
proof -
  let ?ds = "[''peer_add'', [], ''peer_add'']"
  obtain r n' where run: "handlePubSub ref_prims ref_codec mem_bolt ref_wire (\<lambda>_. None) wit_inbox wit_agent
      ?ds (wit_node wit_world) = (r, n')" by (metis surj_pair)
  have "PeerAdd_Validate ref_prims wit_peer_add = Ret None" "ACL_IsAdmin (a_ACL wit_agent) (pa_SignerPub wit_peer_add)"
    using wit_admin_add by (simp_all add: admin_peer_add_def wit_inbox_def)
  then have "handle_message ref_prims ref_codec mem_bolt ref_wire (\<lambda>_. None) wit_inbox wit_agent ''peer_add'' n =
      (Ret [], meter RecordPeerDiscovered (meter RecordMessageReceived n))" for n :: "mem_db pnode"
    by (simp add: handle_message_def handlePeerAdd_def wit_inbox_def Let_def split: unit.split)
  moreover have "handle_message ref_prims ref_codec mem_bolt ref_wire (\<lambda>_. None) wit_inbox wit_agent [] n =
      (Ret [], meter RecordMessageReceived n)" for n :: "mem_db pnode"
    by (simp add: handle_message_def wit_inbox_def Let_def)
  ultimately have r: "r = Ret []" using run by (simp only: handlePubSub.simps prod.case outcome.case append_Nil prod.inject)
  have "\<not> admin_peer_add ref_prims wit_inbox wit_agent []" by (simp add: admin_peer_add_def wit_inbox_def)
  moreover have "PeersDiscovered (metrics (wit_node wit_world)) = 0" by (simp add: wit_node_def NewMetrics_def)
  ultimately show ?thesis using only_admins_add_peers [OF run] run r wit_admin_add by auto
qed

text \<open>
  Repairing from a peer destroys what it repairs: an accepted chunk response replaces the local block, which is nonce
  and ciphertext, by the data of the response itself. For a chunk of fewer than 28 bytes the result is never
  readable again, although the data was right.
\<close>

theorem accepted_response_unreadable:
  assumes "store_env B P s" and "world_ready B (pworld n)" and "HandleChunkResponse P B resp n = (Ret None, n')"
    and "base64_DecodeString (cs_Data resp) = Some data" and "length data < 28"
  shows "hash_str P data = cs_Hash resp \<and> (\<exists>e. Store_GetChunk P B s (cs_Hash resp) (pworld n') = Ret (Inl e))"
proof -
  have db: "bolt_db B" and crypto: "crypto_prims P" and key: "length (baseKey s) = 32"
    using assms(1) by (simp_all add: store_env_def store_env_axioms_def)
  obtain rdy: "world_ready B (pworld n')" and hash: "hash_str P data = cs_Hash resp"
    and block: "Blocks B (pworld n') (cs_Hash resp) = Some data"
    by (rule bolt_db.HandleChunkResponse_accepts [OF db assms(2,3)]) (use assms(4) that in auto)
  have "gcm_open P (baseKey s) (take 12 data) (drop 12 data) = None" if "12 \<le> length data"
  proof (rule ccontr)
    assume "gcm_open P (baseKey s) (take 12 data) (drop 12 data) \<noteq> None"
    then obtain m where "gcm_open P (baseKey s) (take 12 data) (drop 12 data) = Some m" by blast
    from crypto_prims.gcm_open_length [OF crypto this] that assms(5) show False by simp
  qed
  then have "\<exists>e. Store_GetChunk P B s (cs_Hash resp) (pworld n') = Ret (Inl e)"
    using rdy block key
    by (auto simp: Store_GetChunk_def lookup_tx_def world_ready_def Decrypt_def aes_NewCipher_def aes_key_ok_def gcm_NonceSize_def)
  with hash show ?thesis by blast
qed

theorem accepted_response_unreadable_witness:
  "\<exists>n' e. HandleChunkResponse ref_prims mem_bolt wit_response (wit_node wit_world) = (Ret None, n') \<and>
     Store_GetChunk ref_prims mem_bolt wit_store (hash_str ref_prims ''hello'') (pworld n') = Ret (Inl e)"
proof -
  have rdy: "world_ready mem_bolt (pworld (wit_node wit_world))" using wit_ready by (simp add: wit_node_def)
  then obtain n' where n': "HandleChunkResponse ref_prims mem_bolt wit_response (wit_node wit_world) = (Ret None, n')"
    by (rule wit_response_accepted)
  from accepted_response_unreadable [OF wit.store_env_axioms rdy n' wit_response_fields(2)] n' wit_response_fields(1)
  show ?thesis by auto
qed

text \<open>
  The stored peers: what \<open>peerctl add\<close> stored is listed, next to the peers that were there before.
\<close>

context bolt_db
begin

lemma peerctl_add_list:
  assumes "world_ready B w" and "peerctl_add B p v w = (None, w')"
  shows "world_ready B w' \<and> (\<exists>ps. peerctl_list B w' = Inr ps \<and> set ps = insert p (dom (tx_get B (wdb w) BucketPeers)))"
proof -
  from assms have rdy: "ready B (wdb w)" by (simp add: world_ready_def)
  from assms(2) obtain d where d: "DB_Update B (\<lambda>tx. tx_put B tx BucketPeers p v) (wdb w) = (None, d)" and w': "w' = w\<lparr>wdb := d\<rparr>"
    by (auto simp: peerctl_add_def split: prod.splits)
  have mem: "BucketPeers \<in> set all_buckets" by (simp add: all_buckets_def)
  have r: "ready B d" by (rule Update_put(1) [OF rdy mem d])
  have g: "tx_get B d BucketPeers = (tx_get B (wdb w) BucketPeers)(p \<mapsto> v)"
    by (rule ext) (simp add: Update_put(2) [OF rdy mem d])
  have "tx_begin B d = None" "tx_bucket B d BucketPeers" using r mem by (simp_all add: ready_def)
  then have "peerctl_list B w' = Inr (map fst (tx_foreach B d BucketPeers))" by (simp add: peerctl_list_def DB_View_def w')
  moreover have "set (map fst (tx_foreach B d BucketPeers)) = insert p (dom (tx_get B (wdb w) BucketPeers))"
    unfolding foreach_keys [OF \<open>tx_bucket B d BucketPeers\<close>] g by simp
  ultimately show ?thesis using r by (simp only: w' world_ready_def) simp
qed

end

end
