(* ===== verification/SV_Identity.thy ===== *)
theory SV_Identity
  imports SV_Agent
begin

text \<open>
  \<open>internal/identity/identity.go\<close>: the libp2p identity of a node and its key file.

  The key functions of libp2p are the parameter \<open>idlib\<close> and the calls into the file system the parameter
  \<open>osfs\<close> over an abstract file system state; the locale \<open>identity_env\<close> says what the code relies on: keys survive
  being marshalled, and a file that was written without an error is there and holds what was written.
\<close>

section \<open>identity.go\<close>

record ('k, 'p) idlib =
  UnmarshalPrivateKey :: "bytes \<Rightarrow> gerror + 'k"
  MarshalPrivateKey :: "'k \<Rightarrow> gerror + bytes"
  GenerateEd25519Key :: "nat \<Rightarrow> gerror + 'k"
  IDFromPrivateKey :: "'k \<Rightarrow> gerror + string"
  GetPublic :: "'k \<Rightarrow> 'p"
  MarshalPublicKey :: "'p \<Rightarrow> gerror + bytes"
  UnmarshalPublicKey :: "bytes \<Rightarrow> gerror + 'p"

record 'f osfs =
  os_MkdirAll :: "string \<Rightarrow> 'f \<Rightarrow> gerror option \<times> 'f"
  os_Stat :: "string \<Rightarrow> 'f \<Rightarrow> gerror option"
  os_ReadFile :: "string \<Rightarrow> 'f \<Rightarrow> gerror + bytes"
  os_WriteFile :: "string \<Rightarrow> bytes \<Rightarrow> 'f \<Rightarrow> gerror option \<times> 'f"

definition keyFileName :: string where
  "keyFileName = ''identity.key''"

definition with_id :: "('k, 'p) idlib \<Rightarrow> 'k \<Rightarrow> gerror + 'k \<times> string" where
  "with_id I priv = (case IDFromPrivateKey I priv of Inl err \<Rightarrow> Inl err | Inr pid \<Rightarrow> Inr (priv, pid))"

definition LoadOrCreate :: "('k, 'p) idlib \<Rightarrow> 'f osfs \<Rightarrow> string \<Rightarrow> nat \<Rightarrow> 'f \<Rightarrow> (gerror + 'k \<times> string) \<times> 'f" where
  "LoadOrCreate I F repoPath r f =
     (case os_MkdirAll F repoPath f of
        (Some err, f1) \<Rightarrow> (Inl err, f1)
      | (None, f1) \<Rightarrow>
          (let keyPath = filepath_Join repoPath keyFileName in
           if os_Stat F keyPath f1 = None then
             (case os_ReadFile F keyPath f1 of
                Inl err \<Rightarrow> (Inl err, f1)
              | Inr b \<Rightarrow>
                  (case UnmarshalPrivateKey I b of
                     Inl err \<Rightarrow> (Inl err, f1)
                   | Inr priv \<Rightarrow> (with_id I priv, f1)))
           else
             (case GenerateEd25519Key I r of
                Inl err \<Rightarrow> (Inl err, f1)
              | Inr priv \<Rightarrow>
                  (case MarshalPrivateKey I priv of
                     Inl err \<Rightarrow> (Inl err, f1)
                   | Inr marshaled \<Rightarrow>
                       (case os_WriteFile F keyPath marshaled f1 of
                          (Some err, f2) \<Rightarrow> (Inl err, f2)
                        | (None, f2) \<Rightarrow> (with_id I priv, f2))))))"

definition ExportPublicKeyBase64 :: "('k, 'p) idlib \<Rightarrow> 'k \<Rightarrow> gerror + string" where
  "ExportPublicKeyBase64 I priv =
     (case MarshalPublicKey I (GetPublic I priv) of Inl err \<Rightarrow> Inl err | Inr raw \<Rightarrow> Inr (base64_EncodeToString raw))"

definition ImportPublicKeyBase64 :: "('k, 'p) idlib \<Rightarrow> string \<Rightarrow> gerror + 'p" where
  "ImportPublicKeyBase64 I s =
     (case base64_DecodeString s of None \<Rightarrow> Inl b64_error | Some raw \<Rightarrow> UnmarshalPublicKey I raw)"

definition PeerIDFromPriv :: "('k, 'p) idlib \<Rightarrow> 'k \<Rightarrow> gerror + string" where
  "PeerIDFromPriv I priv = (case IDFromPrivateKey I priv of Inl err \<Rightarrow> Inl err | Inr pid \<Rightarrow> Inr pid)"

definition DescribeIdentity :: "('k, 'p) idlib \<Rightarrow> 'k \<Rightarrow> gerror + string \<times> string" where
  "DescribeIdentity I priv =
     (case PeerIDFromPriv I priv of
        Inl err \<Rightarrow> Inl err
      | Inr pid \<Rightarrow>
          (case ExportPublicKeyBase64 I priv of
             Inl err \<Rightarrow> Inl err
           | Inr pubB64 \<Rightarrow> Inr (pid, pubB64)))"

definition ValidatePeerID :: "('k, 'p) idlib \<Rightarrow> 'k \<Rightarrow> string \<Rightarrow> gerror option" where
  "ValidatePeerID I priv expected =
     (case PeerIDFromPriv I priv of
        Inl err \<Rightarrow> Some err
      | Inr pid \<Rightarrow>
          (if pid \<noteq> expected then Some (ErrorString (''peer ID mismatch: got '' @ pid @ '' expected '' @ expected)) else None))"

section \<open>What the code relies on\<close>

locale identity_env =
  fixes I :: "('k, 'p) idlib" and F :: "'f osfs"
  assumes private_round_trip: "MarshalPrivateKey I k = Inr b \<Longrightarrow> UnmarshalPrivateKey I b = Inr k"
    and public_round_trip: "MarshalPublicKey I p = Inr b \<Longrightarrow> UnmarshalPublicKey I b = Inr p"
    and written: "os_WriteFile F path data f = (None, f') \<Longrightarrow> os_Stat F path f' = None \<and> os_ReadFile F path f' = Inr data"
    and mkdir_keeps: "os_MkdirAll F dir f = (None, f') \<Longrightarrow> os_Stat F path f = None \<Longrightarrow>
      os_Stat F path f' = None \<and> os_ReadFile F path f' = os_ReadFile F path f"
begin

lemma LoadOrCreate_leaves_key:
  assumes "LoadOrCreate I F repoPath r f = (Inr (priv, pid), f')"
  shows "IDFromPrivateKey I priv = Inr pid \<and> os_Stat F (filepath_Join repoPath keyFileName) f' = None \<and>
    (\<exists>b. os_ReadFile F (filepath_Join repoPath keyFileName) f' = Inr b \<and> UnmarshalPrivateKey I b = Inr priv)"
  using assms
  by (auto simp: LoadOrCreate_def with_id_def Let_def split: prod.splits option.splits sum.splits if_splits
      dest: written private_round_trip)

lemma LoadOrCreate_loads:
  assumes "os_MkdirAll F repoPath f = (None, f')" and "os_Stat F (filepath_Join repoPath keyFileName) f = None"
    and "os_ReadFile F (filepath_Join repoPath keyFileName) f = Inr b" and "UnmarshalPrivateKey I b = Inr priv"
    and "IDFromPrivateKey I priv = Inr pid"
  shows "LoadOrCreate I F repoPath r f = (Inr (priv, pid), f')"
  using assms mkdir_keeps [OF assms(1,2)] by (simp add: LoadOrCreate_def with_id_def Let_def)

end

section \<open>A concrete instance\<close>

definition ref_idlib :: "(bytes, bytes) idlib" where
  "ref_idlib = \<lparr>UnmarshalPrivateKey = (\<lambda>b. if b = [] then Inl (ErrorString ''unexpected EOF'') else Inr (tl b)),
     MarshalPrivateKey = (\<lambda>k. Inr (CHR 0x08 # k)), GenerateEd25519Key = (\<lambda>r. Inr (replicate 64 (byte_of (r mod 256)))),
     IDFromPrivateKey = (\<lambda>k. Inr (''12D3Koo'' @ hex_EncodeToString (take 4 k))), GetPublic = (\<lambda>k. take 32 k),
     MarshalPublicKey = (\<lambda>p. Inr (CHR 0x08 # p)),
     UnmarshalPublicKey = (\<lambda>b. if b = [] then Inl (ErrorString ''unexpected EOF'') else Inr (tl b))\<rparr>"

definition mem_fs :: "(string \<rightharpoonup> bytes) osfs" where
  "mem_fs = \<lparr>os_MkdirAll = (\<lambda>dir f. (None, f)),
     os_Stat = (\<lambda>path f. if f path = None then Some (ErrorString ''file does not exist'') else None),
     os_ReadFile = (\<lambda>path f. case f path of None \<Rightarrow> Inl (ErrorString ''file does not exist'') | Some b \<Rightarrow> Inr b),
     os_WriteFile = (\<lambda>path data f. (None, f(path \<mapsto> data)))\<rparr>"

interpretation ref_id: identity_env ref_idlib mem_fs
  by unfold_locales (auto simp: ref_idlib_def mem_fs_def)

section \<open>Properties\<close>

text \<open>
  C26. The identity of a node is stable: once \<open>LoadOrCreate\<close> has returned a key, whether loaded or new, every later call
  on the same repository whose directory can be created returns the same key and the same peer ID, whatever the
  random source would give, and \<open>ValidatePeerID\<close> accepts that ID and no other.
\<close>

theorem identity_stable:
  assumes "identity_env I F" and "LoadOrCreate I F repoPath r f = (Inr (priv, pid), f1)"
    and "os_MkdirAll F repoPath f1 = (None, f2)"
  shows "LoadOrCreate I F repoPath r' f1 = (Inr (priv, pid), f2) \<and>
    (ValidatePeerID I priv expected = None \<longleftrightarrow> expected = pid)"
proof -
  from identity_env.LoadOrCreate_leaves_key [OF assms(1,2)] obtain b where b:
    "IDFromPrivateKey I priv = Inr pid" "os_Stat F (filepath_Join repoPath keyFileName) f1 = None"
    "os_ReadFile F (filepath_Join repoPath keyFileName) f1 = Inr b" "UnmarshalPrivateKey I b = Inr priv" by blast
  from identity_env.LoadOrCreate_loads [OF assms(1,3) b(2,3,4,1)] b(1) show ?thesis
    by (auto simp: ValidatePeerID_def PeerIDFromPriv_def)
qed

theorem identity_stable_witness:
  "\<exists>priv pid f1. LoadOrCreate ref_idlib mem_fs ''/repo'' 7 Map.empty = (Inr (priv, pid), f1) \<and>
     LoadOrCreate ref_idlib mem_fs ''/repo'' 8 f1 = (Inr (priv, pid), f1)"
proof -
  obtain priv pid f1 where new: "LoadOrCreate ref_idlib mem_fs ''/repo'' 7 Map.empty = (Inr (priv, pid), f1)"
    by (simp add: LoadOrCreate_def with_id_def mem_fs_def ref_idlib_def Let_def)
  moreover have "os_MkdirAll mem_fs ''/repo'' f1 = (None, f1)" by (simp add: mem_fs_def)
  ultimately show ?thesis using identity_stable [OF ref_id.identity_env_axioms new, of f1 8] by blast
qed

text \<open>
  Public keys survive the exchange in base64: importing what \<open>ExportPublicKeyBase64\<close> or
  \<open>DescribeIdentity\<close> printed gives the public key of the private key.
\<close>

theorem public_key_exchange:
  assumes "identity_env I F" and "DescribeIdentity I priv = Inr (pid, s)"
  shows "ImportPublicKeyBase64 I s = Inr (GetPublic I priv) \<and> ExportPublicKeyBase64 I priv = Inr s"
  using assms(2) identity_env.public_round_trip [OF assms(1)]
  by (auto simp: DescribeIdentity_def ExportPublicKeyBase64_def ImportPublicKeyBase64_def split: sum.splits)

theorem public_key_exchange_witness:
  "\<exists>pid s. DescribeIdentity ref_idlib ''secret key'' = Inr (pid, s) \<and> ImportPublicKeyBase64 ref_idlib s = Inr ''secret key''"
proof -
  obtain pid s where d: "DescribeIdentity ref_idlib ''secret key'' = Inr (pid, s)"
    by (simp add: DescribeIdentity_def PeerIDFromPriv_def ExportPublicKeyBase64_def ref_idlib_def)
  from public_key_exchange [OF ref_id.identity_env_axioms d] d show ?thesis by (simp add: ref_idlib_def)
qed

end
