(* ===== verification/SV_Health.thy ===== *)
theory SV_Health
  imports SV_Snapshots "HOL-Library.AList"
begin

text \<open>
  \<open>internal/monitoring/health.go\<close>: the health of the components and the three HTTP checks.

  A \<open>HealthStatus\<close> is a string, so that a component may carry a status that is none of the three constants. The map of
  the components is an association list in the order Go happens to iterate over it; the
  lemmas show that the order does not matter. The values of \<open>details\<close>, which nothing looks at, are
  a list of printed fields. A response is its status code and the string map or the health
  record it encodes.
\<close>

section \<open>health.go\<close>

type_synonym HealthStatus = string

definition StatusHealthy :: HealthStatus where "StatusHealthy = ''healthy''"
definition StatusDegraded :: HealthStatus where "StatusDegraded = ''degraded''"
definition StatusUnhealthy :: HealthStatus where "StatusUnhealthy = ''unhealthy''"

record ComponentHealth =
  ch_Status :: HealthStatus
  ch_Message :: string
  ch_Details :: "(string \<times> string) list"

record HealthCheck =
  hc_Status :: HealthStatus
  hc_Timestamp :: int
  hc_Uptime :: int
  hc_Version :: string
  hc_Components :: "(string \<times> ComponentHealth) list"

record HealthChecker =
  components :: "(string \<times> ComponentHealth) list"
  startTime :: int
  version :: string

definition NewHealthChecker :: "string \<Rightarrow> int \<Rightarrow> HealthChecker" where
  "NewHealthChecker v now = \<lparr>components = [], startTime = now, version = v\<rparr>"

definition RegisterComponent :: "string \<Rightarrow> HealthStatus \<Rightarrow> string \<Rightarrow> (string \<times> string) list \<Rightarrow> HealthChecker \<Rightarrow> HealthChecker" where
  "RegisterComponent name status message details h =
     h\<lparr>components := AList.update name \<lparr>ch_Status = status, ch_Message = message, ch_Details = details\<rparr> (components h)\<rparr>"

definition UpdateComponent :: "string \<Rightarrow> HealthStatus \<Rightarrow> string \<Rightarrow> (string \<times> string) list \<Rightarrow> HealthChecker \<Rightarrow> HealthChecker" where
  "UpdateComponent name status message details h = RegisterComponent name status message details h"

fun overall_loop :: "(string \<times> ComponentHealth) list \<Rightarrow> HealthStatus \<Rightarrow> HealthStatus" where
  "overall_loop [] overallStatus = overallStatus"
| "overall_loop ((name, cmp) # cs) overallStatus =
     (if ch_Status cmp = StatusUnhealthy then StatusUnhealthy
      else if ch_Status cmp = StatusDegraded \<and> overallStatus = StatusHealthy then overall_loop cs StatusDegraded
      else overall_loop cs overallStatus)"

definition GetHealth :: "int \<Rightarrow> HealthChecker \<Rightarrow> HealthCheck" where
  "GetHealth now h =
     \<lparr>hc_Status = overall_loop (components h) StatusHealthy, hc_Timestamp = now, hc_Uptime = now - startTime h,
      hc_Version = version h, hc_Components = components h\<rparr>"

datatype health_body = Health_body HealthCheck | Status_body string

definition HTTPHandler :: "int \<Rightarrow> HealthChecker \<Rightarrow> int \<times> health_body" where
  "HTTPHandler now h =
     (let health = GetHealth now h in
      (if hc_Status health = StatusHealthy then 200
       else if hc_Status health = StatusDegraded then 200
       else if hc_Status health = StatusUnhealthy then 503
       else 200, Health_body health))"

definition ReadinessHandler :: "int \<Rightarrow> HealthChecker \<Rightarrow> int \<times> health_body" where
  "ReadinessHandler now h =
     (let health = GetHealth now h in
      if hc_Status health = StatusHealthy then (200, Status_body ''ready'') else (503, Status_body ''not ready''))"

definition LivenessHandler :: "int \<times> health_body" where
  "LivenessHandler = (200, Status_body ''alive'')"

text \<open>The global checker: \<open>GetHealthChecker\<close> creates one of version \<open>unknown\<close> when there is none.\<close>

definition InitHealthChecker :: "string \<Rightarrow> int \<Rightarrow> HealthChecker option" where
  "InitHealthChecker v now = Some (NewHealthChecker v now)"

definition GetHealthChecker :: "int \<Rightarrow> HealthChecker option \<Rightarrow> HealthChecker \<times> HealthChecker option" where
  "GetHealthChecker now g =
     (case g of
        None \<Rightarrow> (let h = NewHealthChecker ''unknown'' now in (h, Some h))
      | Some h \<Rightarrow> (h, g))"

section \<open>The overall status\<close>

lemma status_distinct [simp]:
  "StatusHealthy \<noteq> StatusDegraded" "StatusHealthy \<noteq> StatusUnhealthy" "StatusDegraded \<noteq> StatusUnhealthy"
  "StatusDegraded \<noteq> StatusHealthy" "StatusUnhealthy \<noteq> StatusHealthy" "StatusUnhealthy \<noteq> StatusDegraded"
  by (simp_all add: StatusHealthy_def StatusDegraded_def StatusUnhealthy_def)

definition has_status :: "HealthStatus \<Rightarrow> (string \<times> ComponentHealth) list \<Rightarrow> bool" where
  "has_status st cs \<longleftrightarrow> (\<exists>(name, cmp) \<in> set cs. ch_Status cmp = st)"

lemma has_status_simps [simp]:
  "has_status st [] = False" "has_status st ((name, cmp) # cs) \<longleftrightarrow> ch_Status cmp = st \<or> has_status st cs"
  by (auto simp: has_status_def)

lemma overall_loop_status:
  "overall_loop cs st =
     (if has_status StatusUnhealthy cs then StatusUnhealthy
      else if st = StatusHealthy \<and> has_status StatusDegraded cs then StatusDegraded else st)"
  by (induction cs st rule: overall_loop.induct) auto

lemma has_status_lookup:
  "distinct (map fst cs) \<Longrightarrow> has_status st cs \<longleftrightarrow> (\<exists>name cmp. map_of cs name = Some cmp \<and> ch_Status cmp = st)"
  by (force simp: has_status_def)

section \<open>Properties\<close>



end
