(* ===== verification/SV_GC.thy ===== *)
theory SV_GC
  imports SV_Snapshots SV_Metrics
begin

text \<open>
  \<open>internal/gc/collector.go\<close>: deleting snapshots past the retention period and the chunks no
  snapshot refers to any more.

  The two deletion loops take the operation they delete with, so that what they do is proved once,
  in the locale \<open>gc_client\<close>, from the contracts \<open>chunk_store\<close> and
  \<open>snapshot_repo\<close> and the independence of the two buckets; the locale is then discharged for
  the database. The properties are the safety of the collector (no chunk of a remaining snapshot
  is touched, no snapshot within the retention period is deleted, whatever fails on the way) and
  its completeness (when the database accepts the deletions, nothing else is left).
\<close>

section \<open>collector.go\<close>

record Collector =
  retentionDays :: int
  gcInterval :: int
  gc_cancelled :: bool

definition NewCollector :: "int \<Rightarrow> int \<Rightarrow> Collector" where
  "NewCollector days interval = \<lparr>retentionDays = days, gcInterval = interval, gc_cancelled = False\<rparr>"

definition Collector_Stop :: "Collector \<Rightarrow> Collector" where
  "Collector_Stop gc = gc\<lparr>gc_cancelled := True\<rparr>"

definition getAllSnapshots :: "codec \<Rightarrow> 'd bolt \<Rightarrow> 'd world \<Rightarrow> gerror + Snapshot list" where
  "getAllSnapshots C B w = ListAllSnapshots C B w"

fun delete_old_loop :: "('w \<Rightarrow> string \<Rightarrow> gerror option \<times> 'w) \<Rightarrow> clock \<Rightarrow> int \<Rightarrow> Snapshot list \<Rightarrow> nat \<Rightarrow> 'w \<Rightarrow>
    nat \<times> 'w" where
  "delete_old_loop del T cutoffTime [] deletedCount w = (deletedCount, w)"
| "delete_old_loop del T cutoffTime (snap # sns) deletedCount w =
     (case rfc3339_parse T (Timestamp snap) of
        Inl err \<Rightarrow> delete_old_loop del T cutoffTime sns deletedCount w
      | Inr snapTime \<Rightarrow>
          (if snapTime < cutoffTime then
             (case del w (ID snap) of
                (Some err, w') \<Rightarrow> delete_old_loop del T cutoffTime sns deletedCount w'
              | (None, w') \<Rightarrow> delete_old_loop del T cutoffTime sns (Suc deletedCount) w')
           else delete_old_loop del T cutoffTime sns deletedCount w))"

definition deleteOldSnapshots :: "codec \<Rightarrow> clock \<Rightarrow> 'd bolt \<Rightarrow> Collector \<Rightarrow> int \<Rightarrow> 'd world \<Rightarrow>
    (gerror + nat) \<times> 'd world" where
  "deleteOldSnapshots C T B gc now w =
     (let cutoffTime = add_days T now (- retentionDays gc) in
      case getAllSnapshots C B w of
        Inl err \<Rightarrow> (Inl (Wrapf ''failed to get snapshots'' err), w)
      | Inr snapshots \<Rightarrow>
          (case delete_old_loop (DeleteSnapshot B) T cutoffTime snapshots 0 w of (n, w') \<Rightarrow> (Inr n, w')))"

definition findReferencedChunks :: "codec \<Rightarrow> 'd bolt \<Rightarrow> 'd world \<Rightarrow> gerror + string set" where
  "findReferencedChunks C B w =
     (case getAllSnapshots C B w of
        Inl err \<Rightarrow> Inl err
      | Inr snapshots \<Rightarrow> Inr (\<Union>snap \<in> set snapshots. set (Chunks snap)))"

fun delete_unreferenced_loop :: "('w \<Rightarrow> string \<Rightarrow> gerror + bytes) \<Rightarrow> ('w \<Rightarrow> string \<Rightarrow> gerror option \<times> 'w) \<Rightarrow>
    string set \<Rightarrow> string list \<Rightarrow> nat \<Rightarrow> i64 \<Rightarrow> 'w \<Rightarrow> nat \<times> i64 \<times> 'w" where
  "delete_unreferenced_loop get del referenced [] deletedCount bytesFreed w = (deletedCount, bytesFreed, w)"
| "delete_unreferenced_loop get del referenced (chunkHash # hs) deletedCount bytesFreed w =
     (if chunkHash \<notin> referenced then
        (case get w chunkHash of
           Inl err \<Rightarrow> delete_unreferenced_loop get del referenced hs deletedCount bytesFreed w
         | Inr data \<Rightarrow>
             (case del w chunkHash of
                (Some err, w') \<Rightarrow> delete_unreferenced_loop get del referenced hs deletedCount bytesFreed w'
              | (None, w') \<Rightarrow>
                  delete_unreferenced_loop get del referenced hs (Suc deletedCount)
                    (bytesFreed + of_nat (length data)) w'))
      else delete_unreferenced_loop get del referenced hs deletedCount bytesFreed w)"

definition deleteUnreferencedChunks :: "'d bolt \<Rightarrow> string set \<Rightarrow> 'd world \<Rightarrow>
    (gerror + nat \<times> i64) \<times> 'd world" where
  "deleteUnreferencedChunks B referenced w =
     (case Store_ListAll B w of
        Inl err \<Rightarrow> (Inl (Wrapf ''failed to list chunks'' err), w)
      | Inr allChunks \<Rightarrow>
          (case delete_unreferenced_loop (Store_Get B) (Store_Delete B) referenced allChunks 0 0 w of
             (n, freed, w') \<Rightarrow> (Inr (n, freed), w')))"

definition Collector_Run :: "codec \<Rightarrow> clock \<Rightarrow> 'd bolt \<Rightarrow> Collector \<Rightarrow> int \<Rightarrow> Metrics \<times> 'd world \<Rightarrow>
    gerror option \<times> Metrics \<times> 'd world" where
  "Collector_Run C T B gc now = (\<lambda>(m, w).
     case deleteOldSnapshots C T B gc now w of
       (Inl err, w1) \<Rightarrow> (Some (Wrapf ''failed to delete old snapshots'' err), m, w1)
     | (Inr deletedSnapshots, w1) \<Rightarrow>
         (case findReferencedChunks C B w1 of
            Inl err \<Rightarrow> (Some (Wrapf ''failed to find referenced chunks'' err), m, w1)
          | Inr referenced \<Rightarrow>
              (case deleteUnreferencedChunks B referenced w1 of
                 (Inl err, w2) \<Rightarrow> (Some (Wrapf ''failed to delete unreferenced chunks'' err), m, w2)
               | (Inr (deletedChunks, bytesFreed), w2) \<Rightarrow>
                   (None, RecordGarbageCollection (of_nat deletedChunks) bytesFreed m, w2))))"

definition Collector_RunOnce :: "codec \<Rightarrow> clock \<Rightarrow> 'd bolt \<Rightarrow> Collector \<Rightarrow> int \<Rightarrow> Metrics \<times> 'd world \<Rightarrow>
    gerror option \<times> Metrics \<times> 'd world" where
  "Collector_RunOnce C T B gc now s = Collector_Run C T B gc now s"

text \<open>
  The goroutine \<open>Start\<close> spawns: one run at once, then one per tick until the context is done.
  Making the ticker panics unless the interval is positive, which the configuration does not check.
  A list of events is the sequence of cases its \<open>select\<close> takes, each tick with the time of the run.
\<close>

datatype gc_event = Tick int | Ctx_done

fun collector_goroutine :: "codec \<Rightarrow> clock \<Rightarrow> 'd bolt \<Rightarrow> Collector \<Rightarrow> gc_event list \<Rightarrow> Metrics \<times> 'd world \<Rightarrow>
    Metrics \<times> 'd world" where
  "collector_goroutine C T B gc [] s = s"
| "collector_goroutine C T B gc (Ctx_done # es) s = s"
| "collector_goroutine C T B gc (Tick now # es) s =
     collector_goroutine C T B gc es (snd (Collector_Run C T B gc now s))"

definition Collector_Start :: "codec \<Rightarrow> clock \<Rightarrow> 'd bolt \<Rightarrow> Collector \<Rightarrow> int \<Rightarrow> gc_event list \<Rightarrow> Metrics \<times> 'd world \<Rightarrow>
    (Metrics \<times> 'd world) outcome" where
  "Collector_Start C T B gc now es s =
     (if gcInterval gc \<le> 0 then Panic ''non-positive interval for NewTicker''
      else Ret (collector_goroutine C T B gc es (snd (Collector_Run C T B gc now s))))"

section \<open>The loops against the contracts\<close>

text \<open>
  A snapshot is expired when its timestamp parses and lies before the cutoff.
\<close>

definition expired :: "clock \<Rightarrow> int \<Rightarrow> Snapshot \<Rightarrow> bool" where
  "expired T cutoff sn \<longleftrightarrow> (case rfc3339_parse T (Timestamp sn) of Inl _ \<Rightarrow> False | Inr t \<Rightarrow> t < cutoff)"

lemma delete_old_loop_Cons:
  "delete_old_loop del T cutoff (sn # sns) n w =
     (if expired T cutoff sn
      then (case del w (ID sn) of
              (Some err, w') \<Rightarrow> delete_old_loop del T cutoff sns n w'
            | (None, w') \<Rightarrow> delete_old_loop del T cutoff sns (Suc n) w')
      else delete_old_loop del T cutoff sns n w)"
  by (simp add: expired_def split: sum.splits)

locale gc_client =
  store: chunk_store inv blocks sframe get_op put_op del_chunk list_chunks exists_op +
  repo: snapshot_repo ok snaps rframe encodable save_op load_op list_snaps del_snap count_op
  for inv :: "'w \<Rightarrow> bool" and blocks and sframe :: "'w \<Rightarrow> 'f" and get_op and put_op and del_chunk and list_chunks
    and exists_op and ok and snaps and rframe :: "'w \<Rightarrow> 'g" and encodable and save_op and load_op and list_snaps
    and del_snap and count_op +
  assumes ok_inv: "ok w \<Longrightarrow> inv w"
    and snaps_sframe: "ok w \<Longrightarrow> inv w' \<Longrightarrow> sframe w' = sframe w \<Longrightarrow> ok w' \<and> snaps w' = snaps w"
    and blocks_rframe: "rframe w' = rframe w \<Longrightarrow> blocks w' = blocks w"
begin

lemma delete_old_safe:
  assumes "ok w" and "delete_old_loop del_snap T cutoff sns n w = (n', w')"
  shows "ok w' \<and> blocks w' = blocks w \<and> snaps w' \<subseteq>\<^sub>m snaps w \<and>
    (\<forall>i. (\<forall>sn \<in> set sns. expired T cutoff sn \<longrightarrow> ID sn \<noteq> i) \<longrightarrow> snaps w' i = snaps w i)"
  using assms
proof (induction sns arbitrary: n w)
  case Nil
  then show ?case by simp
next
  case (Cons sn sns)
  show ?case
  proof (cases "expired T cutoff sn")
    case False
    with Cons show ?thesis by (simp add: delete_old_loop_Cons del: delete_old_loop.simps)
  next
    case True
    obtain r w1 where del: "del_snap w (ID sn) = (r, w1)" by (cases "del_snap w (ID sn)")
    show ?thesis
    proof (cases r)
      case None
      note law = repo.delete_law [OF Cons.prems(1) del [unfolded None]]
      have rest: "delete_old_loop del_snap T cutoff sns (Suc n) w1 = (n', w')"
        using Cons.prems(2) True del None by (simp add: delete_old_loop_Cons del: delete_old_loop.simps)
      note IH = Cons.IH [OF conjunct1 [OF law] rest]
      have "snaps w1 \<subseteq>\<^sub>m snaps w" using law by (simp add: map_le_def)
      with IH have "snaps w' \<subseteq>\<^sub>m snaps w" by (blast intro: map_le_trans)
      moreover have "blocks w1 = blocks w" using law blocks_rframe by blast
      ultimately show ?thesis using IH law True by simp
    next
      case (Some e)
      with del have "w1 = w" by (simp add: repo.delete_err)
      with Some Cons.prems True del have "delete_old_loop del_snap T cutoff sns n w = (n', w')"
        by (simp add: delete_old_loop_Cons del: delete_old_loop.simps)
      with Cons show ?thesis by auto
    qed
  qed
qed

lemma delete_old_complete:
  assumes "ok w" and "delete_old_loop del_snap T cutoff sns n w = (n', w')"
    and "\<And>w i. ok w \<Longrightarrow> fst (del_snap w i) = None" and "sn \<in> set sns" and "expired T cutoff sn"
  shows "snaps w' (ID sn) = None"
  using assms(1,2,4)
proof (induction sns arbitrary: n w)
  case Nil
  then show ?case by simp
next
  case (Cons x sns)
  show ?case
  proof (cases "expired T cutoff x")
    case False
    with Cons assms(5) show ?thesis by (auto simp: delete_old_loop_Cons simp del: delete_old_loop.simps)
  next
    case True
    from assms(3) [OF Cons.prems(1)] obtain w1 where del: "del_snap w (ID x) = (None, w1)"
      by (metis eq_fst_iff)
    note law = repo.delete_law [OF Cons.prems(1) del]
    have rest: "delete_old_loop del_snap T cutoff sns (Suc n) w1 = (n', w')"
      using Cons.prems(2) True del by (simp add: delete_old_loop_Cons del: delete_old_loop.simps)
    have "snaps w' \<subseteq>\<^sub>m snaps w1" using delete_old_safe [OF _ rest] law by blast
    moreover have "snaps w1 (ID x) = None" using law by simp
    ultimately have "snaps w' (ID x) = None" by (metis domIff map_le_def)
    with Cons.IH [OF _ rest] law Cons.prems(3) show ?thesis by auto
  qed
qed

lemma delete_unreferenced_safe:
  assumes "ok w" and "delete_unreferenced_loop get_op del_chunk R hs n b w = (n', b', w')"
  shows "ok w' \<and> snaps w' = snaps w \<and> blocks w' \<subseteq>\<^sub>m blocks w \<and>
    (\<forall>h. h \<notin> set hs \<or> h \<in> R \<longrightarrow> blocks w' h = blocks w h)"
  using assms
proof (induction hs arbitrary: n b w)
  case Nil
  then show ?case by simp
next
  case (Cons h hs)
  note inv = ok_inv [OF Cons.prems(1)]
  show ?case
  proof (cases "h \<notin> R \<and> blocks w h \<noteq> None")
    case False
    with Cons.prems(2) have "delete_unreferenced_loop get_op del_chunk R hs n b w = (n', b', w')"
      by (auto simp: store.get_law [OF inv] split: if_splits)
    from Cons.IH [OF Cons.prems(1) this] show ?thesis by auto
  next
    case True
    then obtain v where v: "h \<notin> R" "blocks w h = Some v" by auto
    obtain r w1 where del: "del_chunk w h = (r, w1)" by (cases "del_chunk w h")
    show ?thesis
    proof (cases r)
      case None
      note law = store.delete_law [OF inv del [unfolded None]]
      then have ok1: "ok w1" and sn1: "snaps w1 = snaps w" using snaps_sframe Cons.prems(1) by blast+
      have rest: "delete_unreferenced_loop get_op del_chunk R hs (Suc n) (b + of_nat (length v)) w1 = (n', b', w')"
        using Cons.prems(2) v del None by (simp add: store.get_law [OF inv])
      note IH = Cons.IH [OF ok1 rest]
      have "blocks w1 \<subseteq>\<^sub>m blocks w" using law by (simp add: map_le_def)
      with IH have "blocks w' \<subseteq>\<^sub>m blocks w" by (blast intro: map_le_trans)
      then show ?thesis using IH law v sn1 by simp
    next
      case (Some e)
      with del have "w1 = w" by (simp add: store.delete_err)
      with Some Cons.prems v del have "delete_unreferenced_loop get_op del_chunk R hs n b w = (n', b', w')"
        by (simp add: store.get_law [OF inv])
      with Cons show ?thesis by auto
    qed
  qed
qed

text \<open>
  The loop over the chunks when the database accepts the deletions: exactly the unreferenced ones go,
  their number and their total size are what it reports.
\<close>

definition doomed :: "'w \<Rightarrow> string set \<Rightarrow> string list \<Rightarrow> bytes list" where
  "doomed w R hs = map (\<lambda>h. the (blocks w h)) (filter (\<lambda>h. h \<notin> R \<and> blocks w h \<noteq> None) hs)"

lemma delete_unreferenced_complete:
  assumes "ok w" and "distinct hs" and "delete_unreferenced_loop get_op del_chunk R hs n b w = (n', b', w')"
    and "\<And>w h. inv w \<Longrightarrow> fst (del_chunk w h) = None"
  shows "blocks w' = (\<lambda>h. if h \<in> set hs \<and> h \<notin> R then None else blocks w h) \<and>
    n' = n + length (doomed w R hs) \<and> b' = b + of_nat (sum_list (map length (doomed w R hs)))"
  using assms(1,2,3)
proof (induction hs arbitrary: n b w)
  case Nil
  then show ?case by (simp add: doomed_def)
next
  case (Cons h hs)
  note inv = ok_inv [OF Cons.prems(1)]
  from Cons.prems(2) have dist: "distinct hs" and new: "h \<notin> set hs" by simp_all
  show ?case
  proof (cases "h \<notin> R \<and> blocks w h \<noteq> None")
    case False
    with Cons.prems(3) have "delete_unreferenced_loop get_op del_chunk R hs n b w = (n', b', w')"
      by (auto simp: store.get_law [OF inv] split: if_splits)
    from Cons.IH [OF Cons.prems(1) dist this] False show ?thesis
      by (auto simp: doomed_def fun_eq_iff)
  next
    case True
    then obtain v where v: "h \<notin> R" "blocks w h = Some v" by auto
    from assms(4) [OF inv] obtain w1 where del: "del_chunk w h = (None, w1)" by (metis eq_fst_iff)
    note law = store.delete_law [OF inv del]
    then have ok1: "ok w1" using snaps_sframe Cons.prems(1) by blast
    have rest: "delete_unreferenced_loop get_op del_chunk R hs (Suc n) (b + of_nat (length v)) w1 = (n', b', w')"
      using Cons.prems(3) v del by (simp add: store.get_law [OF inv])
    have same: "doomed w1 R hs = doomed w R hs"
      using law new unfolding doomed_def by (intro map_cong filter_cong) auto
    note IH = Cons.IH [OF ok1 dist rest, unfolded same]
    have "doomed w R (h # hs) = v # doomed w R hs" using v by (simp add: doomed_def)
    with IH law v show ?thesis by (auto simp: fun_eq_iff)
  qed
qed

end

section \<open>The collector on the database\<close>

sublocale version_env \<subseteq> gc: gc_client "world_ready B" "Blocks B" "other_buckets B"
  "Store_Get B" "Store_Put B" "Store_Delete B" "Store_ListAll B" "Store_Exists B"
  "snaps_ok C B" "Snaps C B" "non_snapshots B" ascii_snapshot
  "SaveSnapshot C B" "LoadSnapshot C B" "ListAllSnapshots C B" "DeleteSnapshot B" "CountSnapshots B"
  using snaps_ok_ready snaps_other_buckets blocks_non_snapshots by unfold_locales blast+

definition referenced_by :: "(string \<rightharpoonup> Snapshot) \<Rightarrow> string set" where
  "referenced_by sns = (\<Union>sn \<in> ran sns. set (Chunks sn))"

context version_env
begin

lemma Load_Snaps: "snaps_ok C B w \<Longrightarrow> LoadSnapshot C B w i = Inr sn \<longleftrightarrow> Snaps C B w i = Some sn"
  by (simp add: repo.load_law split: option.splits)

text \<open>A run on a well-formed database passes every check and is its two loops.\<close>

lemma Run_steps:
  assumes "snaps_ok C B w" and "Collector_Run C T B gc now (m, w) = (r, m', w')"
  obtains sns n w1 hs k freed where "set sns = ran (Snaps C B w)"
    and "delete_old_loop (DeleteSnapshot B) T (add_days T now (- retentionDays gc)) sns 0 w = (n, w1)"
    and "snaps_ok C B w1" and "distinct hs" and "set hs = dom (Blocks B w1)"
    and "delete_unreferenced_loop (Store_Get B) (Store_Delete B) (referenced_by (Snaps C B w1)) hs 0 0 w1 = (k, freed, w')"
    and "r = None" and "m' = RecordGarbageCollection (of_nat k) freed m"
proof -
  obtain sns where sns: "ListAllSnapshots C B w = Inr sns" "set sns = ran (Snaps C B w)"
    using repo.list_law [OF assms(1)] by blast
  obtain n w1 where old: "delete_old_loop (DeleteSnapshot B) T (add_days T now (- retentionDays gc)) sns 0 w = (n, w1)"
    by fastforce
  have ok1: "snaps_ok C B w1" using gc.delete_old_safe [OF assms(1) old] by blast
  obtain sns1 where sns1: "ListAllSnapshots C B w1 = Inr sns1" "set sns1 = ran (Snaps C B w1)"
    using repo.list_law [OF ok1] by blast
  obtain hs where hs: "Store_ListAll B w1 = Inr hs" "sorted_wrt (<) hs" "set hs = dom (Blocks B w1)"
    using db.store.list_law [OF snaps_ok_ready [OF ok1]] by blast
  obtain k freed w2 where un: "delete_unreferenced_loop (Store_Get B) (Store_Delete B)
      (referenced_by (Snaps C B w1)) hs 0 0 w1 = (k, freed, w2)"
    by (metis prod_cases3)
  have "Collector_Run C T B gc now (m, w) = (None, RecordGarbageCollection (of_nat k) freed m, w2)"
    using sns(1) old sns1 hs(1) un
    by (simp add: Collector_Run_def deleteOldSnapshots_def findReferencedChunks_def deleteUnreferencedChunks_def
        getAllSnapshots_def referenced_by_def Let_def)
  with assms(2) un have "delete_unreferenced_loop (Store_Get B) (Store_Delete B)
      (referenced_by (Snaps C B w1)) hs 0 0 w1 = (k, freed, w')"
    "r = None" "m' = RecordGarbageCollection (of_nat k) freed m" by simp_all
  moreover have "distinct hs" using hs(2) strict_sorted_iff by blast
  ultimately show ?thesis using that sns(2) old ok1 hs(3) by blast
qed

lemma Run_safe:
  assumes "snaps_ok C B w" and "Collector_Run C T B gc now (m, w) = (r, m', w')"
  shows "r = None \<and> snaps_ok C B w' \<and>
    (\<forall>i sn. LoadSnapshot C B w i = Inr sn \<and> \<not> expired T (add_days T now (- retentionDays gc)) sn \<longrightarrow>
       LoadSnapshot C B w' i = Inr sn) \<and>
    (\<forall>i sn. LoadSnapshot C B w' i = Inr sn \<longrightarrow>
       LoadSnapshot C B w i = Inr sn \<and> (\<forall>h \<in> set (Chunks sn). Store_Get B w' h = Store_Get B w h))"
proof (rule Run_steps [OF assms])
  fix sns n w1 hs k freed
  let ?cut = "add_days T now (- retentionDays gc)"
  assume sns: "set sns = ran (Snaps C B w)" and old: "delete_old_loop (DeleteSnapshot B) T ?cut sns 0 w = (n, w1)"
    and un: "delete_unreferenced_loop (Store_Get B) (Store_Delete B) (referenced_by (Snaps C B w1)) hs 0 0 w1 = (k, freed, w')"
    and r: "r = None"
  note o = gc.delete_old_safe [OF assms(1) old]
  then have ok1: "snaps_ok C B w1" by blast
  note u = gc.delete_unreferenced_safe [OF ok1 un]
  then have ok': "snaps_ok C B w'" by blast
  have "Snaps C B w' i = Some sn" if "Snaps C B w i = Some sn" "\<not> expired T ?cut sn" for i sn
  proof -
    have "ID sn' \<noteq> i" if "sn' \<in> set sns" "expired T ?cut sn'" for sn'
      using that \<open>Snaps C B w i = Some sn\<close> \<open>\<not> expired T ?cut sn\<close> repo.key_is_ID [OF assms(1), of _ sn']
      by (auto simp: sns ran_def)
    with o have "Snaps C B w1 i = Snaps C B w i" by blast
    with u that show ?thesis by simp
  qed
  moreover have "Snaps C B w i = Some sn \<and> (\<forall>h \<in> set (Chunks sn). Blocks B w' h = Blocks B w h)"
    if "Snaps C B w' i = Some sn" for i sn
  proof
    from that u have 1: "Snaps C B w1 i = Some sn" by simp
    with o show "Snaps C B w i = Some sn" by (metis domI map_le_def)
    from 1 have "set (Chunks sn) \<subseteq> referenced_by (Snaps C B w1)" by (auto simp: referenced_by_def ran_def)
    with u o show "\<forall>h \<in> set (Chunks sn). Blocks B w' h = Blocks B w h" by auto
  qed
  ultimately show ?thesis
    using ok' r unfolding Load_Snaps [OF assms(1)] Load_Snaps [OF ok']
      db.store.get_law [OF snaps_ok_ready [OF assms(1)]] db.store.get_law [OF snaps_ok_ready [OF ok']]
    by metis
qed

lemma goroutine_safe:
  assumes "snaps_ok C B w" and "collector_goroutine C T B gc es (m, w) = (m', w')"
  shows "snaps_ok C B w' \<and> (\<forall>i sn. LoadSnapshot C B w' i = Inr sn \<longrightarrow>
       LoadSnapshot C B w i = Inr sn \<and> (\<forall>h \<in> set (Chunks sn). Store_Get B w' h = Store_Get B w h))"
  using assms
proof (induction es arbitrary: m w)
  case (Cons e es)
  show ?case
  proof (cases e)
    case (Tick now)
    obtain r m1 w1 where run: "Collector_Run C T B gc now (m, w) = (r, m1, w1)" by (metis prod_cases3)
    note safe = Run_safe [OF Cons.prems(1) run]
    have "collector_goroutine C T B gc es (m1, w1) = (m', w')" using Cons.prems(2) run Tick by simp
    from Cons.IH [OF _ this] safe show ?thesis by metis
  next
    case Ctx_done
    with Cons.prems show ?thesis by simp
  qed
qed simp

lemma deletes_succeed:
  assumes "\<And>d. \<exists>d'. tx_commit B d = Inr d'" and "world_ready B w"
  shows "fst (DeleteSnapshot B w i) = None" and "fst (Store_Delete B w h) = None"
proof -
  from assms(2) have "ready B (wdb w)" by (simp add: world_ready_def)
  then have "fst (DB_Update B (\<lambda>tx. tx_delete B tx b k) (wdb w)) = None" if "b \<in> {BucketBlocks, BucketSnapshots}" for b k
    using that db.delete_ok [of "wdb w" b k] assms(1) by (auto simp: DB_Update_def split: sum.splits) (metis Inl_Inr_False)+
  then show "fst (DeleteSnapshot B w i) = None" "fst (Store_Delete B w h) = None"
    by (simp_all add: DeleteSnapshot_def Store_Delete_def case_prod_unfold)
qed

lemma sum_map_filter:
  fixes f :: "'a \<Rightarrow> nat"
  assumes "distinct xs"
  shows "sum_list (map f (filter Q xs)) = (\<Sum>x \<in> {x \<in> set xs. Q x}. f x)"
  using sum.distinct_set_conv_list [of "filter Q xs" f] assms by simp

lemma Run_complete:
  assumes "snaps_ok C B w" and "Collector_Run C T B gc now (m, w) = (r, m', w')"
    and "\<And>d. \<exists>d'. tx_commit B d = Inr d'"
  shows "(\<forall>i sn. LoadSnapshot C B w' i = Inr sn \<longleftrightarrow>
       LoadSnapshot C B w i = Inr sn \<and> \<not> expired T (add_days T now (- retentionDays gc)) sn) \<and>
    (\<forall>h. Store_Exists B w' h \<longleftrightarrow>
       Store_Exists B w h \<and> (\<exists>i sn. LoadSnapshot C B w' i = Inr sn \<and> h \<in> set (Chunks sn))) \<and>
    (let gone = {h. Store_Exists B w h \<and> \<not> Store_Exists B w' h} in
       m' = RecordGarbageCollection (of_nat (card gone)) (of_nat (\<Sum>h \<in> gone. length (the (Blocks B w h)))) m)"
proof (rule Run_steps [OF assms(1,2)])
  fix sns n w1 hs k freed
  let ?cut = "add_days T now (- retentionDays gc)" and ?R = "referenced_by (Snaps C B w')"
  assume sns: "set sns = ran (Snaps C B w)" and old: "delete_old_loop (DeleteSnapshot B) T ?cut sns 0 w = (n, w1)"
    and un: "delete_unreferenced_loop (Store_Get B) (Store_Delete B) (referenced_by (Snaps C B w1)) hs 0 0 w1 = (k, freed, w')"
    and hs: "distinct hs" "set hs = dom (Blocks B w1)" and m': "m' = RecordGarbageCollection (of_nat k) freed m"
  note o = gc.delete_old_safe [OF assms(1) old]
  then have ok1: "snaps_ok C B w1" and b1: "Blocks B w1 = Blocks B w" by blast+
  note u = gc.delete_unreferenced_safe [OF ok1 un]
  then have ok': "snaps_ok C B w'" and s1: "Snaps C B w1 = Snaps C B w'" by simp_all
  note safe = Run_safe [OF assms(1,2)]
  have gone: "Snaps C B w' (ID sn) = None" if "sn \<in> ran (Snaps C B w)" "expired T ?cut sn" for sn
    using gc.delete_old_complete [OF assms(1) old _ that(1) [folded sns] that(2)]
      deletes_succeed(1) [OF assms(3) snaps_ok_ready] s1 by metis
  have bwd: "Snaps C B w i = Some sn" if "Snaps C B w' i = Some sn" for i sn
    using safe that unfolding Load_Snaps [OF assms(1)] Load_Snaps [OF ok'] by blast
  have keep: "Snaps C B w' i = Some sn" if "Snaps C B w i = Some sn" "\<not> expired T ?cut sn" for i sn
    using safe that unfolding Load_Snaps [OF assms(1)] Load_Snaps [OF ok'] by blast
  have "\<not> expired T ?cut sn" if "Snaps C B w' i = Some sn" for i sn
    using gone [of sn] ranI [of "Snaps C B w" i sn, OF bwd [OF that]] repo.key_is_ID [OF ok' that] that by auto
  with bwd keep have iff: "Snaps C B w' i = Some sn \<longleftrightarrow> Snaps C B w i = Some sn \<and> \<not> expired T ?cut sn" for i sn by blast
  have comp: "Blocks B w' = (\<lambda>h. if h \<in> set hs \<and> h \<notin> ?R then None else Blocks B w h)"
    "k = length (gc.doomed w1 ?R hs)" "freed = of_nat (sum_list (map length (gc.doomed w1 ?R hs)))"
    using gc.delete_unreferenced_complete [OF ok1 hs(1) un deletes_succeed(2) [OF assms(3)]] unfolding s1 b1 by simp_all
  from comp(1) have kept: "Blocks B w' h \<noteq> None \<longleftrightarrow> Blocks B w h \<noteq> None \<and> h \<in> ?R" for h
    by (simp add: hs(2) b1 domIff)
  define G where "G = {h. Blocks B w h \<noteq> None \<and> Blocks B w' h = None}"
  have G: "G = {h \<in> set hs. h \<notin> ?R \<and> Blocks B w h \<noteq> None}"
    using kept unfolding G_def hs(2) b1 by blast
  have "k = card G" "freed = of_nat (\<Sum>h \<in> G. length (the (Blocks B w h)))"
    unfolding comp(2,3) G gc.doomed_def b1
    by (simp_all add: distinct_length_filter [OF hs(1)] sum_map_filter [OF hs(1), symmetric] o_def Int_def conj_commute)
  then have rec: "m' = RecordGarbageCollection (of_nat (card {h. Blocks B w h \<noteq> None \<and> \<not> Blocks B w' h \<noteq> None}))
      (of_nat (\<Sum>h \<in> {h. Blocks B w h \<noteq> None \<and> \<not> Blocks B w' h \<noteq> None}. length (the (Blocks B w h)))) m"
    using m' by (simp add: G_def)
  have ref: "h \<in> ?R \<longleftrightarrow> (\<exists>i sn. Snaps C B w' i = Some sn \<and> h \<in> set (Chunks sn))" for h
    by (auto simp: referenced_by_def ran_def)
  show ?thesis
    unfolding Load_Snaps [OF assms(1)] Load_Snaps [OF ok'] Let_def
      db.store.exists_law [OF snaps_ok_ready [OF assms(1)]] db.store.exists_law [OF snaps_ok_ready [OF ok']]
    by (intro conjI rec allI iff) (rule kept [unfolded ref])
qed

end

section \<open>A concrete run\<close>

definition wit_old :: Snapshot where
  "wit_old = \<lparr>ID = ''snap-1'', Parent = [], Timestamp = ''1'', Chunks = [''a'', ''b''],
     Meta = [], SignerPub = [], Signature = []\<rparr>"

definition wit_gc_world :: "mem_db world" where
  "wit_gc_world = snd (SaveSnapshot ref_codec mem_bolt wit_world wit_old)"

lemma wit_gc_saved: "SaveSnapshot ref_codec mem_bolt wit_world wit_old = (None, wit_gc_world)"
proof -
  obtain w' where "SaveSnapshot ref_codec mem_bolt wit_world wit_old = (None, w')"
    by (rule mem_save_ok [OF wit_ready]) (auto simp: wit_old_def)
  then show ?thesis by (simp add: wit_gc_world_def)
qed

lemma wit_gc_ok: "snaps_ok ref_codec mem_bolt wit_gc_world"
  and wit_gc_load: "LoadSnapshot ref_codec mem_bolt wit_gc_world ''snap-1'' = Inr wit_old"
proof -
  have "ascii_snapshot wit_old" by (simp add: ascii_snapshot_def wit_old_def ascii_def byte_val_def)
  note law = wit_versions.save_then_load [OF wit_snaps_ok this wit_gc_saved]
  then show "snaps_ok ref_codec mem_bolt wit_gc_world" by blast
  from law show "LoadSnapshot ref_codec mem_bolt wit_gc_world ''snap-1'' = Inr wit_old"
    by (simp add: wit_old_def)
qed

definition wit_collector :: Collector where "wit_collector = NewCollector 30 1"

lemma wit_cutoffs:
  "\<not> expired ref_clock (add_days ref_clock (20 * 86400 * second) (- retentionDays wit_collector)) wit_old"
  "expired ref_clock (add_days ref_clock (40 * 86400 * second) (- retentionDays wit_collector)) wit_old"
proof -
  have "decimal 1 = ''1''" by code_simp
  then show "\<not> expired ref_clock (add_days ref_clock (20 * 86400 * second) (- retentionDays wit_collector)) wit_old"
    "expired ref_clock (add_days ref_clock (40 * 86400 * second) (- retentionDays wit_collector)) wit_old"
    by (simp_all add: expired_def wit_old_def ref_clock_def wit_collector_def NewCollector_def undecimal_def second_def)
qed

section \<open>Properties\<close>

text \<open>
  C3. Safety of garbage collection: on a well-formed database a run reports success and leaves the
  database well-formed; no snapshot within the retention period is lost, and neither is one whose timestamp
  does not parse; every snapshot still loadable
  after the run was loadable before and each of its chunks reads exactly as before. This holds whichever
  deletions the database refuses.
\<close>

theorem Run_keeps_live_data:
  assumes "version_env B C" and "snaps_ok C B w" and "Collector_Run C T B gc now (m, w) = (r, m', w')"
  shows "r = None \<and> snaps_ok C B w' \<and>
    (\<forall>i sn. LoadSnapshot C B w i = Inr sn \<and> \<not> expired T (add_days T now (- retentionDays gc)) sn \<longrightarrow>
       LoadSnapshot C B w' i = Inr sn) \<and>
    (\<forall>i sn. LoadSnapshot C B w' i = Inr sn \<longrightarrow>
       LoadSnapshot C B w i = Inr sn \<and> (\<forall>h \<in> set (Chunks sn). Store_Get B w' h = Store_Get B w h))"
  using version_env.Run_safe [OF assms] .

theorem Run_keeps_live_data_witness:
  "\<exists>r m' w'. Collector_Run ref_codec ref_clock mem_bolt wit_collector (20 * 86400 * second) (NewMetrics, wit_gc_world) = (r, m', w') \<and>
     r = None \<and> LoadSnapshot ref_codec mem_bolt w' ''snap-1'' = Inr wit_old"
proof -
  obtain r m' w' where run: "Collector_Run ref_codec ref_clock mem_bolt wit_collector (20 * 86400 * second)
      (NewMetrics, wit_gc_world) = (r, m', w')" by (metis prod_cases3)
  from Run_keeps_live_data [OF wit_versions.version_env_axioms wit_gc_ok run] run wit_gc_load wit_cutoffs(1)
  show ?thesis by blast
qed

text \<open>
  The background collector: however often it runs, and at whatever times, the database stays
  well-formed and every snapshot that is still there has all its chunks as they were at the start.
\<close>

theorem Start_keeps_live_data:
  assumes "version_env B C" and "snaps_ok C B w" and "Collector_Start C T B gc now es (m, w) = Ret (m', w')"
  shows "snaps_ok C B w' \<and> (\<forall>i sn. LoadSnapshot C B w' i = Inr sn \<longrightarrow>
       LoadSnapshot C B w i = Inr sn \<and> (\<forall>h \<in> set (Chunks sn). Store_Get B w' h = Store_Get B w h))"
  using version_env.goroutine_safe [OF assms(1,2), of T gc "Tick now # es" m m' w'] assms(3)
  by (simp add: Collector_Start_def split: if_splits)

theorem Start_keeps_live_data_witness:
  "\<exists>m' w'. Collector_Start ref_codec ref_clock mem_bolt wit_collector 0 [Tick 5, Ctx_done] (NewMetrics, wit_gc_world) = Ret (m', w') \<and>
     snaps_ok ref_codec mem_bolt w'"
proof -
  obtain m' w' where run: "Collector_Start ref_codec ref_clock mem_bolt wit_collector 0 [Tick 5, Ctx_done]
      (NewMetrics, wit_gc_world) = Ret (m', w')"
    by (simp add: Collector_Start_def wit_collector_def NewCollector_def) (metis surj_pair)
  from Start_keeps_live_data [OF wit_versions.version_env_axioms wit_gc_ok run] run show ?thesis by blast
qed

text \<open>
  C9. Completeness of garbage collection: when the database accepts commits, the snapshots left
  after a run are exactly those not past the retention period, the chunks left are exactly the old
  ones some remaining snapshot refers to, and the metrics record the number of deleted chunks and
  their total stored size.
\<close>

theorem Run_deletes_garbage:
  assumes "version_env B C" and "snaps_ok C B w" and "Collector_Run C T B gc now (m, w) = (r, m', w')"
    and "\<And>d. \<exists>d'. tx_commit B d = Inr d'"
  shows "(\<forall>i sn. LoadSnapshot C B w' i = Inr sn \<longleftrightarrow>
       LoadSnapshot C B w i = Inr sn \<and> \<not> expired T (add_days T now (- retentionDays gc)) sn) \<and>
    (\<forall>h. Store_Exists B w' h \<longleftrightarrow>
       Store_Exists B w h \<and> (\<exists>i sn. LoadSnapshot C B w' i = Inr sn \<and> h \<in> set (Chunks sn))) \<and>
    (let gone = {h. Store_Exists B w h \<and> \<not> Store_Exists B w' h} in
       m' = RecordGarbageCollection (of_nat (card gone)) (of_nat (\<Sum>h \<in> gone. length (the (Blocks B w h)))) m)"
  using version_env.Run_complete [OF assms] .

theorem Run_deletes_garbage_witness:
  "\<exists>r m' w'. Collector_Run ref_codec ref_clock mem_bolt wit_collector (40 * 86400 * second) (NewMetrics, wit_gc_world) = (r, m', w') \<and>
     (\<forall>i. LoadSnapshot ref_codec mem_bolt w' i \<noteq> Inr wit_old)"
proof -
  obtain r m' w' where run: "Collector_Run ref_codec ref_clock mem_bolt wit_collector (40 * 86400 * second)
      (NewMetrics, wit_gc_world) = (r, m', w')" by (metis prod_cases3)
  from Run_deletes_garbage [OF wit_versions.version_env_axioms wit_gc_ok run mem_commits] run wit_cutoffs(2)
  show ?thesis by blast
qed

end
