(* ===== verification/SV_API.thy ===== *)
theory SV_API
  imports SV_Agent SV_Health SV_GC "HOL-Library.Sublist"
begin

text \<open>
  \<open>internal/api/server.go\<close>: the HTTP interface.

  A response is a status, and a JSON value, a text or nothing, its headers being left out; a request that starts work in the background also gives the
  jobs it starts (a backup of a path, a run of the collector), which run later on the node. The decoding
  of a request body is the parameter \<open>bodies\<close>, the identity and the peers of the libp2p host the parameter
  \<open>hostview\<close>. The routing of \<open>http.ServeMux\<close> (Go 1.21) is modelled: the longest matching pattern
  wins, and a path that is not clean is redirected.
\<close>

section \<open>Requests and responses\<close>

datatype json =
    JStr string
  | JInt int
  | JObj "(string \<times> json) list"
  | JArr "json list"
  | JSnapshot Snapshot
  | JHealth HealthCheck

datatype api_body = Json json | Text string | Empty

record api_request =
  ar_Method :: string
  ar_Path :: string
  ar_Body :: bytes

record api_response =
  rs_Status :: int
  rs_Body :: api_body

datatype job = Backup_job string | GC_job

record bodies =
  decode_create :: "bytes \<Rightarrow> gerror + string"
  decode_restore :: "bytes \<Rightarrow> gerror + string \<times> string"

record hostview =
  host_ID :: string
  host_peers :: "(string \<times> string list) list"

definition http_Error :: "string \<Rightarrow> int \<Rightarrow> api_response" where
  "http_Error msg code = \<lparr>rs_Status = code, rs_Body = Text (msg @ [CHR 0x0A])\<rparr>"

definition respondJSON :: "int \<Rightarrow> json \<Rightarrow> api_response" where
  "respondJSON statusCode data = \<lparr>rs_Status = statusCode, rs_Body = Json data\<rparr>"

definition not_allowed :: api_response where
  "not_allowed = http_Error ''Method not allowed'' 405"

definition accepted :: "string \<Rightarrow> api_response" where
  "accepted msg = respondJSON 202 (JObj [(''status'', JStr ''accepted''), (''message'', JStr msg)])"

section \<open>The handlers\<close>

type_synonym api_result = "api_response outcome \<times> job list"

definition handleSnapshots :: "codec \<Rightarrow> 'd bolt \<Rightarrow> 'd pnode \<Rightarrow> api_request \<Rightarrow> api_result" where
  "handleSnapshots C B n r =
     (if ar_Method r \<noteq> ''GET'' then (Ret not_allowed, [])
      else
        (case ListAllSnapshots C B (pworld n) of
           Inl err \<Rightarrow> (Ret (http_Error (''Failed to list snapshots: '' @ Error_text err) 500), [])
         | Inr snapshots \<Rightarrow>
             (Ret (respondJSON 200 (JObj [(''snapshots'', JArr (map JSnapshot snapshots)), (''count'', JInt (int (length snapshots)))])), [])))"

definition handleCreateSnapshot :: "bodies \<Rightarrow> api_request \<Rightarrow> api_result" where
  "handleCreateSnapshot D r =
     (if ar_Method r \<noteq> ''POST'' then (Ret not_allowed, [])
      else
        (case decode_create D (ar_Body r) of
           Inl err \<Rightarrow> (Ret (http_Error ''Invalid request body'' 400), [])
         | Inr path \<Rightarrow>
             (if path = [] then (Ret (http_Error ''Path is required'' 400), [])
              else (Ret (accepted ''Snapshot creation started''), [Backup_job path]))))"

definition detail_prefix :: string where
  "detail_prefix = ''/api/v1/snapshots/''"

text \<open>The slice expression of the path panics when the path is shorter than the prefix.\<close>

definition handleSnapshotDetail :: "codec \<Rightarrow> 'd bolt \<Rightarrow> 'd pnode \<Rightarrow> api_request \<Rightarrow> api_result" where
  "handleSnapshotDetail C B n r =
     (if ar_Method r \<noteq> ''GET'' then (Ret not_allowed, [])
      else if length (ar_Path r) < length detail_prefix then (Panic ''slice bounds out of range'', [])
      else
        (let id = drop (length detail_prefix) (ar_Path r) in
         if id = [] then (Ret (http_Error ''Snapshot ID required'' 400), [])
         else
           (case LoadSnapshot C B (pworld n) id of
              Inl err \<Rightarrow>
                (if err = ErrSnapshotNotFound then (Ret (http_Error ''Snapshot not found'' 404), [])
                 else (Ret (http_Error (''Failed to load snapshot: '' @ Error_text err) 500), []))
            | Inr snapshot \<Rightarrow> (Ret (respondJSON 200 (JSnapshot snapshot)), []))))"

definition handleBackup :: "bodies \<Rightarrow> api_request \<Rightarrow> api_result" where
  "handleBackup D r = handleCreateSnapshot D r"

definition handleRestore :: "bodies \<Rightarrow> api_request \<Rightarrow> api_result" where
  "handleRestore D r =
     (if ar_Method r \<noteq> ''POST'' then (Ret not_allowed, [])
      else
        (case decode_restore D (ar_Body r) of
           Inl err \<Rightarrow> (Ret (http_Error ''Invalid request body'' 400), [])
         | Inr (snapshotID, targetPath) \<Rightarrow>
             (if snapshotID = [] \<or> targetPath = [] then
                (Ret (http_Error ''snapshot_id and target_path are required'' 400), [])
              else (Ret (accepted ''Restore operation started''), []))))"

definition handleRunGC :: "api_request \<Rightarrow> api_result" where
  "handleRunGC r =
     (if ar_Method r \<noteq> ''POST'' then (Ret not_allowed, [])
      else (Ret (accepted ''Garbage collection started''), [GC_job]))"

definition handleGCStatus :: "'d pnode \<Rightarrow> api_request \<Rightarrow> api_result" where
  "handleGCStatus n r =
     (if ar_Method r \<noteq> ''GET'' then (Ret not_allowed, [])
      else
        (Ret (respondJSON 200 (JObj [(''gc_runs'', JInt (uint (GarbageCollectionRuns (metrics n)))),
           (''blocks_deleted'', JInt (uint (BlocksDeleted (metrics n))))])), []))"

definition handleMetricsSummary :: "'d pnode \<Rightarrow> api_request \<Rightarrow> api_result" where
  "handleMetricsSummary n r =
     (let m = metrics n in
      if ar_Method r \<noteq> ''GET'' then (Ret not_allowed, [])
      else
        (Ret (respondJSON 200 (JObj
           [(''backups'', JObj [(''created'', JInt (uint (BackupsCreated m))), (''failed'', JInt (uint (BackupsFailed m)))]),
            (''restores'', JObj [(''completed'', JInt (uint (RestoresCompleted m))), (''failed'', JInt (uint (RestoresFailed m)))]),
            (''data'', JObj [(''bytes_backed_up'', JInt (uint (BytesBackedUp m))), (''bytes_restored'', JInt (uint (BytesRestored m)))]),
            (''storage'', JObj [(''total_used'', JInt (sint (TotalStorageUsed m))), (''blocks_stored'', JInt (uint (BlocksStored m))),
               (''blocks_deleted'', JInt (uint (BlocksDeleted m)))]),
            (''p2p'', JObj [(''peers_connected'', JInt (sint (PeersConnected m))), (''peers_discovered'', JInt (uint (PeersDiscovered m))),
               (''messages_sent'', JInt (uint (MessagesSent m))), (''messages_received'', JInt (uint (MessagesReceived m)))]),
            (''errors'', JObj [(''total'', JInt (uint (TotalErrors m))), (''network'', JInt (uint (NetworkErrors m))),
               (''storage'', JInt (uint (StorageErrors m))), (''crypto'', JInt (uint (CryptoErrors m)))])])), []))"

definition handleStatus :: "hostview \<Rightarrow> int \<Rightarrow> HealthChecker \<Rightarrow> api_request \<Rightarrow> api_result" where
  "handleStatus V now h r =
     (if ar_Method r \<noteq> ''GET'' then (Ret not_allowed, [])
      else
        (Ret (respondJSON 200 (JObj [(''health'', JHealth (GetHealth now h)), (''p2p_id'', JStr (host_ID V)),
           (''peers'', JInt (int (length (host_peers V))))])), []))"

definition handlePeers :: "hostview \<Rightarrow> api_request \<Rightarrow> api_result" where
  "handlePeers V r =
     (if ar_Method r \<noteq> ''GET'' then (Ret not_allowed, [])
      else
        (let peerList = map (\<lambda>(p, addrs). JObj [(''id'', JStr p), (''addrs'', JArr (map JStr addrs))]) (host_peers V)
         in (Ret (respondJSON 200 (JObj [(''peers'', JArr peerList), (''count'', JInt (int (length peerList)))])), [])))"

section \<open>Routing\<close>

datatype route = R_snapshots | R_create | R_detail | R_backup | R_restore | R_gc_run | R_gc_status | R_summary | R_status | R_peers

definition api_mux :: "(string \<times> route) list" where
  "api_mux = [(''/api/v1/snapshots'', R_snapshots), (''/api/v1/snapshots/create'', R_create), (''/api/v1/snapshots/'', R_detail),
     (''/api/v1/backup'', R_backup), (''/api/v1/restore'', R_restore), (''/api/v1/gc/run'', R_gc_run),
     (''/api/v1/gc/status'', R_gc_status), (''/api/v1/metrics/summary'', R_summary), (''/api/v1/status'', R_status),
     (''/api/v1/peers'', R_peers)]"

definition pattern_matches :: "string \<Rightarrow> string \<Rightarrow> bool" where
  "pattern_matches pat path = (pat = path \<or> pat \<noteq> [] \<and> last pat = CHR ''/'' \<and> prefix pat path)"

fun mux_match :: "(string \<times> 'r) list \<Rightarrow> string \<Rightarrow> (string \<times> 'r) option" where
  "mux_match [] path = None"
| "mux_match ((pat, h) # pats) path =
     (case mux_match pats path of
        None \<Rightarrow> (if pattern_matches pat path then Some (pat, h) else None)
      | Some (pat', h') \<Rightarrow>
          (if pattern_matches pat path \<and> length pat' < length pat then Some (pat, h) else Some (pat', h')))"

definition cleanPath :: "string \<Rightarrow> string" where
  "cleanPath p =
     (if p = [] then ''/''
      else
        (let p = (if hd p \<noteq> CHR ''/'' then CHR ''/'' # p else p);
             np = filepath_Clean p
         in if last p = CHR ''/'' \<and> np \<noteq> ''/'' then np @ ''/'' else np))"

definition dispatch :: "codec \<Rightarrow> 'd bolt \<Rightarrow> bodies \<Rightarrow> hostview \<Rightarrow> int \<Rightarrow> HealthChecker \<Rightarrow> 'd pnode \<Rightarrow> route \<Rightarrow> api_request \<Rightarrow>
    api_result" where
  "dispatch C B D V now h n rt r =
     (case rt of
        R_snapshots \<Rightarrow> handleSnapshots C B n r
      | R_create \<Rightarrow> handleCreateSnapshot D r
      | R_detail \<Rightarrow> handleSnapshotDetail C B n r
      | R_backup \<Rightarrow> handleBackup D r
      | R_restore \<Rightarrow> handleRestore D r
      | R_gc_run \<Rightarrow> handleRunGC r
      | R_gc_status \<Rightarrow> handleGCStatus n r
      | R_summary \<Rightarrow> handleMetricsSummary n r
      | R_status \<Rightarrow> handleStatus V now h r
      | R_peers \<Rightarrow> handlePeers V r)"

definition mux_serve :: "codec \<Rightarrow> 'd bolt \<Rightarrow> bodies \<Rightarrow> hostview \<Rightarrow> int \<Rightarrow> HealthChecker \<Rightarrow> 'd pnode \<Rightarrow> api_request \<Rightarrow> api_result" where
  "mux_serve C B D V now h n r =
     (if ar_Path r = ''*'' then (Ret \<lparr>rs_Status = 400, rs_Body = Empty\<rparr>, [])
      else if ar_Method r \<noteq> ''CONNECT'' \<and> cleanPath (ar_Path r) \<noteq> ar_Path r then
        (Ret \<lparr>rs_Status = 301, rs_Body = Text (cleanPath (ar_Path r))\<rparr>, [])
      else
        (case mux_match api_mux (ar_Path r) of
           None \<Rightarrow> (Ret (http_Error ''404 page not found'' 404), [])
         | Some (_, rt) \<Rightarrow> dispatch C B D V now h n rt r))"

definition corsMiddleware :: "(api_request \<Rightarrow> api_result) \<Rightarrow> api_request \<Rightarrow> api_result" where
  "corsMiddleware serve r =
     (if ar_Method r = ''OPTIONS'' then (Ret \<lparr>rs_Status = 200, rs_Body = Empty\<rparr>, []) else serve r)"

text \<open>The handler of the server; the logging around it changes nothing.\<close>

definition api_serve :: "codec \<Rightarrow> 'd bolt \<Rightarrow> bodies \<Rightarrow> hostview \<Rightarrow> int \<Rightarrow> HealthChecker \<Rightarrow> 'd pnode \<Rightarrow> api_request \<Rightarrow> api_result" where
  "api_serve C B D V now h n r = corsMiddleware (mux_serve C B D V now h n) r"

text \<open>A job, run on the node: its errors are only logged, a panic takes the process down.\<close>

definition run_job :: "prims \<Rightarrow> codec \<Rightarrow> clock \<Rightarrow> 'd bolt \<Rightarrow> wire \<Rightarrow> publish \<Rightarrow> Agent \<Rightarrow> Collector \<Rightarrow> (string \<Rightarrow> node) \<Rightarrow>
    int \<Rightarrow> int \<Rightarrow> i64 \<Rightarrow> job \<Rightarrow> 'd pnode \<Rightarrow> unit outcome \<times> 'd pnode" where
  "run_job P C T B W pub a gc fs t1 t2 dur j n =
     (case j of
        Backup_job path \<Rightarrow>
          (case CreateAndSaveSnapshot P C T B W pub a path (fs path) t1 t2 dur n of
             (Panic m, n') \<Rightarrow> (Panic m, n')
           | (Ret err, n') \<Rightarrow> (Ret (), n'))
      | GC_job \<Rightarrow>
          (case Collector_RunOnce C T B gc t1 (metrics n, pworld n) of
             (err, m', w') \<Rightarrow> (Ret (), n\<lparr>metrics := m', pworld := w'\<rparr>)))"

section \<open>What the routes do\<close>

lemma pattern_detail: "pattern_matches detail_prefix path \<longleftrightarrow> prefix detail_prefix path"
  by (auto simp: pattern_matches_def detail_prefix_def)

lemma pattern_exact: "pat \<in> fst ` set api_mux \<Longrightarrow> pat \<noteq> detail_prefix \<Longrightarrow> pattern_matches pat path \<longleftrightarrow> pat = path"
  by (auto simp: pattern_matches_def api_mux_def detail_prefix_def)

lemma mux_match_other:
  assumes "path \<notin> fst ` set api_mux"
  shows "mux_match api_mux path = (if prefix detail_prefix path then Some (detail_prefix, R_detail) else None)"
proof -
  have "mux_match pats path = (if prefix detail_prefix path \<and> detail_prefix \<in> fst ` set pats then Some (detail_prefix, R_detail) else None)"
    if "set pats \<subseteq> set api_mux" for pats
    using that
  proof (induction pats)
    case (Cons p pats)
    obtain pat h where p: "p = (pat, h)" by (cases p)
    have mem: "pat \<in> fst ` set api_mux" using Cons.prems by (force simp: p)
    show ?case
    proof (cases "pat = detail_prefix")
      case True
      then have "h = R_detail" using Cons.prems by (auto simp: p api_mux_def detail_prefix_def)
      with True Cons show ?thesis by (auto simp: p pattern_detail)
    next
      case False
      then have "\<not> pattern_matches pat path" using pattern_exact [OF mem] mem assms by auto
      with False Cons show ?thesis by (auto simp: p)
    qed
  qed simp
  from this [of api_mux] show ?thesis by (simp add: api_mux_def detail_prefix_def)
qed

lemma mux_match_exact: "path \<in> fst ` set api_mux \<Longrightarrow> map_option snd (mux_match api_mux path) = map_of api_mux path"
  by (auto simp: api_mux_def pattern_matches_def)

lemma clean_routes: "path \<in> fst ` set api_mux \<Longrightarrow> cleanPath path = path \<and> path \<noteq> ''*''"
proof -
  have "list_all (\<lambda>p. cleanPath p = p \<and> p \<noteq> ''*'') (map fst api_mux)" by code_simp
  then show "path \<in> fst ` set api_mux \<Longrightarrow> ?thesis" by (auto simp: list_all_iff)
qed

lemma serve_route:
  assumes "path \<in> fst ` set api_mux" and "ar_Path r = path" and "ar_Method r \<noteq> ''OPTIONS''"
  shows "api_serve C B D V now h n r = dispatch C B D V now h n (the (map_of api_mux path)) r"
proof -
  have "map_option snd (mux_match api_mux path) \<noteq> None"
    unfolding mux_match_exact [OF assms(1)] using assms(1) by (simp add: map_of_eq_None_iff)
  then obtain p rt where m: "mux_match api_mux path = Some (p, rt)" by auto
  with mux_match_exact [OF assms(1)] have "map_of api_mux path = Some rt" by simp
  with m clean_routes [OF assms(1)] assms(2,3) show ?thesis by (simp add: api_serve_def corsMiddleware_def mux_serve_def)
qed

lemma handler_jobs:
  "snd (handleSnapshots C B n r) = []" "snd (handleSnapshotDetail C B n r) = []" "snd (handleRestore D r) = []"
  "snd (handleGCStatus n r) = []" "snd (handleMetricsSummary n r) = []" "snd (handleStatus V now h r) = []" "snd (handlePeers V r) = []"
  by (auto simp: handleSnapshots_def handleSnapshotDetail_def handleRestore_def handleGCStatus_def handleMetricsSummary_def
      handleStatus_def handlePeers_def Let_def split: sum.splits)

lemma handler_returns:
  "\<exists>rs. fst (handleSnapshots C B n r) = Ret rs" "\<exists>rs. fst (handleCreateSnapshot D r) = Ret rs" "\<exists>rs. fst (handleRestore D r) = Ret rs"
  "\<exists>rs. fst (handleRunGC r) = Ret rs" "\<exists>rs. fst (handleGCStatus n r) = Ret rs" "\<exists>rs. fst (handleMetricsSummary n r) = Ret rs"
  "\<exists>rs. fst (handleStatus V now h r) = Ret rs" "\<exists>rs. fst (handlePeers V r) = Ret rs"
  "length detail_prefix \<le> length (ar_Path r) \<Longrightarrow> \<exists>rs. fst (handleSnapshotDetail C B n r) = Ret rs"
  by (auto simp: handleSnapshots_def handleCreateSnapshot_def handleSnapshotDetail_def handleRestore_def handleRunGC_def handleGCStatus_def
      handleMetricsSummary_def handleStatus_def handlePeers_def Let_def split: sum.splits)

lemma serve_other:
  assumes "ar_Path r \<notin> fst ` set api_mux"
  shows "snd (api_serve C B D V now h n r) = [] \<and> (\<exists>rs. fst (api_serve C B D V now h n r) = Ret rs)"
  using assms handler_returns(9) [of r C B n] prefix_length_le [of detail_prefix "ar_Path r"]
  by (auto simp: api_serve_def corsMiddleware_def mux_serve_def mux_match_other dispatch_def handler_jobs)

lemma serve_returns: "\<exists>rs. fst (api_serve C B D V now h n r) = Ret rs"
proof (cases "ar_Path r \<in> fst ` set api_mux \<and> ar_Method r \<noteq> ''OPTIONS''")
  case True
  moreover have "length detail_prefix \<le> length (ar_Path r)" if "the (map_of api_mux (ar_Path r)) = R_detail"
    using that True by (auto simp: api_mux_def detail_prefix_def)
  ultimately show ?thesis
    by (auto simp: serve_route [OF _ refl] dispatch_def handleBackup_def handler_returns split: route.split)
next
  case False
  show ?thesis
  proof (cases "ar_Method r = ''OPTIONS''")
    case True
    then show ?thesis by (simp add: api_serve_def corsMiddleware_def)
  next
    case other: False
    with False serve_other [of r C B D V now h n] show ?thesis by blast
  qed
qed

context version_env
begin

lemma LoadSnapshot_snaps:
  "snaps_ok C B w \<Longrightarrow> LoadSnapshot C B w i = (case Snaps C B w i of None \<Rightarrow> Inl ErrSnapshotNotFound | Some sn \<Rightarrow> Inr sn)"
  by (rule repo.load_law)

end

section \<open>The path of a snapshot\<close>

lemma split_slash_none: "CHR ''/'' \<notin> set s \<Longrightarrow> split_slash s = [s]"
  by (induction s) auto

lemma clean_detail:
  assumes "CHR ''/'' \<notin> set sid" and "sid \<noteq> []" and "sid \<noteq> ''.''" and "sid \<noteq> ''..''"
  shows "cleanPath (detail_prefix @ sid) = detail_prefix @ sid"
proof -
  have "last sid \<noteq> CHR ''/''" using assms(1,2) last_in_set by metis
  with assms show ?thesis
    by (simp add: cleanPath_def filepath_Clean_def detail_prefix_def split_slash_none Let_def)
qed

lemma detail_not_exact:
  "CHR ''/'' \<notin> set sid \<Longrightarrow> sid \<noteq> [] \<Longrightarrow> sid \<noteq> ''create'' \<Longrightarrow> detail_prefix @ sid \<notin> fst ` set api_mux"
  by (auto simp: api_mux_def detail_prefix_def)

section \<open>Properties\<close>

text \<open>
  C16. What the interface can set in motion: a request never panics the server; it starts a backup exactly when it
  is a \<open>POST\<close> to one of the two backup routes whose body names a path, and a collection exactly when it is a \<open>POST\<close> to
  its route. Every other request, whatever its method and path, starts nothing, a restore request included.
\<close>

theorem api_jobs:
  "(\<exists>rs. fst (api_serve C B D V now h n r) = Ret rs) \<and>
   snd (api_serve C B D V now h n r) =
     (if ar_Method r \<noteq> ''POST'' then []
      else if ar_Path r = ''/api/v1/snapshots/create'' \<or> ar_Path r = ''/api/v1/backup'' then
        (case decode_create D (ar_Body r) of Inl _ \<Rightarrow> [] | Inr path \<Rightarrow> if path = [] then [] else [Backup_job path])
      else if ar_Path r = ''/api/v1/gc/run'' then [GC_job] else [])"
proof (intro conjI serve_returns)
  let ?jobs = "if ar_Method r \<noteq> ''POST'' then []
      else if ar_Path r = ''/api/v1/snapshots/create'' \<or> ar_Path r = ''/api/v1/backup'' then
        (case decode_create D (ar_Body r) of Inl _ \<Rightarrow> [] | Inr path \<Rightarrow> if path = [] then [] else [Backup_job path])
      else if ar_Path r = ''/api/v1/gc/run'' then [GC_job] else []"
  show "snd (api_serve C B D V now h n r) = ?jobs"
  proof (cases "ar_Path r \<in> fst ` set api_mux")
    case False
    then have "ar_Path r \<noteq> ''/api/v1/snapshots/create''" "ar_Path r \<noteq> ''/api/v1/backup''" "ar_Path r \<noteq> ''/api/v1/gc/run''"
      by (auto simp: api_mux_def)
    then show ?thesis using serve_other [OF False, of C B D V now h n] by simp
  next
    case True
    show ?thesis
    proof (cases "ar_Method r = ''OPTIONS''")
      case False
      with True show ?thesis unfolding serve_route [OF True refl False]
        by (auto simp: api_mux_def dispatch_def handler_jobs handleCreateSnapshot_def handleBackup_def handleRunGC_def split: sum.splits)
    qed (simp add: api_serve_def corsMiddleware_def)
  qed
qed

text \<open>
  C29. Looking up a snapshot: on a well-formed database, \<open>GET /api/v1/snapshots/<id>\<close> answers 200 with exactly the
  stored snapshot when there is one, 404 when there is none, and nothing else, for every ID that is a path element.
\<close>

theorem api_snapshot_detail:
  assumes "version_env B C" and "snaps_ok C B (pworld n)"
    and "CHR ''/'' \<notin> set sid" and "sid \<noteq> []" and "sid \<noteq> ''.''" and "sid \<noteq> ''..''" and "sid \<noteq> ''create''"
    and "ar_Method r = ''GET''" and "ar_Path r = ''/api/v1/snapshots/'' @ sid"
  shows "api_serve C B D V now h n r =
    (case Snaps C B (pworld n) sid of
       Some sn \<Rightarrow> (Ret \<lparr>rs_Status = 200, rs_Body = Json (JSnapshot sn)\<rparr>, [])
     | None \<Rightarrow> (Ret \<lparr>rs_Status = 404, rs_Body = Text (''Snapshot not found'' @ [CHR 0x0A])\<rparr>, []))"
proof -
  have p: "ar_Path r = detail_prefix @ sid" using assms(9) by (simp add: detail_prefix_def)
  have "mux_match api_mux (ar_Path r) = Some (detail_prefix, R_detail)"
    unfolding p using mux_match_other [OF detail_not_exact [OF assms(3,4,7)]] by simp
  moreover have "ar_Path r \<noteq> ''*''" using assms(9) by simp
  moreover have "cleanPath (ar_Path r) = ar_Path r" unfolding p by (rule clean_detail [OF assms(3-6)])
  ultimately have "api_serve C B D V now h n r = handleSnapshotDetail C B n r"
    using assms(8) by (simp add: api_serve_def corsMiddleware_def mux_serve_def dispatch_def)
  then show ?thesis
    using version_env.LoadSnapshot_snaps [OF assms(1,2), of sid] assms(4,8)
    by (simp add: handleSnapshotDetail_def p respondJSON_def http_Error_def Let_def split: option.splits)
qed

theorem api_snapshot_detail_witness:
  "api_serve ref_codec mem_bolt \<lparr>decode_create = (\<lambda>_. Inr []), decode_restore = (\<lambda>_. Inr ([], []))\<rparr>
     \<lparr>host_ID = ''me'', host_peers = []\<rparr> 0 (NewHealthChecker ''1'' 0) (wit_node wit_world)
     \<lparr>ar_Method = ''GET'', ar_Path = ''/api/v1/snapshots/snap-1'', ar_Body = []\<rparr> =
   (Ret \<lparr>rs_Status = 404, rs_Body = Text (''Snapshot not found'' @ [CHR 0x0A])\<rparr>, [])"
proof -
  have w: "pworld (wit_node wit_world) = wit_world" by (simp add: wit_node_def)
  have "Snaps ref_codec mem_bolt wit_world ''snap-1'' = None"
    by (simp add: Snaps_def wit_world_def mem_bolt_def mem_kvs_def mem_db0_def)
  then show ?thesis
    using api_snapshot_detail [OF wit_versions.version_env_axioms, of "wit_node wit_world" "''snap-1''"
      "\<lparr>ar_Method = ''GET'', ar_Path = ''/api/v1/snapshots/snap-1'', ar_Body = []\<rparr>"] wit_snaps_ok
    by (simp add: w)
qed

text \<open>
  A restore request with both fields is answered with the message that the restore has started, although nothing is started.
\<close>

lemma restore_request_ignored:
  "decode_restore D (ar_Body r) = Inr (c # snapshotID, d # targetPath) \<Longrightarrow> ar_Method r = ''POST'' \<Longrightarrow>
     handleRestore D r = (Ret (accepted ''Restore operation started''), [])"
  by (simp add: handleRestore_def)

end
