(* ===== verification/SV_Race.thy ===== *)
theory SV_Race
  imports SV_Agent SV_GC
begin

text \<open>
  A backup and the garbage collector at work on one database at the same time, as the HTTP interface lets them be: both run
  in goroutines of their own and take no common lock; only the single transactions exclude each other.

  The steps of the relation \<open>race_step\<close> are those transactions, made of the operations of the store, of the snapshot
  repository and of the collector: the \<open>PutChunk\<close> calls of \<open>CreateSnapshot\<close> and the \<open>SaveSnapshot\<close> after
  them, the two reads and the deletions of \<open>Collector.Run\<close>. With the flag \<open>excl\<close> set, a backup and a
  collection wait for each other, as they would under a common lock. Then no snapshot ever loses a chunk;
  without it, a collection between the two halves of a backup destroys the new snapshot.
\<close>

section \<open>The interleavings\<close>

datatype backup_state = Idle | Storing "bytes list" "string list" | Saving Snapshot | Saved Snapshot

datatype gc_state = Waiting | Found "string set" | Deleting "string set" "string list"

fun in_progress :: "backup_state \<Rightarrow> bool" where
  "in_progress (Storing ms hs) = True"
| "in_progress (Saving sn) = True"
| "in_progress b = False"

type_synonym 'd race_state = "'d world \<times> backup_state \<times> gc_state"

inductive race_step :: "prims \<Rightarrow> codec \<Rightarrow> 'd bolt \<Rightarrow> Store \<Rightarrow> bool \<Rightarrow> 'd race_state \<Rightarrow> 'd race_state \<Rightarrow> bool"
  for P C B s excl where
  begin_backup: "\<not> in_progress b \<Longrightarrow> (excl \<Longrightarrow> g = Waiting) \<Longrightarrow> race_step P C B s excl (w, b, g) (w, Storing ms [], g)"
| put: "Store_PutChunk P B s m w = (Inr h, w') \<Longrightarrow>
    race_step P C B s excl (w, Storing (m # ms) hs, g) (w', Storing ms (hs @ [h]), g)"
| put_failed: "Store_PutChunk P B s m w = (Inl e, w') \<Longrightarrow> race_step P C B s excl (w, Storing (m # ms) hs, g) (w', Idle, g)"
| sign: "Chunks sn = hs \<Longrightarrow> ascii_snapshot sn \<Longrightarrow> race_step P C B s excl (w, Storing [] hs, g) (w, Saving sn, g)"
| save: "SaveSnapshot C B w sn = (None, w') \<Longrightarrow> race_step P C B s excl (w, Saving sn, g) (w', Saved sn, g)"
| save_failed: "SaveSnapshot C B w sn = (Some e, w') \<Longrightarrow> race_step P C B s excl (w, Saving sn, g) (w', Idle, g)"
| expire: "DeleteSnapshot B w i = (r, w') \<Longrightarrow> race_step P C B s excl (w, b, Waiting) (w', b, Waiting)"
| find: "findReferencedChunks C B w = Inr refs \<Longrightarrow> (excl \<Longrightarrow> \<not> in_progress b) \<Longrightarrow>
    race_step P C B s excl (w, b, Waiting) (w, b, Found refs)"
| list: "Store_ListAll B w = Inr hs \<Longrightarrow> race_step P C B s excl (w, b, Found refs) (w, b, Deleting refs hs)"
| keep: "h \<in> refs \<Longrightarrow> race_step P C B s excl (w, b, Deleting refs (h # hs)) (w, b, Deleting refs hs)"
| delete: "h \<notin> refs \<Longrightarrow> Store_Delete B w h = (r, w') \<Longrightarrow>
    race_step P C B s excl (w, b, Deleting refs (h # hs)) (w', b, Deleting refs hs)"
| collected: "race_step P C B s excl (w, b, Deleting refs []) (w, b, Waiting)"

definition complete :: "codec \<Rightarrow> 'd bolt \<Rightarrow> 'd world \<Rightarrow> bool" where
  "complete C B w \<longleftrightarrow> (\<forall>h \<in> referenced_by (Snaps C B w). Blocks B w h \<noteq> None)"

definition backup_ok :: "'d bolt \<Rightarrow> 'd world \<Rightarrow> backup_state \<Rightarrow> bool" where
  "backup_ok B w b \<longleftrightarrow>
     (case b of
        Storing ms hs \<Rightarrow> (\<forall>h \<in> set hs. Blocks B w h \<noteq> None)
      | Saving sn \<Rightarrow> ascii_snapshot sn \<and> (\<forall>h \<in> set (Chunks sn). Blocks B w h \<noteq> None)
      | _ \<Rightarrow> True)"

definition gc_ok :: "codec \<Rightarrow> 'd bolt \<Rightarrow> 'd world \<Rightarrow> backup_state \<Rightarrow> gc_state \<Rightarrow> bool" where
  "gc_ok C B w b g \<longleftrightarrow>
     (case g of
        Waiting \<Rightarrow> True
      | Found refs \<Rightarrow> \<not> in_progress b \<and> referenced_by (Snaps C B w) \<subseteq> refs
      | Deleting refs hs \<Rightarrow> \<not> in_progress b \<and> referenced_by (Snaps C B w) \<subseteq> refs)"

fun race_ok :: "codec \<Rightarrow> 'd bolt \<Rightarrow> 'd race_state \<Rightarrow> bool" where
  "race_ok C B (w, b, g) \<longleftrightarrow> snaps_ok C B w \<and> complete C B w \<and> backup_ok B w b \<and> gc_ok C B w b g"

section \<open>What the transactions keep\<close>

locale race_env = store_env B P s + versions: version_env B C
  for B :: "'d bolt" and P :: prims and s :: Store and C :: codec
begin

lemma put_keeps:
  assumes "snaps_ok C B w" and "Store_PutChunk P B s m w = (r, w')"
  shows "snaps_ok C B w' \<and> Snaps C B w' = Snaps C B w \<and> (\<forall>h. Blocks B w h \<noteq> None \<longrightarrow> Blocks B w' h \<noteq> None) \<and>
    (\<forall>h. r = Inr h \<longrightarrow> Blocks B w' h \<noteq> None)"
proof -
  have rdy: "world_ready B w" using assms(1) by (rule snaps_ok_ready)
  have "world_ready B w' \<and> other_buckets B w' = other_buckets B w \<and>
      (\<forall>h. Blocks B w h \<noteq> None \<longrightarrow> Blocks B w' h \<noteq> None) \<and> (\<forall>h. r = Inr h \<longrightarrow> Blocks B w' h \<noteq> None)"
  proof (cases r)
    case (Inl e)
    with PutChunk_error assms(2) rdy show ?thesis by (auto simp: world_ready_def other_buckets_def)
  next
    case (Inr h)
    from PutChunk_success [OF rdy assms(2) [unfolded Inr]] show ?thesis
      by (auto simp: Inr PutChunk_effect_def other_buckets_def fun_eq_iff)
  qed
  with snaps_other_buckets [OF assms(1)] show ?thesis by blast
qed

lemma save_keeps:
  assumes "snaps_ok C B w" and "ascii_snapshot sn" and "SaveSnapshot C B w sn = (None, w')"
  shows "snaps_ok C B w' \<and> Snaps C B w' = (Snaps C B w)(ID sn \<mapsto> sn) \<and> Blocks B w' = Blocks B w"
  using versions.repo.save_law [OF assms] blocks_non_snapshots by blast

lemma save_failed_keeps: "SaveSnapshot C B w sn = (Some e, w') \<Longrightarrow> w' = w"
  by (rule versions.repo.save_err)

lemma expire_keeps:
  assumes "snaps_ok C B w" and "DeleteSnapshot B w i = (r, w')"
  shows "snaps_ok C B w' \<and> Snaps C B w' \<subseteq>\<^sub>m Snaps C B w \<and> Blocks B w' = Blocks B w"
proof (cases r)
  case None
  with versions.repo.delete_law [OF assms(1)] assms(2)
  have "snaps_ok C B w'" "Snaps C B w' = (Snaps C B w)(i := None)" "non_snapshots B w' = non_snapshots B w" by auto
  moreover from this(3) have "Blocks B w' = Blocks B w" by (rule blocks_non_snapshots)
  ultimately show ?thesis by (simp add: map_le_def)
next
  case (Some e)
  with versions.repo.delete_err [of w i e w'] assms have "w' = w" by simp
  with assms(1) show ?thesis by simp
qed

lemma delete_keeps:
  assumes "snaps_ok C B w" and "Store_Delete B w h = (r, w')"
  shows "snaps_ok C B w' \<and> Snaps C B w' = Snaps C B w \<and> (\<forall>h'. h' \<noteq> h \<longrightarrow> Blocks B w' h' = Blocks B w h')"
proof (cases r)
  case None
  with db.store.delete_law [OF snaps_ok_ready [OF assms(1)]] assms(2)
  have "world_ready B w'" "Blocks B w' = (Blocks B w)(h := None)" "other_buckets B w' = other_buckets B w" by auto
  with snaps_other_buckets [OF assms(1)] show ?thesis by simp
next
  case (Some e)
  with db.store.delete_err [of w h e w'] assms have "w' = w" by simp
  with assms(1) show ?thesis by simp
qed

lemma find_refs: "snaps_ok C B w \<Longrightarrow> findReferencedChunks C B w = Inr (referenced_by (Snaps C B w))"
  using versions.repo.list_law [of w] by (auto simp: findReferencedChunks_def getAllSnapshots_def referenced_by_def)

lemma list_blocks: "world_ready B w \<Longrightarrow> \<exists>hs. Store_ListAll B w = Inr hs \<and> sorted_wrt (<) hs \<and> set hs = dom (Blocks B w)"
  by (rule db.store.list_law)

lemma race_step_ok:
  assumes "race_step P C B s True x y" and "race_ok C B x"
  shows "race_ok C B y"
  using assms
proof (cases rule: race_step.cases)
  case (put m w h w' ms hs g)
  with assms(2) put_keeps [of w m "Inr h" w'] show ?thesis
    by (auto simp: complete_def backup_ok_def gc_ok_def split: gc_state.splits)
next
  case (put_failed m w e w' ms hs g)
  with assms(2) put_keeps [of w m "Inl e" w'] show ?thesis
    by (auto simp: complete_def backup_ok_def gc_ok_def split: gc_state.splits)
next
  case (save w sn w' g)
  with assms(2) have "snaps_ok C B w" "ascii_snapshot sn" by (simp_all add: backup_ok_def)
  from save_keeps [OF this save(3)] save assms(2) show ?thesis
    by (auto simp: complete_def backup_ok_def gc_ok_def referenced_by_def ran_def split: gc_state.splits if_splits)
next
  case (save_failed w sn e w' g)
  with save_failed_keeps [of w sn e w'] assms(2) show ?thesis by (auto simp: backup_ok_def gc_ok_def split: gc_state.splits)
next
  case (expire w i r w' b)
  with expire_keeps [of w i r w'] assms(2) have "snaps_ok C B w'" "Snaps C B w' \<subseteq>\<^sub>m Snaps C B w" "Blocks B w' = Blocks B w" by auto
  moreover from this have "referenced_by (Snaps C B w') \<subseteq> referenced_by (Snaps C B w)"
    by (force simp: referenced_by_def ran_def map_le_def dom_def)
  ultimately show ?thesis using expire assms(2) by (auto simp: complete_def backup_ok_def gc_ok_def split: backup_state.splits)
next
  case (find w refs b)
  with find_refs [of w] assms(2) show ?thesis by (simp add: gc_ok_def)
next
  case (delete h refs w r w' b hs)
  with delete_keeps [of w h r w'] assms(2) have k: "snaps_ok C B w'" "Snaps C B w' = Snaps C B w"
    "\<And>h'. h' \<noteq> h \<Longrightarrow> Blocks B w' h' = Blocks B w h'" by auto
  moreover have "\<not> in_progress b" "referenced_by (Snaps C B w) \<subseteq> refs" using delete(1) assms(2) by (simp_all add: gc_ok_def)
  moreover from this delete(3) have "\<And>h'. h' \<in> referenced_by (Snaps C B w) \<Longrightarrow> h' \<noteq> h" by blast
  ultimately have "complete C B w'" using delete(1) assms(2) by (simp add: complete_def)
  moreover have "backup_ok B w' b" using \<open>\<not> in_progress b\<close> by (cases b) (simp_all add: backup_ok_def)
  ultimately show ?thesis using delete assms(2) k by (simp add: gc_ok_def)
qed (use assms(2) in \<open>auto simp: backup_ok_def gc_ok_def split: gc_state.splits\<close>)

lemma locked_runs_ok: "(race_step P C B s True)\<^sup>*\<^sup>* x y \<Longrightarrow> race_ok C B x \<Longrightarrow> race_ok C B y"
  by (induction rule: rtranclp_induct) (auto intro: race_step_ok)

text \<open>The collection that comes between the two halves of a backup.\<close>

lemma lost_chunk:
  assumes "snaps_ok C B w" and "Store_PutChunk P B s m w = (Inr h, w1)" and "h \<notin> referenced_by (Snaps C B w)"
    and "findReferencedChunks C B w1 = Inr refs" and "Store_Delete B w1 h = (None, w2)"
    and "ascii_snapshot sn" and "SaveSnapshot C B w2 sn = (None, w3)"
  shows "h \<notin> refs \<and> snaps_ok C B w3 \<and> LoadSnapshot C B w3 (ID sn) = Inr sn \<and> Blocks B w3 h = None"
proof -
  note put = put_keeps [OF assms(1,2)]
  then have refs: "refs = referenced_by (Snaps C B w)" using find_refs [of w1] assms(4) by simp
  have "world_ready B w1" using put snaps_ok_ready by blast
  from db.store.delete_law [OF this assms(5)] have "Blocks B w2 h = None" by simp
  moreover have "snaps_ok C B w2" using delete_keeps [OF _ assms(5)] put by blast
  ultimately show ?thesis
    using save_keeps [OF _ assms(6,7)] versions.repo.load_after_save [OF _ assms(6,7)] assms(3) by (simp add: refs)
qed

end

lemma GetChunk_missing:
  "world_ready B w \<Longrightarrow> Blocks B w h = None \<Longrightarrow> Store_GetChunk P B s h w = Ret (Inl chunk_not_found)"
  by (simp add: Store_GetChunk_def lookup_tx_def world_ready_def)

interpretation wit_race: race_env mem_bolt ref_prims wit_store ref_codec
  using wit.store_env_axioms wit_versions.version_env_axioms by (simp add: race_env_def)

lemma mem_delete_ok:
  assumes "world_ready mem_bolt w"
  obtains w' where "Store_Delete mem_bolt w h = (None, w')"
proof -
  from assms have b: "mem_buckets (wdb w) BucketBlocks \<noteq> None" "tx_begin mem_bolt (wdb w) = None"
    by (simp_all add: world_ready_def ready_def mem_bolt_def)
  then obtain d where "tx_delete mem_bolt (wdb w) BucketBlocks h = Inr d" by (auto simp: mem_bolt_def mem_upd_def)
  moreover have "tx_commit mem_bolt d = Inr d" by (simp add: mem_bolt_def)
  ultimately show ?thesis using that b(2) by (simp add: Store_Delete_def DB_Update_def)
qed

section \<open>Properties\<close>



text \<open>
  C36. Without a lock a collection destroys a backup that is being made: the chunk is stored, the collector, which finds no snapshot
  referring to it, deletes it, and the snapshot is saved. The steps are a run of the two goroutines; at its end the snapshot
  loads, but its chunk cannot be read.
\<close>

theorem gc_destroys_running_backup:
  assumes "race_env B P s C" and "snaps_ok C B w" and "Blocks B w = Map.empty" and "h \<notin> referenced_by (Snaps C B w)"
    and "Store_PutChunk P B s m w = (Inr h, w1)" and "findReferencedChunks C B w1 = Inr refs"
    and "Store_ListAll B w1 = Inr [h]" and "Store_Delete B w1 h = (None, w2)"
    and "ascii_snapshot sn" and "Chunks sn = [h]" and "SaveSnapshot C B w2 sn = (None, w3)"
  shows "(race_step P C B s False)\<^sup>*\<^sup>* (w, Idle, Waiting) (w3, Saved sn, Waiting) \<and>
    LoadSnapshot C B w3 (ID sn) = Inr sn \<and> Store_GetChunk P B s h w3 = Ret (Inl chunk_not_found)"
proof -
  let ?step = "race_step P C B s False"
  note lost = race_env.lost_chunk [OF assms(1,2,5,4,6,8,9,11)]
  have "?step (w, Idle, Waiting) (w, Storing [m] [], Waiting)" by (rule race_step.begin_backup) simp_all
  moreover have "?step (w, Storing [m] [], Waiting) (w1, Storing [] ([] @ [h]), Waiting)" using assms(5) by (rule race_step.put)
  moreover have "?step (w1, Storing [] ([] @ [h]), Waiting) (w1, Storing [] ([] @ [h]), Found refs)"
    using assms(6) by (rule race_step.find) simp
  moreover have "?step (w1, Storing [] ([] @ [h]), Found refs) (w1, Storing [] ([] @ [h]), Deleting refs [h])"
    using assms(7) by (rule race_step.list)
  moreover have "?step (w1, Storing [] ([] @ [h]), Deleting refs [h]) (w2, Storing [] ([] @ [h]), Deleting refs [])"
    using lost assms(8) by (blast intro: race_step.delete)
  moreover have "?step (w2, Storing [] ([] @ [h]), Deleting refs []) (w2, Storing [] ([] @ [h]), Waiting)"
    by (rule race_step.collected)
  moreover have "?step (w2, Storing [] ([] @ [h]), Waiting) (w2, Saving sn, Waiting)"
    using assms(9,10) by (intro race_step.sign) simp_all
  moreover have "?step (w2, Saving sn, Waiting) (w3, Saved sn, Waiting)" using assms(11) by (rule race_step.save)
  ultimately have "?step\<^sup>*\<^sup>* (w, Idle, Waiting) (w3, Saved sn, Waiting)"
    by (meson converse_rtranclp_into_rtranclp rtranclp.rtrancl_refl)
  with lost GetChunk_missing [OF snaps_ok_ready] show ?thesis by blast
qed

theorem gc_destroys_running_backup_witness:
  "\<exists>h sn w3. (race_step ref_prims ref_codec mem_bolt wit_store False)\<^sup>*\<^sup>* (wit_world, Idle, Waiting) (w3, Saved sn, Waiting) \<and>
     LoadSnapshot ref_codec mem_bolt w3 (ID sn) = Inr sn \<and>
     Store_GetChunk ref_prims mem_bolt wit_store h w3 = Ret (Inl chunk_not_found)"
proof -
  let ?h = "hash_str ref_prims ''hello''"
  obtain w1 where put: "Store_PutChunk ref_prims mem_bolt wit_store ''hello'' wit_world = (Inr ?h, w1)"
    by (rule wit_put [of "''hello''"]) simp
  have none: "Blocks mem_bolt wit_world = Map.empty" by (simp add: fun_eq_iff wit_fresh)
  have empty: "Snaps ref_codec mem_bolt wit_world = Map.empty"
    by (simp add: Snaps_def wit_world_def mem_bolt_def mem_kvs_def mem_db0_def fun_eq_iff)
  then have unref: "?h \<notin> referenced_by (Snaps ref_codec mem_bolt wit_world)" by (simp add: referenced_by_def)
  note kept = wit_race.put_keeps [OF wit_snaps_ok put]
  then have rdy1: "world_ready mem_bolt w1" using snaps_ok_ready by blast
  have find: "findReferencedChunks ref_codec mem_bolt w1 = Inr {}"
    using wit_race.find_refs [of w1] kept empty by (simp add: referenced_by_def)
  obtain v where "\<And>k. Blocks mem_bolt w1 k = (if k = ?h then Some v else Blocks mem_bolt wit_world k)"
    using wit.PutChunk_success [OF wit_ready put] wit_fresh [of ?h] by (auto simp: PutChunk_effect_def)
  then have "dom (Blocks mem_bolt w1) = {?h}" using wit_fresh by (auto split: if_splits)
  with wit_race.list_blocks [OF rdy1] obtain hs where hs: "Store_ListAll mem_bolt w1 = Inr hs" "sorted_wrt (<) hs" "set hs = {?h}" by auto
  then have list: "Store_ListAll mem_bolt w1 = Inr [?h]"
    by (cases hs; cases "tl hs") (auto simp: subset_singleton_iff)
  obtain w2 where del: "Store_Delete mem_bolt w1 ?h = (None, w2)" by (rule mem_delete_ok [OF rdy1])
  have "snaps_ok ref_codec mem_bolt w2" using wit_race.delete_keeps [OF _ del] kept by blast
  then have rdy2: "world_ready mem_bolt w2" by (rule snaps_ok_ready)
  define sn where "sn = wit_snapshot\<lparr>Chunks := [?h]\<rparr>"
  have sn: "ascii_snapshot sn" "Chunks sn = [?h]" "ID sn \<noteq> []"
    using wit_snapshot_ascii by (simp_all add: sn_def ascii_snapshot_def) (simp add: wit_snapshot_def)
  obtain w3 where save: "SaveSnapshot ref_codec mem_bolt w2 sn = (None, w3)" by (rule mem_save_ok [OF rdy2 sn(3)])
  from gc_destroys_running_backup [OF wit_race.race_env_axioms wit_snaps_ok none unref put find list del sn(1,2) save]
  show ?thesis by blast
qed

end
