(* ===== verification/SV_Scheduler.thy ===== *)
theory SV_Scheduler
  imports SV_Snapshots "HOL-Library.AList"
begin

text \<open>
  \<open>internal/scheduler/scheduler.go\<close>: periodic backups with retries.

  The tasks are objects: the map of the scheduler and a running backup hold pointers to the same
  \<open>BackupTask\<close>, and a task that is removed while its backup runs is still updated when the backup ends.
  The model keeps a list of the allocated tasks, whose indices are the pointers, and the map of the
  scheduler as an association list from IDs to pointers; Go iterates over a map in an arbitrary order, and
  nothing below depends on the order of the list. Times are nanoseconds since 1970 and
  every reading of the clock is an argument. What the mutex makes atomic is one operation; the goroutines
  (the loop of \<open>run\<close> and one \<open>runTask\<close> per started backup) interleave as the step relation
  \<open>sched_step\<close> allows.
\<close>

section \<open>scheduler.go\<close>

record BackupTask =
  t_ID :: string
  t_Path :: string
  t_Interval :: int
  t_LastRun :: int
  t_NextRun :: int
  t_Enabled :: bool
  t_MaxRetries :: int
  t_RetryCount :: int

record Scheduler =
  s_tasks :: "(string \<times> nat) list"
  s_objs :: "BackupTask list"
  s_done :: bool
  s_running :: bool
  s_loops :: nat
  s_flight :: "nat list"

text \<open>\<open>s_done\<close> is the cancelled context, \<open>s_loops\<close> the number of live \<open>run\<close> goroutines,
  \<open>s_flight\<close> the tasks whose backup function is running.\<close>

definition NewScheduler :: Scheduler where
  "NewScheduler = \<lparr>s_tasks = [], s_objs = [], s_done = False, s_running = False, s_loops = 0, s_flight = []\<rparr>"

text \<open>The zero \<open>time.Time\<close> is the first of January of the year 1.\<close>

definition zero_time :: int where
  "zero_time = - 62135596800 * second"

definition minute :: int where
  "minute = 60 * second"

definition task_not_found :: "string \<Rightarrow> gerror" where
  "task_not_found i = ErrorString (''task '' @ i @ '' not found'')"

definition task_exists :: "string \<Rightarrow> gerror" where
  "task_exists i = ErrorString (''task '' @ i @ '' already exists'')"

definition AddTask :: "string \<Rightarrow> string \<Rightarrow> int \<Rightarrow> int \<Rightarrow> int \<Rightarrow> Scheduler \<Rightarrow> gerror option \<times> Scheduler" where
  "AddTask i path interval maxRetries now s =
     (case map_of (s_tasks s) i of
        Some _ \<Rightarrow> (Some (task_exists i), s)
      | None \<Rightarrow>
          (let task = \<lparr>t_ID = i, t_Path = path, t_Interval = interval, t_LastRun = zero_time, t_NextRun = now + interval,
             t_Enabled = True, t_MaxRetries = maxRetries, t_RetryCount = 0\<rparr>
           in (None, s\<lparr>s_tasks := AList.update i (length (s_objs s)) (s_tasks s), s_objs := s_objs s @ [task]\<rparr>)))"

definition RemoveTask :: "string \<Rightarrow> Scheduler \<Rightarrow> gerror option \<times> Scheduler" where
  "RemoveTask i s =
     (case map_of (s_tasks s) i of
        None \<Rightarrow> (Some (task_not_found i), s)
      | Some _ \<Rightarrow> (None, s\<lparr>s_tasks := AList.delete i (s_tasks s)\<rparr>))"

definition set_task :: "nat \<Rightarrow> (BackupTask \<Rightarrow> BackupTask) \<Rightarrow> Scheduler \<Rightarrow> Scheduler" where
  "set_task a f s = s\<lparr>s_objs := (s_objs s)[a := f (s_objs s ! a)]\<rparr>"

definition EnableTask :: "string \<Rightarrow> Scheduler \<Rightarrow> gerror option \<times> Scheduler" where
  "EnableTask i s =
     (case map_of (s_tasks s) i of
        None \<Rightarrow> (Some (task_not_found i), s)
      | Some task \<Rightarrow> (None, set_task task (\<lambda>t. t\<lparr>t_Enabled := True\<rparr>) s))"

definition DisableTask :: "string \<Rightarrow> Scheduler \<Rightarrow> gerror option \<times> Scheduler" where
  "DisableTask i s =
     (case map_of (s_tasks s) i of
        None \<Rightarrow> (Some (task_not_found i), s)
      | Some task \<Rightarrow> (None, set_task task (\<lambda>t. t\<lparr>t_Enabled := False\<rparr>) s))"

definition Scheduler_Start :: "Scheduler \<Rightarrow> Scheduler" where
  "Scheduler_Start s = (if s_running s then s else s\<lparr>s_running := True, s_loops := Suc (s_loops s)\<rparr>)"

definition Scheduler_Stop :: "Scheduler \<Rightarrow> Scheduler" where
  "Scheduler_Stop s = s\<lparr>s_done := True, s_running := False\<rparr>"

definition tasksToRun :: "int \<Rightarrow> Scheduler \<Rightarrow> nat list" where
  "tasksToRun now s =
     filter (\<lambda>a. t_Enabled (s_objs s ! a) \<and> t_NextRun (s_objs s ! a) < now) (map snd (s_tasks s))"

definition checkAndRunTasks :: "int \<Rightarrow> Scheduler \<Rightarrow> Scheduler" where
  "checkAndRunTasks now s = s\<lparr>s_flight := s_flight s @ tasksToRun now s\<rparr>"

text \<open>\<open>runTask\<close> after its backup function has returned \<open>err\<close>, the clock showing \<open>now\<close>.\<close>

definition task_finished :: "gerror option \<Rightarrow> int \<Rightarrow> BackupTask \<Rightarrow> BackupTask" where
  "task_finished err now task =
     (if err \<noteq> None then
        (let task = task\<lparr>t_RetryCount := t_RetryCount task + 1\<rparr> in
         if t_RetryCount task < t_MaxRetries task then task\<lparr>t_NextRun := now + 5 * minute\<rparr>
         else task\<lparr>t_LastRun := now, t_NextRun := now + t_Interval task, t_RetryCount := 0\<rparr>)
      else task\<lparr>t_LastRun := now, t_NextRun := now + t_Interval task, t_RetryCount := 0\<rparr>)"

definition runTask_end :: "nat \<Rightarrow> gerror option \<Rightarrow> int \<Rightarrow> Scheduler \<Rightarrow> Scheduler" where
  "runTask_end a err now s = set_task a (task_finished err now) (s\<lparr>s_flight := remove1 a (s_flight s)\<rparr>)"

definition GetTasks :: "Scheduler \<Rightarrow> (string \<times> BackupTask) list" where
  "GetTasks s = map (\<lambda>(i, a). (i, s_objs s ! a)) (s_tasks s)"

definition GetTask :: "string \<Rightarrow> Scheduler \<Rightarrow> gerror + BackupTask" where
  "GetTask i s =
     (case map_of (s_tasks s) i of
        None \<Rightarrow> Inl (task_not_found i)
      | Some task \<Rightarrow> Inr (s_objs s ! task))"

definition config_task :: "nat \<Rightarrow> string" where
  "config_task i = ''config-task-'' @ itoa (int i)"

fun load_loop :: "int \<Rightarrow> int \<Rightarrow> (nat \<Rightarrow> int) \<Rightarrow> nat \<Rightarrow> string list \<Rightarrow> Scheduler \<Rightarrow> gerror option \<times> Scheduler" where
  "load_loop interval maxRetries clk i [] s = (None, s)"
| "load_loop interval maxRetries clk i (path # paths) s =
     (case AddTask (config_task i) path interval maxRetries (clk i) s of
        (Some err, s') \<Rightarrow> (Some err, s')
      | (None, s') \<Rightarrow> load_loop interval maxRetries clk (Suc i) paths s')"

definition LoadFromConfig :: "string list \<Rightarrow> int \<Rightarrow> int \<Rightarrow> (nat \<Rightarrow> int) \<Rightarrow> Scheduler \<Rightarrow> gerror option \<times> Scheduler" where
  "LoadFromConfig paths interval maxRetries clk s = load_loop interval maxRetries clk 0 paths s"

section \<open>The interleavings\<close>

text \<open>
  A tick is taken by a live loop goroutine; when the context is cancelled the \<open>select\<close> may still
  pick a tick that is ready, or end the goroutine.
\<close>

inductive sched_step :: "Scheduler \<Rightarrow> Scheduler \<Rightarrow> bool" where
  add: "sched_step s (snd (AddTask i path interval maxRetries now s))"
| remove: "sched_step s (snd (RemoveTask i s))"
| enable: "sched_step s (snd (EnableTask i s))"
| disable: "sched_step s (snd (DisableTask i s))"
| start: "sched_step s (Scheduler_Start s)"
| stop: "sched_step s (Scheduler_Stop s)"
| tick: "0 < s_loops s \<Longrightarrow> sched_step s (checkAndRunTasks now s)"
| exit: "0 < s_loops s \<Longrightarrow> s_done s \<Longrightarrow> sched_step s (s\<lparr>s_loops := s_loops s - 1\<rparr>)"
| finish: "a \<in> set (s_flight s) \<Longrightarrow> sched_step s (runTask_end a err now s)"

definition retry_ok :: "BackupTask \<Rightarrow> bool" where
  "retry_ok t \<longleftrightarrow> t_RetryCount t = 0 \<or> 0 < t_RetryCount t \<and> t_RetryCount t < t_MaxRetries t"

definition sched_ok :: "Scheduler \<Rightarrow> bool" where
  "sched_ok s \<longleftrightarrow>
     distinct (map fst (s_tasks s)) \<and> distinct (map snd (s_tasks s)) \<and>
     (\<forall>(i, a) \<in> set (s_tasks s). a < length (s_objs s) \<and> t_ID (s_objs s ! a) = i) \<and>
     (\<forall>t \<in> set (s_objs s). retry_ok t) \<and> (\<forall>a \<in> set (s_flight s). a < length (s_objs s)) \<and>
     (\<not> s_done s \<longrightarrow> s_loops s = (if s_running s then 1 else 0))"

lemma task_finished_id [simp]: "t_ID (task_finished err now t) = t_ID t"
  by (simp add: task_finished_def Let_def)

lemma retry_ok_finished: "retry_ok t \<Longrightarrow> retry_ok (task_finished err now t)"
  by (auto simp: task_finished_def retry_ok_def Let_def)

lemma set_task_ok:
  assumes "sched_ok s" and "a < length (s_objs s)" and "\<And>t. t_ID (f t) = t_ID t" and "\<And>t. retry_ok t \<Longrightarrow> retry_ok (f t)"
  shows "sched_ok (set_task a f s)"
proof -
  have old: "\<And>t. t \<in> set (s_objs s) \<Longrightarrow> retry_ok t" using assms(1) by (simp add: sched_ok_def)
  have "set ((s_objs s)[a := f (s_objs s ! a)]) \<subseteq> insert (f (s_objs s ! a)) (set (s_objs s))"
    by (rule set_update_subset_insert)
  moreover have "retry_ok (f (s_objs s ! a))" using assms(2) old by (intro assms(4)) simp
  ultimately have "\<forall>t \<in> set ((s_objs s)[a := f (s_objs s ! a)]). retry_ok t" using old by blast
  moreover have "t_ID ((s_objs s)[a := f (s_objs s ! a)] ! b) = t_ID (s_objs s ! b)" for b
    using assms(2,3) by (simp add: nth_list_update)
  ultimately show ?thesis using assms(1) by (simp add: sched_ok_def set_task_def)
qed

lemma task_pointer:
  assumes "sched_ok s" and "map_of (s_tasks s) i = Some a"
  shows "a < length (s_objs s)" and "t_ID (s_objs s ! a) = i"
  using assms map_of_SomeD [OF assms(2)] by (auto simp: sched_ok_def)

lemma AddTask_new:
  assumes "map_of (s_tasks s) i = None"
  shows "AddTask i path interval maxRetries now s = (None, s\<lparr>s_tasks := s_tasks s @ [(i, length (s_objs s))],
    s_objs := s_objs s @ [\<lparr>t_ID = i, t_Path = path, t_Interval = interval, t_LastRun = zero_time, t_NextRun = now + interval,
      t_Enabled = True, t_MaxRetries = maxRetries, t_RetryCount = 0\<rparr>]\<rparr>)"
proof -
  have "AList.update i v xs = xs @ [(i, v)]" if "map_of xs i = None" for v :: nat and xs
    using that by (induction xs) (auto split: if_splits)
  with assms show ?thesis by (simp add: AddTask_def Let_def)
qed

lemma AddTask_ok: "sched_ok s \<Longrightarrow> sched_ok (snd (AddTask i path interval maxRetries now s))"
proof (cases "map_of (s_tasks s) i")
  case None
  moreover assume "sched_ok s"
  ultimately show ?thesis
    by (auto simp: AddTask_new sched_ok_def nth_append retry_ok_def map_of_eq_None_iff)
qed (simp add: AddTask_def)

lemma RemoveTask_ok: "sched_ok s \<Longrightarrow> sched_ok (snd (RemoveTask i s))"
  by (auto simp: RemoveTask_def sched_ok_def AList.delete_eq distinct_map_filter split: option.splits)

lemma sched_step_ok: "sched_step s s' \<Longrightarrow> sched_ok s \<Longrightarrow> sched_ok s'"
proof (induction rule: sched_step.induct)
  case (add s i path interval maxRetries now)
  then show ?case by (rule AddTask_ok)
next
  case (remove s i)
  then show ?case by (rule RemoveTask_ok)
next
  case (enable s i)
  then show ?case by (auto simp: EnableTask_def retry_ok_def intro!: set_task_ok task_pointer(1) split: option.splits)
next
  case (disable s i)
  then show ?case by (auto simp: DisableTask_def retry_ok_def intro!: set_task_ok task_pointer(1) split: option.splits)
next
  case (tick s now)
  then show ?case by (auto simp: sched_ok_def checkAndRunTasks_def tasksToRun_def)
next
  case (finish a s err now)
  have "sched_ok (s\<lparr>s_flight := remove1 a (s_flight s)\<rparr>)"
    using finish.prems set_remove1_subset [of a "s_flight s"] by (auto simp: sched_ok_def)
  moreover have "a < length (s_objs s)" using finish by (auto simp: sched_ok_def)
  ultimately show ?case by (auto simp: runTask_end_def retry_ok_finished intro!: set_task_ok)
qed (auto simp: Scheduler_Start_def Scheduler_Stop_def sched_ok_def)

section \<open>Retries\<close>

text \<open>The successive failures of one task, the clock readings in the list.\<close>

fun fail_times :: "gerror \<Rightarrow> int list \<Rightarrow> BackupTask \<Rightarrow> BackupTask" where
  "fail_times err [] t = t"
| "fail_times err (now # nows) t = fail_times err nows (task_finished (Some err) now t)"

lemma fail_times_snoc: "fail_times err (nows @ [now]) t = task_finished (Some err) now (fail_times err nows t)"
  by (induction nows arbitrary: t) simp_all

lemma fail_times_fields:
  "t_MaxRetries (fail_times err nows t) = t_MaxRetries t" "t_Interval (fail_times err nows t) = t_Interval t"
  by (induction nows arbitrary: t) (simp_all add: task_finished_def Let_def)

lemma mod_Suc_int:
  assumes "0 < (m::int)"
  shows "int (Suc n) mod m = (if int n mod m + 1 < m then int n mod m + 1 else 0)"
proof -
  have "int (Suc n) mod m = (int n mod m + 1) mod m" by (simp add: mod_add_right_eq add.commute)
  moreover have "int n mod m < m" "0 \<le> int n mod m" using assms by simp_all
  ultimately show ?thesis by (cases "int n mod m + 1 < m") (simp_all add: not_less, metis add1_zle_eq mod_self order_antisym)
qed

lemma retry_mod:
  "int (Suc n) mod max 1 m = (if int n mod max 1 m + 1 < m then int n mod max 1 m + 1 else 0)"
proof -
  have "0 \<le> int n mod max 1 m" by simp
  then have "int n mod max 1 m + 1 < max 1 m \<longleftrightarrow> int n mod max 1 m + 1 < m" by linarith
  then show ?thesis using mod_Suc_int [of "max 1 m" n] by simp
qed

lemma retry_mod_0: "int (Suc n) mod max 1 m = 0 \<longleftrightarrow> \<not> int n mod max 1 m + 1 < m"
proof -
  have gen: "(if b then y else 0) = 0 \<longleftrightarrow> \<not> b" if "y \<noteq> 0" for b and y :: int using that by simp
  have "0 \<le> int n mod max 1 m" by simp
  then have "int n mod max 1 m + 1 \<noteq> 0" by linarith
  then show ?thesis unfolding retry_mod by (rule gen)
qed

lemma fail_times_count:
  assumes "t_RetryCount t = 0"
  shows "t_RetryCount (fail_times err nows t) = int (length nows) mod max 1 (t_MaxRetries t)"
proof (induction nows rule: rev_induct)
  case (snoc now nows)
  then show ?case
    using retry_mod [of "length nows" "t_MaxRetries t"]
    by (auto simp: fail_times_snoc task_finished_def fail_times_fields Let_def)
qed (simp add: assms)

section \<open>Loading the configured tasks\<close>

lemma config_task_inject [simp]: "config_task i = config_task j \<longleftrightarrow> i = j"
  by (simp add: config_task_def)

lemma load_loop_ok:
  assumes "\<And>j. i \<le> j \<Longrightarrow> map_of (s_tasks s) (config_task j) = None"
    and "load_loop interval maxRetries clk i paths s = (r, s')"
  shows "r = None \<and> length (s_tasks s') = length (s_tasks s) + length paths \<and>
    (\<forall>k < length (s_objs s). s_objs s' ! k = s_objs s ! k) \<and> length (s_objs s) \<le> length (s_objs s') \<and>
    (\<forall>k. (\<forall>j. k \<noteq> config_task j) \<or> (\<exists>j < i. k = config_task j) \<longrightarrow> map_of (s_tasks s') k = map_of (s_tasks s) k) \<and>
    (\<forall>j < length paths. \<exists>a < length (s_objs s'). map_of (s_tasks s') (config_task (i + j)) = Some a \<and>
       s_objs s' ! a = \<lparr>t_ID = config_task (i + j), t_Path = paths ! j, t_Interval = interval, t_LastRun = zero_time,
         t_NextRun = clk (i + j) + interval, t_Enabled = True, t_MaxRetries = maxRetries, t_RetryCount = 0\<rparr>)"
  using assms
proof (induction paths arbitrary: i s)
  case (Cons p ps)
  obtain s1 where s1: "AddTask (config_task i) p interval maxRetries (clk i) s = (None, s1)"
    and s1_def: "s1 = s\<lparr>s_tasks := s_tasks s @ [(config_task i, length (s_objs s))],
      s_objs := s_objs s @ [\<lparr>t_ID = config_task i, t_Path = p, t_Interval = interval, t_LastRun = zero_time,
        t_NextRun = clk i + interval, t_Enabled = True, t_MaxRetries = maxRetries, t_RetryCount = 0\<rparr>]\<rparr>"
    using AddTask_new [OF Cons.prems(1) [OF order_refl]] by simp
  have "map_of (s_tasks s1) (config_task j) = None" if "Suc i \<le> j" for j
    using Cons.prems(1) [of j] that by (simp add: s1_def map_add_def)
  moreover have "load_loop interval maxRetries clk (Suc i) ps s1 = (r, s')" using Cons.prems(2) s1 by simp
  ultimately have IH: "r = None" "length (s_tasks s') = length (s_tasks s1) + length ps"
    "\<And>k. k < length (s_objs s1) \<Longrightarrow> s_objs s' ! k = s_objs s1 ! k" "length (s_objs s1) \<le> length (s_objs s')"
    "\<And>k. (\<forall>j. k \<noteq> config_task j) \<or> (\<exists>j < Suc i. k = config_task j) \<Longrightarrow> map_of (s_tasks s') k = map_of (s_tasks s1) k"
    "\<And>j. j < length ps \<Longrightarrow> \<exists>a < length (s_objs s'). map_of (s_tasks s') (config_task (Suc i + j)) = Some a \<and>
       s_objs s' ! a = \<lparr>t_ID = config_task (Suc i + j), t_Path = ps ! j, t_Interval = interval, t_LastRun = zero_time,
         t_NextRun = clk (Suc i + j) + interval, t_Enabled = True, t_MaxRetries = maxRetries, t_RetryCount = 0\<rparr>"
    using Cons.IH [of "Suc i" s1] by blast+
  have "map_of (s_tasks s) (config_task i) = None" using Cons.prems(1) by simp
  then have new: "map_of (s_tasks s') (config_task i) = Some (length (s_objs s))"
    using IH(5) [of "config_task i"] by (auto simp: s1_def map_add_def)
  have "\<exists>a < length (s_objs s'). map_of (s_tasks s') (config_task (i + j)) = Some a \<and>
       s_objs s' ! a = \<lparr>t_ID = config_task (i + j), t_Path = (p # ps) ! j, t_Interval = interval, t_LastRun = zero_time,
         t_NextRun = clk (i + j) + interval, t_Enabled = True, t_MaxRetries = maxRetries, t_RetryCount = 0\<rparr>"
    if "j < Suc (length ps)" for j
  proof (cases j)
    case 0
    with new IH(3) [of "length (s_objs s)"] IH(4) show ?thesis
      by (intro exI [of _ "length (s_objs s)"]) (simp add: s1_def)
  next
    case (Suc j')
    with IH(6) [of j'] that show ?thesis by simp
  qed
  moreover have "map_of (s_tasks s') k = map_of (s_tasks s) k" if "(\<forall>j. k \<noteq> config_task j) \<or> (\<exists>j < i. k = config_task j)" for k
  proof -
    from that have "k \<noteq> config_task i" by auto
    moreover from that have "map_of (s_tasks s') k = map_of (s_tasks s1) k" by (intro IH(5)) auto
    ultimately show ?thesis by (simp add: s1_def map_add_def split: option.splits)
  qed
  ultimately show ?case using IH(1-4) by (auto simp: s1_def nth_append)
qed simp

section \<open>Properties\<close>

text \<open>
  C13. Every interleaving of the operations, the ticks and the ends of running backups keeps the scheduler
  well-formed: each ID names its own task, no two IDs share one, running backups refer to allocated tasks, a retry
  counter is 0 or below the limit of its task, and until \<open>Stop\<close> there is exactly one loop
  goroutine when the scheduler runs and none otherwise.
\<close>

theorem scheduler_invariant:
  assumes "sched_step\<^sup>*\<^sup>* NewScheduler s"
  shows "distinct (map fst (s_tasks s)) \<and> distinct (map snd (s_tasks s)) \<and>
    (\<forall>i a. map_of (s_tasks s) i = Some a \<longrightarrow> a < length (s_objs s) \<and> t_ID (s_objs s ! a) = i) \<and>
    (\<forall>t \<in> set (s_objs s). t_RetryCount t = 0 \<or> 0 < t_RetryCount t \<and> t_RetryCount t < t_MaxRetries t) \<and>
    (\<forall>a \<in> set (s_flight s). a < length (s_objs s)) \<and>
    (\<not> s_done s \<longrightarrow> s_loops s = (if s_running s then 1 else 0))"
proof -
  have "sched_ok NewScheduler" by (simp add: sched_ok_def NewScheduler_def)
  with assms have "sched_ok s" by (induction rule: rtranclp_induct) (auto intro: sched_step_ok)
  with task_pointer [OF this] show ?thesis by (auto simp: sched_ok_def retry_ok_def)
qed

definition wit_sched :: Scheduler where
  "wit_sched = runTask_end 0 (Some chunk_not_found) (minute + 5) (checkAndRunTasks minute (Scheduler_Start
     (snd (AddTask ''home'' ''/home'' 10 3 0 NewScheduler))))"

theorem scheduler_invariant_witness:
  "sched_step\<^sup>*\<^sup>* NewScheduler wit_sched \<and> map (\<lambda>t. t_RetryCount t) (s_objs wit_sched) = [1] \<and>
     list_all (\<lambda>t. t_RetryCount t < t_MaxRetries t) (s_objs wit_sched)"
proof -
  let ?s1 = "snd (AddTask ''home'' ''/home'' 10 3 0 NewScheduler)"
  let ?s2 = "Scheduler_Start ?s1"
  let ?s3 = "checkAndRunTasks minute ?s2"
  have "sched_step NewScheduler ?s1" and "sched_step ?s1 ?s2" by (rule sched_step.intros)+
  moreover have "sched_step ?s2 ?s3" by (rule sched_step.tick) (simp add: Scheduler_Start_def AddTask_def NewScheduler_def)
  moreover have "sched_step ?s3 wit_sched" unfolding wit_sched_def
    by (rule sched_step.finish) (simp add: checkAndRunTasks_def tasksToRun_def Scheduler_Start_def AddTask_def NewScheduler_def
        minute_def second_def)
  ultimately have run: "sched_step\<^sup>*\<^sup>* NewScheduler wit_sched"
    by (meson converse_rtranclp_into_rtranclp rtranclp.rtrancl_refl)
  have objs: "map (\<lambda>t. t_RetryCount t) (s_objs wit_sched) = [1]" "s_objs wit_sched \<noteq> []"
    by (simp_all add: wit_sched_def runTask_end_def set_task_def task_finished_def checkAndRunTasks_def tasksToRun_def
        Scheduler_Start_def AddTask_def NewScheduler_def Let_def)
  then have "\<forall>t \<in> set (s_objs wit_sched). t_RetryCount t = 1" by auto
  with scheduler_invariant [OF run] run objs show ?thesis by (auto simp: list_all_iff)
qed



text \<open>
  \<open>LoadFromConfig\<close> on a scheduler without tasks creates exactly one enabled task per path, in order and due
  one interval later; loading a non-empty list again is refused at its first task and changes nothing.
\<close>

theorem LoadFromConfig_once:
  assumes "s_tasks s = []" and "LoadFromConfig paths interval maxRetries clk s = (r, s')"
  shows "r = None \<and> length (GetTasks s') = length paths \<and>
    (\<forall>i < length paths. GetTask (config_task i) s' =
       Inr \<lparr>t_ID = config_task i, t_Path = paths ! i, t_Interval = interval, t_LastRun = zero_time,
         t_NextRun = clk i + interval, t_Enabled = True, t_MaxRetries = maxRetries, t_RetryCount = 0\<rparr>) \<and>
    (paths \<noteq> [] \<and> paths' \<noteq> [] \<longrightarrow>
       LoadFromConfig paths' interval' maxRetries' clk' s' = (Some (task_exists (config_task 0)), s'))"
proof -
  have "\<And>j. 0 \<le> j \<Longrightarrow> map_of (s_tasks s) (config_task j) = None" using assms(1) by simp
  from load_loop_ok [OF this assms(2) [unfolded LoadFromConfig_def]]
  have r: "r = None" "length (s_tasks s') = length paths"
    and tasks: "\<And>j. j < length paths \<Longrightarrow> \<exists>a < length (s_objs s'). map_of (s_tasks s') (config_task j) = Some a \<and>
       s_objs s' ! a = \<lparr>t_ID = config_task j, t_Path = paths ! j, t_Interval = interval, t_LastRun = zero_time,
         t_NextRun = clk j + interval, t_Enabled = True, t_MaxRetries = maxRetries, t_RetryCount = 0\<rparr>"
    using assms(1) by simp_all
  have "LoadFromConfig paths' interval' maxRetries' clk' s' = (Some (task_exists (config_task 0)), s')"
    if "paths \<noteq> []" "paths' \<noteq> []"
    using that tasks [of 0] by (cases paths') (auto simp: LoadFromConfig_def AddTask_def)
  moreover have "GetTask (config_task i) s' =
       Inr \<lparr>t_ID = config_task i, t_Path = paths ! i, t_Interval = interval, t_LastRun = zero_time,
         t_NextRun = clk i + interval, t_Enabled = True, t_MaxRetries = maxRetries, t_RetryCount = 0\<rparr>"
    if "i < length paths" for i
    using tasks [OF that] by (auto simp: GetTask_def)
  ultimately show ?thesis using r by (simp add: GetTasks_def)
qed

theorem LoadFromConfig_once_witness:
  "GetTask (config_task 1) (snd (LoadFromConfig [''/a'', ''/b''] 10 3 (\<lambda>_. 5) NewScheduler)) =
     Inr \<lparr>t_ID = config_task 1, t_Path = ''/b'', t_Interval = 10, t_LastRun = zero_time,
         t_NextRun = 15, t_Enabled = True, t_MaxRetries = 3, t_RetryCount = 0\<rparr>"
proof -
  obtain r s where s: "LoadFromConfig [''/a'', ''/b''] 10 3 (\<lambda>_. 5) NewScheduler = (r, s)" by (metis surj_pair)
  have "s_tasks NewScheduler = []" by (simp add: NewScheduler_def)
  from LoadFromConfig_once [OF this s] show ?thesis by (simp add: s)
qed

text \<open>
  A backup that is still running when the next tick comes is started once more: two ticks in a row
  leave the same task running twice, because \<open>NextRun\<close> only moves when a backup ends.
\<close>

theorem overlapping_backups:
  "\<exists>s. sched_step\<^sup>*\<^sup>* NewScheduler s \<and> s_flight s = [0, 0]"
proof -
  let ?s1 = "snd (AddTask ''home'' ''/home'' 10 3 0 NewScheduler)"
  let ?s2 = "Scheduler_Start ?s1"
  let ?s3 = "checkAndRunTasks minute ?s2"
  let ?s4 = "checkAndRunTasks (2 * minute) ?s3"
  note defs = Scheduler_Start_def AddTask_def NewScheduler_def checkAndRunTasks_def tasksToRun_def minute_def second_def
  have "sched_step NewScheduler ?s1" and "sched_step ?s1 ?s2" by (rule sched_step.intros)+
  moreover have "sched_step ?s2 ?s3" by (rule sched_step.tick) (simp add: defs)
  moreover have "sched_step ?s3 ?s4" by (rule sched_step.tick) (simp add: defs)
  ultimately have "sched_step\<^sup>*\<^sup>* NewScheduler ?s4" by (meson converse_rtranclp_into_rtranclp rtranclp.rtrancl_refl)
  moreover have "s_flight ?s4 = [0, 0]" by (simp add: defs)
  ultimately show ?thesis by blast
qed

end
