(* ===== verification/SV_Shutdown.thy ===== *)
theory SV_Shutdown
  imports SV_Health "HOL-Library.Multiset"
begin

text \<open>
  \<open>internal/shutdown/manager.go\<close>: hooks in priority order, each with its own timeout under a
  common one.

  A hook's function gets the time its context has left and returns after some time with an
  error or \<open>nil\<close>, or hangs. When the function returns at the very moment of its deadline, or the
  deadline has passed before the hook is reached, the \<open>select\<close> may take either branch: the argument
  \<open>race\<close> says, for the hook at that position, whether a result was received, and which. (In that
  second case the goroutine may also run late and, the loop variable being shared by all
  iterations in Go 1.21, call the function of a later hook.)
\<close>

section \<open>manager.go\<close>

datatype hook_run = Returns nat "gerror option" | Hangs

record Hook =
  h_Name :: string
  h_Priority :: int
  h_Func :: "int \<Rightarrow> hook_run"
  h_Timeout :: int

record Manager =
  m_hooks :: "Hook list"
  m_shutdown_closed :: bool
  m_done_closed :: bool
  m_timeout :: int

definition NewManager :: "int \<Rightarrow> Manager" where
  "NewManager timeout = \<lparr>m_hooks = [], m_shutdown_closed = False, m_done_closed = False, m_timeout = timeout\<rparr>"

text \<open>The loop that looks for the first hook of a higher priority number.\<close>

fun insert_hook :: "Hook \<Rightarrow> Hook list \<Rightarrow> Hook list" where
  "insert_hook hook [] = [hook]"
| "insert_hook hook (h # hs) = (if h_Priority hook < h_Priority h then hook # h # hs else h # insert_hook hook hs)"

definition RegisterHook :: "string \<Rightarrow> int \<Rightarrow> int \<Rightarrow> (int \<Rightarrow> hook_run) \<Rightarrow> Manager \<Rightarrow> Manager" where
  "RegisterHook name priority timeout fn m =
     m\<lparr>m_hooks := insert_hook \<lparr>h_Name = name, h_Priority = priority, h_Func = fn, h_Timeout = timeout\<rparr> (m_hooks m)\<rparr>"

definition hook_error :: "string \<Rightarrow> gerror option \<Rightarrow> gerror list" where
  "hook_error name err = (case err of None \<Rightarrow> [] | Some e \<Rightarrow> [Wrapf name e])"

definition hook_timeout :: "string \<Rightarrow> gerror list" where
  "hook_timeout name = [ErrorString (name @ '': timeout'')]"

text \<open>One hook at time \<open>t\<close> under the deadline \<open>D\<close>: the time afterwards and the errors it adds.\<close>

definition run_hook :: "gerror option option \<Rightarrow> int \<Rightarrow> Hook \<Rightarrow> int \<Rightarrow> int \<times> gerror list" where
  "run_hook race D hook t =
     (let hd = min D (t + h_Timeout hook) in
      if hd \<le> t then (t, case race of Some err \<Rightarrow> hook_error (h_Name hook) err | None \<Rightarrow> hook_timeout (h_Name hook))
      else
        (case h_Func hook (hd - t) of
           Hangs \<Rightarrow> (hd, hook_timeout (h_Name hook))
         | Returns d err \<Rightarrow>
             (if t + int d < hd then (t + int d, hook_error (h_Name hook) err)
              else if t + int d = hd \<and> race \<noteq> None then (hd, hook_error (h_Name hook) err)
              else (hd, hook_timeout (h_Name hook)))))"

fun hooks_loop :: "(nat \<Rightarrow> gerror option option) \<Rightarrow> int \<Rightarrow> nat \<Rightarrow> Hook list \<Rightarrow> int \<Rightarrow> gerror list \<Rightarrow> int \<times> gerror list" where
  "hooks_loop race D i [] t errors = (t, errors)"
| "hooks_loop race D i (hook # hooks) t errors =
     (case run_hook (race i) D hook t of (t', es) \<Rightarrow> hooks_loop race D (Suc i) hooks t' (errors @ es))"

definition Shutdown :: "(nat \<Rightarrow> gerror option option) \<Rightarrow> int \<Rightarrow> Manager \<Rightarrow> (int \<times> gerror list) outcome \<times> Manager" where
  "Shutdown race now m =
     (if m_shutdown_closed m then (Panic ''close of closed channel'', m)
      else
        (let m1 = m\<lparr>m_shutdown_closed := True\<rparr>;
             r = hooks_loop race (now + m_timeout m) 0 (m_hooks m) now []
         in if m_done_closed m1 then (Panic ''close of closed channel'', m1)
            else (Ret r, m1\<lparr>m_done_closed := True\<rparr>)))"

text \<open>\<open>ListenAndWait\<close> from the moment the signal has arrived; \<open>Shutdown\<close> has closed \<open>done\<close> when it returns, so that the
  receive after it returns at once.\<close>

definition ListenAndWait :: "(nat \<Rightarrow> gerror option option) \<Rightarrow> int \<Rightarrow> HealthChecker \<Rightarrow> Manager \<Rightarrow>
    (int \<times> gerror list) outcome \<times> HealthChecker \<times> Manager" where
  "ListenAndWait race now health m =
     (let health = UpdateComponent ''shutdown'' StatusDegraded ''Graceful shutdown in progress'' [] health in
      case Shutdown race now m of (r, m') \<Rightarrow> (r, health, m'))"

text \<open>\<open>WaitForShutdown\<close> and the channel \<open>Done\<close>: what a receive on them does now, returning or blocking.\<close>

definition WaitForShutdown :: "Manager \<Rightarrow> bool" where
  "WaitForShutdown m = m_shutdown_closed m"

definition Manager_Done :: "Manager \<Rightarrow> bool" where
  "Manager_Done m = m_done_closed m"

definition DefaultHooks :: "Hook list" where
  "DefaultHooks =
     [\<lparr>h_Name = ''stop-accepting-requests'', h_Priority = 0, h_Func = (\<lambda>_. Returns 0 None), h_Timeout = 5 * second\<rparr>,
      \<lparr>h_Name = ''drain-connections'', h_Priority = 10, h_Func = (\<lambda>_. Returns (nat (5 * second)) None), h_Timeout = 30 * second\<rparr>,
      \<lparr>h_Name = ''flush-metrics'', h_Priority = 20, h_Func = (\<lambda>_. Returns 0 None), h_Timeout = 10 * second\<rparr>,
      \<lparr>h_Name = ''close-database'', h_Priority = 90, h_Func = (\<lambda>_. Returns 0 None), h_Timeout = 15 * second\<rparr>]"

definition register_all :: "Hook list \<Rightarrow> Manager \<Rightarrow> Manager" where
  "register_all hs m = fold (\<lambda>h. RegisterHook (h_Name h) (h_Priority h) (h_Timeout h) (h_Func h)) hs m"

section \<open>Registration is a stable sort\<close>

lemma insert_hook_mset [simp]: "mset (insert_hook h hs) = add_mset h (mset hs)"
  by (induction hs) auto

lemma insert_hook_set [simp]: "set (insert_hook h hs) = insert h (set hs)"
  by (induction hs) auto

lemma insert_hook_sorted: "sorted (map h_Priority hs) \<Longrightarrow> sorted (map h_Priority (insert_hook h hs))"
  by (induction hs) (auto simp: not_less intro: order_trans)

lemma insert_hook_filter:
  "sorted (map h_Priority hs) \<Longrightarrow> filter (\<lambda>x. k = h_Priority x) (insert_hook h hs) =
     filter (\<lambda>x. k = h_Priority x) hs @ (if k = h_Priority h then [h] else [])"
proof (induction hs)
  case (Cons a hs)
  have "filter (\<lambda>x. h_Priority h = h_Priority x) (a # hs) = []" if "h_Priority h < h_Priority a"
    using that Cons.prems by (force simp: filter_empty_conv)
  with Cons show ?case by auto
qed simp

lemma register_all_hooks:
  assumes "sorted (map h_Priority (m_hooks m))"
  shows "mset (m_hooks (register_all hs m)) = mset (m_hooks m) + mset hs \<and>
    sorted (map h_Priority (m_hooks (register_all hs m))) \<and>
    (\<forall>k. filter (\<lambda>x. k = h_Priority x) (m_hooks (register_all hs m)) =
       filter (\<lambda>x. k = h_Priority x) (m_hooks m) @ filter (\<lambda>x. k = h_Priority x) hs)"
  using assms
proof (induction hs arbitrary: m)
  case (Cons h hs)
  let ?m = "RegisterHook (h_Name h) (h_Priority h) (h_Timeout h) (h_Func h) m"
  have hooks: "m_hooks ?m = insert_hook h (m_hooks m)" by (cases h) (simp add: RegisterHook_def)
  have "sorted (map h_Priority (m_hooks ?m))" unfolding hooks using Cons.prems by (rule insert_hook_sorted)
  from Cons.IH [OF this] show ?case using insert_hook_filter [OF Cons.prems] by (simp add: register_all_def hooks)
qed (simp add: register_all_def)

section \<open>The time a shutdown takes\<close>

lemma run_hook_time: "t \<le> fst (run_hook race D hook t) \<and> fst (run_hook race D hook t) \<le> max t D"
  by (auto simp: run_hook_def Let_def split: hook_run.splits)

lemma run_hook_errors: "length (snd (run_hook race D hook t)) \<le> 1"
  by (auto simp: run_hook_def hook_error_def hook_timeout_def Let_def split: hook_run.splits option.splits)

lemma hooks_loop_time:
  "hooks_loop race D i hooks t errors = (t', errors') \<Longrightarrow> t \<le> t' \<and> t' \<le> max t D \<and> length errors' \<le> length errors + length hooks"
proof (induction hooks arbitrary: i t errors)
  case (Cons h hs)
  obtain t1 es where one: "run_hook (race i) D h t = (t1, es)" by (metis surj_pair)
  with Cons.prems have "hooks_loop race D (Suc i) hs t1 (errors @ es) = (t', errors')" by simp
  from Cons.IH [OF this] run_hook_time [of t "race i" D h] run_hook_errors [of "race i" D h t] one show ?case by auto
qed simp

text \<open>A hook that returns in time, as a function of the time it needs.\<close>

definition quick :: "Hook \<Rightarrow> int \<Rightarrow> gerror option \<Rightarrow> bool" where
  "quick hook d err \<longleftrightarrow> 0 \<le> d \<and> d < h_Timeout hook \<and> (\<forall>left. h_Func hook left = Returns (nat d) err)"

lemma run_hook_quick:
  "quick hook d err \<Longrightarrow> t + d < D \<Longrightarrow> run_hook race D hook t = (t + d, hook_error (h_Name hook) err)"
  by (auto simp: run_hook_def quick_def Let_def)

lemma hooks_loop_quick:
  assumes "list_all2 (\<lambda>h (d, err). quick h d err) hooks runs" and "t + sum_list (map fst runs) < D"
  shows "hooks_loop race D i hooks t errors = (t + sum_list (map fst runs),
    errors @ concat (map2 (\<lambda>h (d, err). hook_error (h_Name h) err) hooks runs))"
  using assms
proof (induction hooks runs arbitrary: i t errors rule: list_all2_induct)
  case (Cons h hs r rs)
  obtain d err where r: "r = (d, err)" by (cases r)
  have "0 \<le> sum_list (map fst rs)"
    using Cons.hyps(2) by (induction rule: list_all2_induct) (auto simp: quick_def)
  with Cons.prems Cons.hyps(1) have "run_hook (race i) D h t = (t + d, hook_error (h_Name h) err)"
    by (intro run_hook_quick) (auto simp: r)
  with Cons.IH [of "t + d" "Suc i"] Cons.prems show ?case by (simp add: r add.assoc)
qed simp

section \<open>Properties\<close>

text \<open>
  C19. Registering hooks one after the other sorts them by priority and keeps the order of
  registration among equal priorities: the hooks are the stable sort of the registered list.
\<close>

theorem RegisterHook_stable_sort:
  "m_hooks (register_all hs (NewManager timeout)) = sort_key h_Priority hs"
  using register_all_hooks [of "NewManager timeout" hs]
  by (intro properties_for_sort_key [symmetric]) (auto simp: NewManager_def)

text \<open>
  C12. Shutting down ends: whatever the hooks do, hanging included, the first \<open>Shutdown\<close> returns within the manager's
  timeout, has reported at most one error per hook and closes both channels; a second one panics.
  When every hook returns within its own timeout and all of them within the common one, each has its own result reported,
  in priority order, and the shutdown takes exactly the sum of their times.
\<close>

theorem Shutdown_bounded:
  assumes "m = register_all hs (NewManager timeout)" and "Shutdown race now m = (r, m')"
  shows "(\<exists>t errors. r = Ret (t, errors) \<and> now \<le> t \<and> t \<le> now + max 0 timeout \<and> length errors \<le> length hs) \<and>
    WaitForShutdown m' \<and> Manager_Done m' \<and>
    Shutdown race' now' m' = (Panic ''close of closed channel'', m') \<and>
    (\<forall>runs. list_all2 (\<lambda>h (d, err). quick h d err) (sort_key h_Priority hs) runs \<and> sum_list (map fst runs) < timeout \<longrightarrow>
       r = Ret (now + sum_list (map fst runs),
         concat (map2 (\<lambda>h (d, err). hook_error (h_Name h) err) (sort_key h_Priority hs) runs)))"
proof -
  have same: "m_timeout m = timeout \<and> \<not> m_shutdown_closed m \<and> \<not> m_done_closed m"
  proof -
    have "m_timeout (register_all hs m0) = m_timeout m0 \<and> m_shutdown_closed (register_all hs m0) = m_shutdown_closed m0 \<and>
        m_done_closed (register_all hs m0) = m_done_closed m0" for m0
      by (induction hs arbitrary: m0) (simp_all add: register_all_def RegisterHook_def)
    then show ?thesis by (simp add: assms(1) NewManager_def)
  qed
  have hooks: "m_hooks m = sort_key h_Priority hs"
    unfolding assms(1) using register_all_hooks [of "NewManager timeout" hs]
    by (intro properties_for_sort_key [symmetric]) (auto simp: NewManager_def)
  obtain t errors where loop: "hooks_loop race (now + timeout) 0 (m_hooks m) now [] = (t, errors)" by (metis surj_pair)
  with assms(2) same have r: "r = Ret (t, errors)" "m' = m\<lparr>m_shutdown_closed := True, m_done_closed := True\<rparr>"
    by (simp_all add: Shutdown_def Let_def)
  have "r = Ret (now + sum_list (map fst runs),
      concat (map2 (\<lambda>h (d, err). hook_error (h_Name h) err) (sort_key h_Priority hs) runs))"
    if "list_all2 (\<lambda>h (d, err). quick h d err) (sort_key h_Priority hs) runs" "sum_list (map fst runs) < timeout" for runs
    using hooks_loop_quick [OF that(1), of now "now + timeout" race 0 "[]"] that(2) loop r(1) by (simp add: hooks)
  with hooks_loop_time [OF loop] r show ?thesis
    by (auto simp: hooks WaitForShutdown_def Manager_Done_def Shutdown_def)
qed

theorem Shutdown_bounded_witness:
  "\<exists>m'. Shutdown (\<lambda>_. None) 0 (register_all DefaultHooks (NewManager (60 * second))) = (Ret (5 * second, []), m') \<and>
     Shutdown (\<lambda>_. None) 9 m' = (Panic ''close of closed channel'', m')"
proof -
  let ?m = "register_all DefaultHooks (NewManager (60 * second))"
  obtain r m' where s: "Shutdown (\<lambda>_. None) 0 ?m = (r, m')" by (metis surj_pair)
  have "sort_key h_Priority DefaultHooks = DefaultHooks" by (simp add: DefaultHooks_def)
  moreover have "list_all2 (\<lambda>h (d, err). quick h d err) DefaultHooks [(0, None), (5 * second, None), (0, None), (0, None)]"
    by (simp add: DefaultHooks_def quick_def second_def)
  moreover have "concat (map2 (\<lambda>h (d, err). hook_error (h_Name h) err) DefaultHooks
      [(0::int, None), (5 * second, None), (0, None), (0, None)]) = []"
    by (simp add: DefaultHooks_def hook_error_def)
  ultimately have "r = Ret (5 * second, [])"
    using conjunct2 [OF conjunct2 [OF conjunct2 [OF conjunct2 [OF Shutdown_bounded [OF refl s]]]]]
    by (force simp: second_def)
  with s Shutdown_bounded [OF refl s, of "\<lambda>_. None" 9] show ?thesis by blast
qed

end
