(* ===== verification/SV_RateLimit.thy ===== *)
theory SV_RateLimit
  imports SV_Errors "HOL-Library.AList" "HOL-Library.Signed_Division"
begin

text \<open>
  \<open>internal/ratelimit/limiter.go\<close>: a token bucket per client, the client's address from
  the request headers, and the limits on memory and goroutines.

  The token bucket itself (\<open>golang.org/x/time/rate\<close>) is the parameter \<open>rate_pkg\<close>; what is shown here
  does not depend on how it counts. The HTTP request is a function from canonical header names to values
  (empty when absent) and the remote address; \<open>net.SplitHostPort\<close> of the standard library is modelled.
  Memory sizes are \<open>int64\<close> values that wrap around.
\<close>

section \<open>Limiter\<close>

record 'l rate_pkg =
  rate_NewLimiter :: "int \<Rightarrow> int \<Rightarrow> 'l"
  rate_Allow :: "int \<Rightarrow> 'l \<Rightarrow> bool \<times> 'l"
  rate_Wait :: "int \<Rightarrow> 'l \<Rightarrow> gerror option \<times> 'l"

record 'l Limiter =
  limiters :: "(string \<times> 'l) list"
  requestsPerSec :: int
  burst :: int
  ipWhitelist :: "string \<rightharpoonup> bool"
  enabled :: bool

fun whitelist_fill :: "string list \<Rightarrow> (string \<rightharpoonup> bool) \<Rightarrow> string \<rightharpoonup> bool" where
  "whitelist_fill [] ipMap = ipMap"
| "whitelist_fill (ip # ips) ipMap = whitelist_fill ips (ipMap(ip \<mapsto> True))"

definition NewLimiter :: "int \<Rightarrow> int \<Rightarrow> string list \<Rightarrow> bool \<Rightarrow> 'l Limiter" where
  "NewLimiter rps b whitelist en =
     \<lparr>limiters = [], requestsPerSec = rps, burst = b, ipWhitelist = whitelist_fill whitelist Map.empty, enabled = en\<rparr>"

definition whitelisted :: "'l Limiter \<Rightarrow> string \<Rightarrow> bool" where
  "whitelisted l identifier = (ipWhitelist l identifier = Some True)"

definition GetLimiter :: "'l rate_pkg \<Rightarrow> string \<Rightarrow> 'l Limiter \<Rightarrow> 'l \<times> 'l Limiter" where
  "GetLimiter R identifier l =
     (case map_of (limiters l) identifier of
        Some limiter \<Rightarrow> (limiter, l)
      | None \<Rightarrow>
          (let limiter = rate_NewLimiter R (requestsPerSec l) (burst l)
           in (limiter, l\<lparr>limiters := AList.update identifier limiter (limiters l)\<rparr>)))"

text \<open>The bucket is an object the map points to; using it updates it in place.\<close>

definition Limiter_Allow :: "'l rate_pkg \<Rightarrow> int \<Rightarrow> string \<Rightarrow> 'l Limiter \<Rightarrow> bool \<times> 'l Limiter" where
  "Limiter_Allow R now identifier l =
     (if \<not> enabled l then (True, l)
      else if whitelisted l identifier then (True, l)
      else
        (case GetLimiter R identifier l of
           (limiter, l1) \<Rightarrow>
             (case rate_Allow R now limiter of
                (ok, limiter') \<Rightarrow> (ok, l1\<lparr>limiters := AList.update identifier limiter' (limiters l1)\<rparr>))))"

definition Limiter_Wait :: "'l rate_pkg \<Rightarrow> int \<Rightarrow> string \<Rightarrow> 'l Limiter \<Rightarrow> gerror option \<times> 'l Limiter" where
  "Limiter_Wait R now identifier l =
     (if \<not> enabled l then (None, l)
      else if whitelisted l identifier then (None, l)
      else
        (case GetLimiter R identifier l of
           (limiter, l1) \<Rightarrow>
             (case rate_Wait R now limiter of
                (err, limiter') \<Rightarrow> (err, l1\<lparr>limiters := AList.update identifier limiter' (limiters l1)\<rparr>))))"

definition CleanupOldLimiters :: "'l Limiter \<Rightarrow> 'l Limiter" where
  "CleanupOldLimiters l = (if length (limiters l) > 10000 then l\<lparr>limiters := []\<rparr> else l)"

text \<open>\<open>StartCleanup\<close>: the ticks its goroutine takes before the context ends.\<close>

definition StartCleanup :: "int \<Rightarrow> nat \<Rightarrow> 'l Limiter \<Rightarrow> 'l Limiter outcome" where
  "StartCleanup interval ticks l =
     (if interval \<le> 0 then Panic ''non-positive interval for NewTicker'' else Ret ((CleanupOldLimiters ^^ ticks) l))"

section \<open>The client's address\<close>

definition is_blank :: "char \<Rightarrow> bool" where
  "is_blank c \<longleftrightarrow> c = CHR '' '' \<or> c = CHR 0x09"

definition trim :: "string \<Rightarrow> string" where
  "trim s = rev (dropWhile is_blank (rev (dropWhile is_blank s)))"

text \<open>The loop from the current index on; \<open>sep\<close> is only looked at when there is a byte to compare with.\<close>

fun split_loop :: "char \<Rightarrow> string \<Rightarrow> string list" where
  "split_loop c [] = []"
| "split_loop c (x # xs) =
     (let part = takeWhile (\<lambda>y. y \<noteq> c) (x # xs)
      in trim part # split_loop c (drop (Suc (length part)) (x # xs)))"

definition splitAndTrim :: "string \<Rightarrow> string \<Rightarrow> string list outcome" where
  "splitAndTrim s sep =
     (if s \<noteq> [] \<and> sep = [] then Panic ''index out of range [0] with length 0'' else Ret (split_loop (hd sep) s))"

definition parseXFF :: "string \<Rightarrow> string list outcome" where
  "parseXFF xff = (case splitAndTrim xff '','' of Panic m \<Rightarrow> Panic m | Ret ips \<Rightarrow> Ret (filter (\<lambda>ip. ip \<noteq> []) ips))"

record Request =
  rq_Header :: "string \<Rightarrow> string"
  rq_RemoteAddr :: string

text \<open>\<open>net.SplitHostPort\<close>, of which only the host and whether it fails are used.\<close>

definition split_bracket :: "string \<Rightarrow> string \<Rightarrow> string option" where
  "split_bracket hostport port =
     (let inner = takeWhile (\<lambda>c. c \<noteq> CHR '']'') (tl hostport);
          after = drop (Suc (length inner)) (tl hostport)
      in if CHR '']'' \<notin> set (tl hostport) then None
         else if after = CHR '':'' # port \<and> CHR ''['' \<notin> set (tl hostport) \<and> CHR '']'' \<notin> set after then Some inner
         else None)"

definition SplitHostPort :: "string \<Rightarrow> string option" where
  "SplitHostPort hostport =
     (if CHR '':'' \<notin> set hostport then None
      else
        (let port = rev (takeWhile (\<lambda>c. c \<noteq> CHR '':'') (rev hostport));
             host = take (length hostport - Suc (length port)) hostport
         in if hd hostport = CHR ''['' then split_bracket hostport port
            else if CHR '':'' \<in> set host then None
            else if CHR ''['' \<in> set hostport \<or> CHR '']'' \<in> set hostport then None
            else Some host))"

definition getIP :: "Request \<Rightarrow> string outcome" where
  "getIP r =
     (let xff = rq_Header r ''X-Forwarded-For'';
          rest = (if rq_Header r ''X-Real-IP'' \<noteq> [] then rq_Header r ''X-Real-IP''
                  else (case SplitHostPort (rq_RemoteAddr r) of None \<Rightarrow> rq_RemoteAddr r | Some ip \<Rightarrow> ip))
      in if xff \<noteq> [] then
           (case parseXFF xff of
              Panic m \<Rightarrow> Panic m
            | Ret ips \<Rightarrow> (if ips \<noteq> [] then Ret (hd ips) else Ret rest))
         else Ret rest)"

datatype mw_result = Served | Rejected int string

definition Middleware :: "'l rate_pkg \<Rightarrow> int \<Rightarrow> Request \<Rightarrow> 'l Limiter \<Rightarrow> mw_result outcome \<times> 'l Limiter" where
  "Middleware R now r l =
     (if \<not> enabled l then (Ret Served, l)
      else
        (case getIP r of
           Panic m \<Rightarrow> (Panic m, l)
         | Ret ip \<Rightarrow>
             (if whitelisted l ip then (Ret Served, l)
              else
                (case GetLimiter R ip l of
                   (limiter, l1) \<Rightarrow>
                     (case rate_Allow R now limiter of
                        (ok, limiter') \<Rightarrow>
                          (Ret (if ok then Served else Rejected 429 ''Rate limit exceeded''),
                           l1\<lparr>limiters := AList.update ip limiter' (limiters l1)\<rparr>))))))"

section \<open>ResourceLimiter\<close>

record ResourceLimiter =
  maxMemoryBytes :: i64
  maxDiskBytes :: i64
  maxGoroutines :: int
  currentMemory :: i64
  currentDisk :: i64
  goroutineCount :: int

definition NewResourceLimiter :: "int \<Rightarrow> int \<Rightarrow> int \<Rightarrow> ResourceLimiter" where
  "NewResourceLimiter maxMemoryMB maxDiskGB maxG =
     \<lparr>maxMemoryBytes = word_of_int maxMemoryMB * 1024 * 1024, maxDiskBytes = word_of_int maxDiskGB * 1024 * 1024 * 1024,
      maxGoroutines = maxG, currentMemory = 0, currentDisk = 0, goroutineCount = 0\<rparr>"

definition CheckMemory :: "i64 \<Rightarrow> ResourceLimiter \<Rightarrow> bool" where
  "CheckMemory bytes r = (sint (currentMemory r + bytes) \<le> sint (maxMemoryBytes r))"

definition AllocateMemory :: "i64 \<Rightarrow> ResourceLimiter \<Rightarrow> bool \<times> ResourceLimiter" where
  "AllocateMemory bytes r =
     (if sint (maxMemoryBytes r) < sint (currentMemory r + bytes) then (False, r)
      else (True, r\<lparr>currentMemory := currentMemory r + bytes\<rparr>))"

definition ReleaseMemory :: "i64 \<Rightarrow> ResourceLimiter \<Rightarrow> ResourceLimiter" where
  "ReleaseMemory bytes r =
     (let r = r\<lparr>currentMemory := currentMemory r - bytes\<rparr>
      in if sint (currentMemory r) < 0 then r\<lparr>currentMemory := 0\<rparr> else r)"

definition CheckGoroutine :: "ResourceLimiter \<Rightarrow> bool" where
  "CheckGoroutine r = (goroutineCount r < maxGoroutines r)"

definition StartGoroutine :: "ResourceLimiter \<Rightarrow> bool \<times> ResourceLimiter" where
  "StartGoroutine r =
     (if maxGoroutines r \<le> goroutineCount r then (False, r) else (True, r\<lparr>goroutineCount := goroutineCount r + 1\<rparr>))"

definition EndGoroutine :: "ResourceLimiter \<Rightarrow> ResourceLimiter" where
  "EndGoroutine r =
     (let r = r\<lparr>goroutineCount := goroutineCount r - 1\<rparr>
      in if goroutineCount r < 0 then r\<lparr>goroutineCount := 0\<rparr> else r)"

text \<open>The percentage is kept as the two operands of its floating-point division.\<close>

record resource_stats =
  memory_used_mb :: int
  memory_limit_mb :: int
  goroutines :: int
  goroutine_limit :: int
  memory_usage_pct :: "int \<times> int"

definition GetStats :: "ResourceLimiter \<Rightarrow> resource_stats" where
  "GetStats r =
     \<lparr>memory_used_mb = sint (currentMemory r) sdiv (1024 * 1024), memory_limit_mb = sint (maxMemoryBytes r) sdiv (1024 * 1024),
      goroutines = goroutineCount r, goroutine_limit = maxGoroutines r,
      memory_usage_pct = (sint (currentMemory r), sint (maxMemoryBytes r))\<rparr>"

section \<open>One bucket per client\<close>

fun allow_seq :: "'l rate_pkg \<Rightarrow> (int \<times> string) list \<Rightarrow> 'l Limiter \<Rightarrow> bool list \<times> 'l Limiter" where
  "allow_seq R [] l = ([], l)"
| "allow_seq R ((now, i) # rs) l =
     (case Limiter_Allow R now i l of
        (ok, l1) \<Rightarrow> (case allow_seq R rs l1 of (oks, l2) \<Rightarrow> (ok # oks, l2)))"

fun bucket_seq :: "'l rate_pkg \<Rightarrow> int list \<Rightarrow> 'l \<Rightarrow> bool list" where
  "bucket_seq R [] b = []"
| "bucket_seq R (now # ts) b = (case rate_Allow R now b of (ok, b') \<Rightarrow> ok # bucket_seq R ts b')"

definition bucket_of :: "'l rate_pkg \<Rightarrow> string \<Rightarrow> 'l Limiter \<Rightarrow> 'l" where
  "bucket_of R i l = (case map_of (limiters l) i of None \<Rightarrow> rate_NewLimiter R (requestsPerSec l) (burst l) | Some b \<Rightarrow> b)"

lemma Limiter_Allow_step:
  assumes "enabled l" and "Limiter_Allow R now i l = (ok, l')"
  shows "enabled l' \<and> ipWhitelist l' = ipWhitelist l \<and> requestsPerSec l' = requestsPerSec l \<and> burst l' = burst l \<and>
    (\<forall>x. \<not> whitelisted l x \<longrightarrow> bucket_of R x l' = (if x = i then snd (rate_Allow R now (bucket_of R i l)) else bucket_of R x l)) \<and>
    (\<not> whitelisted l i \<longrightarrow> ok = fst (rate_Allow R now (bucket_of R i l)))"
  using assms
  by (auto simp: Limiter_Allow_def GetLimiter_def bucket_of_def update_conv' Let_def split: option.splits if_splits prod.splits)

lemma allow_seq_isolated:
  assumes "enabled l" and "\<not> whitelisted l x"
  shows "map snd (filter (\<lambda>((now, i), ok). i = x) (zip rs (fst (allow_seq R rs l)))) =
    bucket_seq R (map fst (filter (\<lambda>(now, i). i = x) rs)) (bucket_of R x l)"
  using assms
proof (induction rs arbitrary: l)
  case (Cons r rs)
  obtain now i where r: "r = (now, i)" by (cases r)
  obtain ok l1 where one: "Limiter_Allow R now i l = (ok, l1)" by (metis surj_pair)
  note step = Limiter_Allow_step [OF Cons.prems(1) one]
  have "enabled l1" and "\<not> whitelisted l1 x" using step Cons.prems(2) by (simp_all add: whitelisted_def)
  note IH = Cons.IH [OF this]
  show ?case
  proof (cases "i = x")
    case True
    with IH step Cons.prems(2) one r show ?thesis by (auto simp: case_prod_unfold)
  next
    case False
    with IH step Cons.prems(2) one r show ?thesis by (simp add: case_prod_unfold)
  qed
qed simp

lemma allow_seq_length: "length (fst (allow_seq R rs l)) = length rs"
  by (induction rs arbitrary: l) (auto simp: case_prod_unfold)

section \<open>Addresses from headers\<close>

lemma split_loop_first:
  assumes "\<forall>c \<in> set ip. c \<noteq> sep" and "ip \<noteq> []" and "rest = [] \<or> hd rest = sep"
  shows "\<exists>parts. split_loop sep (ip @ rest) = trim ip # parts"
proof -
  have "takeWhile (\<lambda>y. y \<noteq> sep) (ip @ rest) = ip"
    using assms by (subst takeWhile_append2) (auto simp: takeWhile_eq_Nil_iff)
  with assms(2) show ?thesis by (cases ip) (auto simp: Let_def)
qed

lemma getIP_forwarded:
  assumes "rq_Header r ''X-Forwarded-For'' = ip @ rest" and "CHR '','' \<notin> set ip" and "ip \<noteq> []" and "trim ip = ip"
    and "rest = [] \<or> hd rest = CHR '',''"
  shows "getIP r = Ret ip"
proof -
  from assms have "\<exists>parts. split_loop (CHR '','') (ip @ rest) = ip # parts"
    using split_loop_first [of ip "CHR '',''" rest] by auto
  with assms(1,3) show ?thesis by (auto simp: getIP_def parseXFF_def splitAndTrim_def)
qed

lemma getIP_returns: "\<exists>ip. getIP r = Ret ip"
  by (auto simp: getIP_def parseXFF_def splitAndTrim_def Let_def)

section \<open>Resource counters\<close>

datatype resource_event = Allocate i64 | Release i64 | Go_start | Go_end

fun resource_step :: "resource_event \<Rightarrow> ResourceLimiter \<Rightarrow> ResourceLimiter" where
  "resource_step (Allocate n) r = snd (AllocateMemory n r)"
| "resource_step (Release n) r = ReleaseMemory n r"
| "resource_step Go_start r = snd (StartGoroutine r)"
| "resource_step Go_end r = EndGoroutine r"

fun sane_event :: "int \<Rightarrow> resource_event \<Rightarrow> bool" where
  "sane_event limit (Allocate n) \<longleftrightarrow> 0 \<le> sint n \<and> sint n + limit < 2 ^ 63"
| "sane_event limit (Release n) \<longleftrightarrow> 0 \<le> sint n"
| "sane_event limit _ \<longleftrightarrow> True"

definition resources_ok :: "ResourceLimiter \<Rightarrow> bool" where
  "resources_ok r \<longleftrightarrow> 0 \<le> sint (currentMemory r) \<and> sint (currentMemory r) \<le> sint (maxMemoryBytes r) \<and>
     0 \<le> goroutineCount r \<and> goroutineCount r \<le> maxGoroutines r"

lemma sint_add_small:
  "- (2 ^ 63) \<le> sint a + sint b \<Longrightarrow> sint a + sint b < 2 ^ 63 \<Longrightarrow> sint (a + b) = sint a + sint (b :: i64)"
  by (simp add: signed_take_bit_int_eq_self sint_word_ariths)

lemma sint_diff_small:
  "- (2 ^ 63) \<le> sint a - sint b \<Longrightarrow> sint a - sint b < 2 ^ 63 \<Longrightarrow> sint (a - b) = sint a - sint (b :: i64)"
  by (simp add: signed_take_bit_int_eq_self sint_word_ariths)

lemma resource_step_ok:
  assumes "resources_ok r" and "sane_event (sint (maxMemoryBytes r)) e"
  shows "resources_ok (resource_step e r) \<and> maxMemoryBytes (resource_step e r) = maxMemoryBytes r"
proof (cases e)
  case (Allocate n)
  with assms have "sint (currentMemory r + n) = sint (currentMemory r) + sint n"
    by (intro sint_add_small) (auto simp: resources_ok_def)
  with assms Allocate show ?thesis by (auto simp: resources_ok_def AllocateMemory_def)
next
  case (Release n)
  have "sint (currentMemory r) < 2 ^ 63" using sint_lt [of "currentMemory r"] by simp
  moreover have "sint n < 2 ^ 63" using sint_lt [of n] by simp
  ultimately have "sint (currentMemory r - n) = sint (currentMemory r) - sint n"
    using assms Release by (intro sint_diff_small) (auto simp: resources_ok_def)
  with assms Release show ?thesis by (auto simp: resources_ok_def ReleaseMemory_def Let_def)
qed (use assms in \<open>auto simp: resources_ok_def StartGoroutine_def EndGoroutine_def Let_def\<close>)

section \<open>Properties\<close>

text \<open>
  C17. Clients do not share a bucket: whatever requests the clients interleave, the answers to the requests of one client that is
  not whitelisted are exactly those of a single fresh bucket asked at the times of that client's own requests.
\<close>

theorem clients_isolated:
  assumes "ip \<notin> set whitelist"
  shows "map snd (filter (\<lambda>((now, i), ok). i = ip) (zip rs (fst (allow_seq R rs (NewLimiter rps b whitelist True))))) =
    bucket_seq R (map fst (filter (\<lambda>(now, i). i = ip) rs)) (rate_NewLimiter R rps b)"
proof -
  have "whitelist_fill ws m k = (if k \<in> set ws then Some True else m k)" for ws m k
    by (induction ws arbitrary: m) auto
  with assms have "\<not> whitelisted (NewLimiter rps b whitelist True :: 'a Limiter) ip"
    by (simp add: whitelisted_def NewLimiter_def)
  from allow_seq_isolated [OF _ this] show ?thesis by (simp add: NewLimiter_def bucket_of_def)
qed

definition wit_rate :: "int rate_pkg" where
  "wit_rate = \<lparr>rate_NewLimiter = (\<lambda>r b. b), rate_Allow = (\<lambda>now n. if 0 < n then (True, n - 1) else (False, n)),
     rate_Wait = (\<lambda>now n. (None, n))\<rparr>"

theorem clients_isolated_witness:
  "map snd (filter (\<lambda>((now, i), ok). i = ''a'')
     (zip [(1 :: int, ''a''), (2, ''b''), (3, ''a''), (4, ''a'')]
       (fst (allow_seq wit_rate [(1, ''a''), (2, ''b''), (3, ''a''), (4, ''a'')] (NewLimiter 1 2 [''c''] True))))) =
   [True, True, False]"
proof -
  have a: "''a'' \<notin> set [''c'']" by simp
  show ?thesis unfolding clients_isolated [OF a] by (simp add: wit_rate_def)
qed

text \<open>
  The rate limit can be avoided by a header: a request whose \<open>X-Forwarded-For\<close> starts with a whitelisted address
  is served whatever address it comes from, and does not touch any bucket.
\<close>

theorem forwarded_header_bypasses_limit:
  assumes "ip \<in> set whitelist" and "CHR '','' \<notin> set ip" and "ip \<noteq> []" and "trim ip = ip"
    and "rq_Header r ''X-Forwarded-For'' = ip @ rest" and "rest = [] \<or> hd rest = CHR '',''"
    and "ipWhitelist l = ipWhitelist (NewLimiter rps b whitelist en)"
  shows "Middleware R now r l = (Ret Served, l)"
proof -
  have "whitelist_fill ws m k = (if k \<in> set ws then Some True else m k)" for ws m k
    by (induction ws arbitrary: m) auto
  with assms(1,7) have "whitelisted l ip" by (simp add: whitelisted_def NewLimiter_def)
  with getIP_forwarded [OF assms(5,2,3,4,6)] show ?thesis by (simp add: Middleware_def)
qed

theorem forwarded_header_bypasses_limit_witness:
  "Middleware wit_rate 0 \<lparr>rq_Header = (\<lambda>k. if k = ''X-Forwarded-For'' then ''127.0.0.1, 8.8.8.8'' else []),
     rq_RemoteAddr = ''203.0.113.9:4711''\<rparr> (NewLimiter 1 0 [''127.0.0.1''] True) = (Ret Served, NewLimiter 1 0 [''127.0.0.1''] True)"
  by (rule forwarded_header_bypasses_limit [where ip = "''127.0.0.1''" and rest = "'', 8.8.8.8''" and whitelist = "[''127.0.0.1'']"])
    (simp_all add: trim_def is_blank_def)

text \<open>
  C31. The resource counters stay within their limits through every sequence of allocations, releases, starts and ends, provided
  no size is negative and no request exceeds what the \<open>int64\<close> can hold above the limit.
\<close>

theorem resource_bounds:
  assumes "resources_ok r" and "\<forall>e \<in> set es. sane_event (sint (maxMemoryBytes r)) e"
  shows "resources_ok (fold resource_step es r) \<and> maxMemoryBytes (fold resource_step es r) = maxMemoryBytes r"
  using assms
proof (induction es arbitrary: r)
  case (Cons e es)
  with resource_step_ok [of r e] show ?case by auto
qed simp

theorem resource_bounds_witness:
  "resources_ok (fold resource_step [Allocate 700000, Go_start, Allocate 700000, Release 900000, Go_end, Go_end]
     (NewResourceLimiter 1 1 4))"
proof -
  have "resources_ok (NewResourceLimiter 1 1 4)" by (simp add: NewResourceLimiter_def resources_ok_def)
  moreover have "sint (maxMemoryBytes (NewResourceLimiter 1 1 4)) = 1048576" by (simp add: NewResourceLimiter_def)
  ultimately show ?thesis
    using resource_bounds [of "NewResourceLimiter 1 1 4" "[Allocate 700000, Go_start, Allocate 700000, Release 900000, Go_end, Go_end]"]
    by (simp del: fold_simps)
qed

text \<open>
  Without that proviso the sum wraps around: a limiter of one megabyte with one byte in use accepts a request
  for the largest \<open>int64\<close>, and its counter is negative afterwards.
\<close>

lemma AllocateMemory_overflow:
  "fst (AllocateMemory (word_of_int (2 ^ 63 - 1)) (snd (AllocateMemory 1 (NewResourceLimiter 1 1 4)))) \<and>
   sint (currentMemory (snd (AllocateMemory (word_of_int (2 ^ 63 - 1)) (snd (AllocateMemory 1 (NewResourceLimiter 1 1 4)))))) = - (2 ^ 63)"
  by (simp add: AllocateMemory_def NewResourceLimiter_def)

end
