(* ===== verification/SV_Compression.thy ===== *)
theory SV_Compression
  imports SV_Errors
begin

text \<open>
  \<open>internal/compression/compress.go\<close>: the choice between no compression, gzip and zstd.

  The two formats are the parameter \<open>formats\<close> with what is documented of them in the locale
  \<open>format_laws\<close>: reading what a writer of any valid level wrote gives back the data. The levels
  \<open>gzip.NewWriterLevel\<close> accepts are written out.
\<close>

section \<open>compress.go\<close>

record formats =
  gz_Write :: "int \<Rightarrow> bytes \<Rightarrow> gerror option"
  gz_Close :: "int \<Rightarrow> bytes \<Rightarrow> gerror option"
  gz_bytes :: "int \<Rightarrow> bytes \<Rightarrow> bytes"
  gz_NewReader :: "bytes \<Rightarrow> gerror option"
  gz_ReadAll :: "bytes \<Rightarrow> gerror + bytes"
  zstd_NewWriter :: "int \<Rightarrow> gerror option"
  zstd_EncodeAll :: "int \<Rightarrow> bytes \<Rightarrow> bytes"
  zstd_NewReader :: "gerror option"
  zstd_DecodeAll :: "bytes \<Rightarrow> gerror + bytes"
  zstd_Close :: "gerror option"

text \<open>A \<open>Type\<close> is an \<open>int\<close>; its three constants count from 0.\<close>

type_synonym Type = int

definition Type_None :: Type where "Type_None = 0"
definition Gzip :: Type where "Gzip = 1"
definition Zstd :: Type where "Zstd = 2"

record Compressor =
  compressionType :: Type
  level :: int
  zstdEncoder :: "int option"

definition NewCompressor :: "formats \<Rightarrow> Type \<Rightarrow> int \<Rightarrow> gerror + Compressor" where
  "NewCompressor F t lv =
     (let c = \<lparr>compressionType = t, level = lv, zstdEncoder = None\<rparr> in
      if t = Zstd then
        (case zstd_NewWriter F lv of
           Some err \<Rightarrow> Inl (Wrapf ''failed to create zstd encoder'' err)
         | None \<Rightarrow> Inr (c\<lparr>zstdEncoder := Some lv\<rparr>))
      else Inr c)"

definition gzip_level_ok :: "int \<Rightarrow> bool" where
  "gzip_level_ok lv \<longleftrightarrow> - 2 \<le> lv \<and> lv \<le> 9"

definition compressGzip :: "formats \<Rightarrow> Compressor \<Rightarrow> bytes \<Rightarrow> gerror + bytes" where
  "compressGzip F c data =
     (if \<not> gzip_level_ok (level c) then
        Inl (Wrapf ''failed to create gzip writer'' (ErrorString (''gzip: invalid compression level: '' @ itoa (level c))))
      else
        (case gz_Write F (level c) data of
           Some err \<Rightarrow> Inl (Wrapf ''failed to write compressed data'' err)
         | None \<Rightarrow>
             (case gz_Close F (level c) data of
                Some err \<Rightarrow> Inl (Wrapf ''failed to close gzip writer'' err)
              | None \<Rightarrow> Inr (gz_bytes F (level c) data))))"

definition decompressGzip :: "formats \<Rightarrow> bytes \<Rightarrow> gerror + bytes" where
  "decompressGzip F data =
     (case gz_NewReader F data of
        Some err \<Rightarrow> Inl (Wrapf ''failed to create gzip reader'' err)
      | None \<Rightarrow>
          (case gz_ReadAll F data of
             Inl err \<Rightarrow> Inl (Wrapf ''failed to read decompressed data'' err)
           | Inr decompressed \<Rightarrow> Inr decompressed))"

text \<open>A compressor that was not made by \<open>NewCompressor\<close> may have a nil encoder.\<close>

definition compressZstd :: "formats \<Rightarrow> Compressor \<Rightarrow> bytes \<Rightarrow> (gerror + bytes) outcome" where
  "compressZstd F c data =
     (case zstdEncoder c of
        None \<Rightarrow> Panic ''invalid memory address or nil pointer dereference''
      | Some lv \<Rightarrow> Ret (Inr (zstd_EncodeAll F lv data)))"

definition decompressZstd :: "formats \<Rightarrow> bytes \<Rightarrow> gerror + bytes" where
  "decompressZstd F data =
     (case zstd_NewReader F of
        Some err \<Rightarrow> Inl (Wrapf ''failed to create zstd decoder'' err)
      | None \<Rightarrow>
          (case zstd_DecodeAll F data of
             Inl err \<Rightarrow> Inl (Wrapf ''failed to decompress zstd data'' err)
           | Inr decompressed \<Rightarrow> Inr decompressed))"

definition unsupported :: "Type \<Rightarrow> gerror" where
  "unsupported t = ErrorString (''unsupported compression type: '' @ itoa t)"

definition Compress :: "formats \<Rightarrow> Compressor \<Rightarrow> bytes \<Rightarrow> (gerror + bytes) outcome" where
  "Compress F c data =
     (if compressionType c = Type_None then Ret (Inr data)
      else if compressionType c = Gzip then Ret (compressGzip F c data)
      else if compressionType c = Zstd then compressZstd F c data
      else Ret (Inl (unsupported (compressionType c))))"

definition Decompress :: "formats \<Rightarrow> Compressor \<Rightarrow> bytes \<Rightarrow> gerror + bytes" where
  "Decompress F c data =
     (if compressionType c = Type_None then Inr data
      else if compressionType c = Gzip then decompressGzip F data
      else if compressionType c = Zstd then decompressZstd F data
      else Inl (unsupported (compressionType c)))"

definition Compressor_Close :: "formats \<Rightarrow> Compressor \<Rightarrow> gerror option" where
  "Compressor_Close F c = (if zstdEncoder c \<noteq> None then zstd_Close F else None)"

definition DefaultCompressor :: "formats \<Rightarrow> gerror + Compressor" where
  "DefaultCompressor F = NewCompressor F Zstd 3"

section \<open>What the formats promise\<close>

locale format_laws =
  fixes F :: formats
  assumes gzip_round_trip: "gzip_level_ok lv \<Longrightarrow> gz_NewReader F (gz_bytes F lv data) = None \<and>
      gz_ReadAll F (gz_bytes F lv data) = Inr data"
    and gzip_buffer: "gzip_level_ok lv \<Longrightarrow> gz_Write F lv data = None \<and> gz_Close F lv data = None"
    and zstd_round_trip: "zstd_DecodeAll F (zstd_EncodeAll F lv data) = Inr data"
    and zstd_reader: "zstd_NewReader F = None"
begin

lemma Decompress_Compress:
  assumes "NewCompressor F t lv = Inr c" and "NewCompressor F t lv' = Inr c'" and "Compress F c data = Ret (Inr z)"
  shows "Decompress F c' z = Inr data"
proof -
  have c: "compressionType c = t" "compressionType c' = t" "level c = lv" "t = Zstd \<Longrightarrow> zstdEncoder c = Some lv"
    using assms(1,2) by (auto simp: NewCompressor_def Let_def split: if_splits option.splits)
  consider "t = Type_None" | "t = Gzip" "gzip_level_ok lv" | "t = Zstd"
    using assms(3) c by (auto simp: Compress_def compressGzip_def split: if_splits)
  then show ?thesis
  proof cases
    case 2
    with assms(3) c gzip_buffer [of lv data] gzip_round_trip [of lv data] show ?thesis
      by (simp add: Compress_def compressGzip_def Decompress_def decompressGzip_def Gzip_def Type_None_def)
  qed (use assms(3) c zstd_round_trip zstd_reader in \<open>auto simp: Compress_def compressZstd_def Decompress_def decompressZstd_def
      Zstd_def Gzip_def Type_None_def\<close>)
qed

lemma Compress_succeeds:
  assumes "NewCompressor F t lv = Inr c"
  shows "(\<exists>z. Compress F c data = Ret (Inr z)) \<longleftrightarrow> t = Type_None \<or> t = Zstd \<or> t = Gzip \<and> gzip_level_ok lv"
proof -
  have c: "compressionType c = t" "level c = lv" "t = Zstd \<Longrightarrow> zstdEncoder c = Some lv"
    using assms by (auto simp: NewCompressor_def Let_def split: if_splits option.splits)
  then show ?thesis using gzip_buffer [of lv data]
    by (auto simp: Compress_def compressGzip_def compressZstd_def Gzip_def Zstd_def Type_None_def)
qed

end

section \<open>A concrete instance\<close>

definition ref_formats :: formats where
  "ref_formats = \<lparr>gz_Write = (\<lambda>_ _. None), gz_Close = (\<lambda>_ _. None), gz_bytes = (\<lambda>lv data. CHR 0x1F # CHR 0x8B # data),
     gz_NewReader = (\<lambda>z. if take 2 z = [CHR 0x1F, CHR 0x8B] then None else Some (ErrorString ''gzip: invalid header'')),
     gz_ReadAll = (\<lambda>z. Inr (drop 2 z)), zstd_NewWriter = (\<lambda>_. None), zstd_EncodeAll = (\<lambda>lv data. CHR 0x28 # data),
     zstd_NewReader = None,
     zstd_DecodeAll = (\<lambda>z. if z \<noteq> [] \<and> hd z = CHR 0x28 then Inr (tl z) else Inl (ErrorString ''invalid input: magic number mismatch'')),
     zstd_Close = None\<rparr>"

interpretation ref_fmt: format_laws ref_formats
  by unfold_locales (simp_all add: ref_formats_def)

section \<open>Properties\<close>



end
