(* ===== verification/SV_Logger.thy ===== *)
theory SV_Logger
  imports SV_Config SV_Snapshots "HOL-Library.AList"
begin

text \<open>
  \<open>internal/monitoring/logger.go\<close>: levels, fields, the two output formats and the global logger.

  A field value is what \<open>%v\<close> prints of it. The map of the fields is an association list in the order Go iterates over it.
  \<open>json.Marshal\<close> of an entry is the parameter \<open>marshal\<close>. Every logging call is a function to the bytes it writes
  to the output; \<open>Fatal\<close> also gives the exit code.
\<close>

section \<open>logger.go\<close>

definition DebugLevel :: int where "DebugLevel = 0"
definition InfoLevel :: int where "InfoLevel = 1"
definition WarnLevel :: int where "WarnLevel = 2"
definition ErrorLevel :: int where "ErrorLevel = 3"
definition FatalLevel :: int where "FatalLevel = 4"

lemmas level_defs = DebugLevel_def InfoLevel_def WarnLevel_def ErrorLevel_def FatalLevel_def

definition LogLevel_String :: "int \<Rightarrow> string" where
  "LogLevel_String l =
     (if l = DebugLevel then ''DEBUG'' else if l = InfoLevel then ''INFO'' else if l = WarnLevel then ''WARN''
      else if l = ErrorLevel then ''ERROR'' else if l = FatalLevel then ''FATAL'' else ''UNKNOWN'')"

type_synonym fields = "(string \<times> string) list"

record LogEntry =
  le_Timestamp :: int
  le_Level :: string
  le_Message :: string
  le_Fields :: fields
  le_Error :: string

record Logger =
  lg_level :: int
  lg_format :: string
  lg_fields :: fields

definition NewLogger :: "string \<Rightarrow> string \<Rightarrow> Logger" where
  "NewLogger lv fmt =
     \<lparr>lg_level = (if lv = ''debug'' then DebugLevel else if lv = ''info'' then InfoLevel else if lv = ''warn'' then WarnLevel
        else if lv = ''error'' then ErrorLevel else if lv = ''fatal'' then FatalLevel else InfoLevel),
      lg_format = fmt, lg_fields = []\<rparr>"

fun copy_fields :: "fields \<Rightarrow> fields \<Rightarrow> fields" where
  "copy_fields [] dst = dst"
| "copy_fields ((k, v) # kvs) dst = copy_fields kvs (AList.update k v dst)"

definition WithField :: "string \<Rightarrow> string \<Rightarrow> Logger \<Rightarrow> Logger" where
  "WithField key value l =
     \<lparr>lg_level = lg_level l, lg_format = lg_format l, lg_fields = AList.update key value (copy_fields (lg_fields l) [])\<rparr>"

definition WithFields :: "fields \<Rightarrow> Logger \<Rightarrow> Logger" where
  "WithFields fs l =
     \<lparr>lg_level = lg_level l, lg_format = lg_format l, lg_fields = copy_fields fs (copy_fields (lg_fields l) [])\<rparr>"

text \<open>The argument is the text of the error, if there is one.\<close>

definition WithError :: "string option \<Rightarrow> Logger \<Rightarrow> Logger" where
  "WithError err l = (case err of None \<Rightarrow> l | Some e \<Rightarrow> WithField ''error'' e l)"

fun format_fields :: "fields \<Rightarrow> string" where
  "format_fields [] = []"
| "format_fields ((k, v) # kvs) = '' '' @ k @ ''='' @ v @ format_fields kvs"

definition newline :: string where "newline = [CHR 0x0A]"

definition formatText :: "clock \<Rightarrow> LogEntry \<Rightarrow> string" where
  "formatText T e =
     ''['' @ rfc3339_format T (le_Timestamp e) @ ''] '' @ le_Level e @ '': '' @ le_Message e
     @ (if le_Fields e \<noteq> [] then '' |'' @ format_fields (le_Fields e) else [])
     @ (if le_Error e \<noteq> [] then '' | error='' @ le_Error e else []) @ newline"

definition Logger_log :: "(LogEntry \<Rightarrow> bytes) \<Rightarrow> clock \<Rightarrow> int \<Rightarrow> string \<Rightarrow> string option \<Rightarrow> int \<Rightarrow> Logger \<Rightarrow> bytes" where
  "Logger_log marshal T lv msg err now l =
     (if lv < lg_level l then []
      else
        (let entry = \<lparr>le_Timestamp = now, le_Level = LogLevel_String lv, le_Message = msg, le_Fields = lg_fields l,
               le_Error = (case err of None \<Rightarrow> [] | Some e \<Rightarrow> e)\<rparr>
         in if lg_format l = ''json'' then marshal entry @ newline else formatText T entry))"

text \<open>The calls; the formatting ones get the formatted message.\<close>

definition Logger_Debug :: "(LogEntry \<Rightarrow> bytes) \<Rightarrow> clock \<Rightarrow> string \<Rightarrow> int \<Rightarrow> Logger \<Rightarrow> bytes" where
  "Logger_Debug marshal T msg now l = Logger_log marshal T DebugLevel msg None now l"

definition Logger_Info :: "(LogEntry \<Rightarrow> bytes) \<Rightarrow> clock \<Rightarrow> string \<Rightarrow> int \<Rightarrow> Logger \<Rightarrow> bytes" where
  "Logger_Info marshal T msg now l = Logger_log marshal T InfoLevel msg None now l"

definition Logger_Warn :: "(LogEntry \<Rightarrow> bytes) \<Rightarrow> clock \<Rightarrow> string \<Rightarrow> int \<Rightarrow> Logger \<Rightarrow> bytes" where
  "Logger_Warn marshal T msg now l = Logger_log marshal T WarnLevel msg None now l"

definition Logger_Error :: "(LogEntry \<Rightarrow> bytes) \<Rightarrow> clock \<Rightarrow> string \<Rightarrow> int \<Rightarrow> Logger \<Rightarrow> bytes" where
  "Logger_Error marshal T msg now l = Logger_log marshal T ErrorLevel msg None now l"

definition Logger_Fatal :: "(LogEntry \<Rightarrow> bytes) \<Rightarrow> clock \<Rightarrow> string \<Rightarrow> int \<Rightarrow> Logger \<Rightarrow> bytes \<times> int" where
  "Logger_Fatal marshal T msg now l = (Logger_log marshal T FatalLevel msg None now l, 1)"

definition globalLogger0 :: Logger where
  "globalLogger0 = NewLogger ''info'' ''json''"

definition SetGlobalLogger :: "Logger \<Rightarrow> Logger \<Rightarrow> Logger" where
  "SetGlobalLogger new_logger old_logger = new_logger"

section \<open>Fields\<close>

lemma map_of_copy: "map_of (copy_fields kvs dst) k = (case map_of (rev kvs) k of None \<Rightarrow> map_of dst k | Some v \<Rightarrow> Some v)"
  by (induction kvs dst rule: copy_fields.induct) (auto simp: update_conv' map_add_def split: option.splits)

lemma map_of_rev_distinct: "distinct (map fst kvs) \<Longrightarrow> map_of (rev kvs) k = map_of kvs k"
  by (rule fun_cong [OF iffD2 [OF map_of_inject_set]]) (simp_all add: rev_map [symmetric])

lemma copy_fields_distinct: "distinct (map fst dst) \<Longrightarrow> distinct (map fst (copy_fields kvs dst))"
  by (induction kvs dst rule: copy_fields.induct) (simp_all add: distinct_update)

text \<open>Chains of \<open>WithField\<close> from a new logger.\<close>

definition derive :: "fields \<Rightarrow> Logger \<Rightarrow> Logger" where
  "derive kvs l = fold (\<lambda>(k, v). WithField k v) kvs l"

lemma derive_fields:
  assumes "distinct (map fst (lg_fields l))"
  shows "lg_level (derive kvs l) = lg_level l \<and> lg_format (derive kvs l) = lg_format l \<and>
    distinct (map fst (lg_fields (derive kvs l))) \<and>
    map_of (lg_fields (derive kvs l)) k = (case map_of (rev kvs) k of None \<Rightarrow> map_of (lg_fields l) k | Some v \<Rightarrow> Some v)"
  using assms
proof (induction kvs arbitrary: l)
  case (Cons kv kvs)
  obtain k' v where kv: "kv = (k', v)" by (cases kv)
  have d: "distinct (map fst (lg_fields (WithField k' v l)))"
    by (simp add: WithField_def distinct_update copy_fields_distinct)
  have "map_of (lg_fields (WithField k' v l)) k = (if k = k' then Some v else map_of (lg_fields l) k)"
    using Cons.prems by (simp add: WithField_def update_conv' map_of_copy map_of_rev_distinct split: option.splits)
  with Cons.IH [OF d] show ?case by (auto simp: derive_def kv WithField_def map_add_def split: option.splits)
qed (simp add: derive_def)

section \<open>Properties\<close>

text \<open>
  What gets logged: a logger derived from a new one by any chain of \<open>WithField\<close> writes a message exactly when
  its level is at least the configured one, as one entry that carries the last value given for each field; deriving it leaves the
  original logger as it was.
\<close>

theorem log_filtered:
  assumes "l = derive kvs (NewLogger lv fmt)"
  shows "(Logger_log marshal T severity msg err now l = [] \<longleftrightarrow> severity < lg_level (NewLogger lv fmt)) \<and>
    (\<forall>k. map_of (lg_fields l) k = map_of (rev kvs) k) \<and>
    (fmt = ''json'' \<and> lg_level (NewLogger lv fmt) \<le> severity \<longrightarrow>
       Logger_log marshal T severity msg err now l =
         marshal \<lparr>le_Timestamp = now, le_Level = LogLevel_String severity, le_Message = msg, le_Fields = lg_fields l,
           le_Error = (case err of None \<Rightarrow> [] | Some e \<Rightarrow> e)\<rparr> @ newline)"
proof -
  have "distinct (map fst (lg_fields (NewLogger lv fmt)))" by (simp add: NewLogger_def)
  note d = derive_fields [OF this, of kvs]
  then have "lg_level l = lg_level (NewLogger lv fmt)" "lg_format l = fmt" by (simp_all add: assms NewLogger_def)
  moreover have "map_of (lg_fields l) k = map_of (rev kvs) k" for k
    using d [of k] by (simp add: assms NewLogger_def split: option.splits)
  ultimately show ?thesis by (auto simp: Logger_log_def formatText_def newline_def Let_def)
qed

theorem log_filtered_witness:
  "Logger_log (\<lambda>e. le_Message e) ref_clock InfoLevel ''hi'' None 0 (derive [(''a'', ''1''), (''a'', ''2'')] (NewLogger ''warn'' ''json'')) = [] \<and>
   map_of (lg_fields (derive [(''a'', ''1''), (''a'', ''2'')] (NewLogger ''warn'' ''json''))) ''a'' = Some ''2''"
  using log_filtered [OF refl, of "\<lambda>e. le_Message e" ref_clock InfoLevel "''hi''" None 0 "[(''a'', ''1''), (''a'', ''2'')]" "''warn''" "''json''"]
  by (simp add: NewLogger_def level_defs)

text \<open>
  A level in capitals passes the validation of the configuration, which lowers it first, but not the constructor of the
  logger, which falls back to \<open>info\<close>.
\<close>

lemma capital_level_ignored:
  "Config_Validate ul ((applyDefaults empty_config)\<lparr>cfg_Monitoring := (cfg_Monitoring (applyDefaults empty_config))\<lparr>LogLevel := ''ERROR''\<rparr>\<rparr>) = None \<and>
   lg_level (NewLogger ''ERROR'' fmt) = InfoLevel \<and> lg_level (NewLogger ''error'' fmt) = ErrorLevel"
proof -
  have "list_all (\<lambda>c. byte_val c < 128) ''ERROR''" and "map ascii_lower ''ERROR'' = ''error''" by code_simp+
  then have "strings_ToLower ul ''ERROR'' = ''error''" by (simp only: strings_ToLower_def if_True)
  then show ?thesis
    by (simp add: Config_Validate_def applyDefaults_def empty_config_def defaults_defs or_default_def or_default_str_def
      bad_port_def validLogLevels_def NewLogger_def Let_def)
qed

end
