(* ===== verification/SV_MonServer.thy ===== *)
theory SV_MonServer
  imports SV_Logger SV_Health SV_Metrics "HOL-Library.Multiset"
begin

text \<open>
  \<open>internal/monitoring/server.go\<close>: the HTTP servers for metrics, health and profiling.

  A server is its address and the routes of its mux. The text of the metrics page is modelled byte for byte, except for two
  things that are arguments: the order in which Go iterates over the buckets of the histogram, and the two decimals of the average
  in seconds. The three shutdowns run concurrently and their results arrive in some order, the list \<open>arrivals\<close>.
\<close>

section \<open>The servers\<close>

datatype mon_handler = H_metrics | H_health | H_ready | H_live | H_pprof string

record http_server =
  Addr :: string
  mux :: "(string \<times> mon_handler) list"
  ReadTimeout :: int
  WriteTimeout :: int

record MetricsServer =
  metricsServer :: http_server
  healthServer :: http_server
  profilingServer :: "http_server option"

definition NewMetricsServer :: "int \<Rightarrow> int \<Rightarrow> int \<Rightarrow> bool \<Rightarrow> MetricsServer" where
  "NewMetricsServer metricsPort healthPort profilingPort enableProfiling =
     \<lparr>metricsServer = \<lparr>Addr = '':'' @ itoa metricsPort, mux = [(''/metrics'', H_metrics)],
        ReadTimeout = 5 * second, WriteTimeout = 10 * second\<rparr>,
      healthServer = \<lparr>Addr = '':'' @ itoa healthPort, mux = [(''/health'', H_health), (''/ready'', H_ready), (''/live'', H_live)],
        ReadTimeout = 5 * second, WriteTimeout = 10 * second\<rparr>,
      profilingServer = (if enableProfiling then
        Some \<lparr>Addr = '':'' @ itoa profilingPort,
          mux = [(''/debug/pprof/'', H_pprof ''Index''), (''/debug/pprof/cmdline'', H_pprof ''Cmdline''),
            (''/debug/pprof/profile'', H_pprof ''Profile''), (''/debug/pprof/symbol'', H_pprof ''Symbol''),
            (''/debug/pprof/trace'', H_pprof ''Trace'')],
          ReadTimeout = 5 * second, WriteTimeout = 60 * second\<rparr> else None)\<rparr>"

text \<open>\<open>Start\<close> starts one goroutine per server and always returns \<open>nil\<close>: the addresses that are served, and the result.\<close>

definition MetricsServer_Start :: "MetricsServer \<Rightarrow> string list \<times> gerror option" where
  "MetricsServer_Start ms =
     (Addr (metricsServer ms) # Addr (healthServer ms) # (case profilingServer ms of None \<Rightarrow> [] | Some s \<Rightarrow> [Addr s]), None)"

definition shutdown_results :: "(string \<Rightarrow> gerror option) \<Rightarrow> MetricsServer \<Rightarrow> gerror option list" where
  "shutdown_results shut ms =
     [map_option (Wrapf ''metrics server shutdown'') (shut (Addr (metricsServer ms))),
      map_option (Wrapf ''health server shutdown'') (shut (Addr (healthServer ms))),
      (case profilingServer ms of
         None \<Rightarrow> None
       | Some s \<Rightarrow> map_option (Wrapf ''profiling server shutdown'') (shut (Addr s)))]"

fun first_error :: "gerror option list \<Rightarrow> gerror option" where
  "first_error [] = None"
| "first_error (None # rs) = first_error rs"
| "first_error (Some e # rs) = Some e"

definition MetricsServer_Stop :: "gerror option list \<Rightarrow> gerror option" where
  "MetricsServer_Stop arrivals = first_error (take 3 arrivals)"

section \<open>The metrics page\<close>

definition metric_block :: "string \<Rightarrow> string \<Rightarrow> string \<Rightarrow> string \<Rightarrow> string list" where
  "metric_block name help typ val = [''# HELP '' @ name @ '' '' @ help, ''# TYPE '' @ name @ '' '' @ typ, name @ '' '' @ val]"

definition show_u64 :: "u64 \<Rightarrow> string" where "show_u64 n = itoa (uint n)"
definition show_i64 :: "i64 \<Rightarrow> string" where "show_i64 n = itoa (sint n)"

definition error_name :: "string \<Rightarrow> string" where
  "error_name t = ''shadowvault_errors_total{type='' @ [CHR 0x22] @ t @ [CHR 0x22] @ ''}''"

definition bucket_name :: "string \<Rightarrow> string" where
  "bucket_name b = ''shadowvault_backup_duration_seconds{le='' @ [CHR 0x22] @ b @ [CHR 0x22] @ ''}''"

definition metrics_lines :: "string list \<Rightarrow> (i64 \<Rightarrow> string) \<Rightarrow> Metrics \<Rightarrow> string list" where
  "metrics_lines order seconds m =
     metric_block ''shadowvault_backups_created_total'' ''Total number of backups created'' ''counter'' (show_u64 (BackupsCreated m)) @
     metric_block ''shadowvault_backups_failed_total'' ''Total number of failed backups'' ''counter'' (show_u64 (BackupsFailed m)) @
     metric_block ''shadowvault_restores_completed_total'' ''Total number of completed restores'' ''counter'' (show_u64 (RestoresCompleted m)) @
     metric_block ''shadowvault_restores_failed_total'' ''Total number of failed restores'' ''counter'' (show_u64 (RestoresFailed m)) @
     metric_block ''shadowvault_bytes_backed_up_total'' ''Total bytes backed up'' ''counter'' (show_u64 (BytesBackedUp m)) @
     metric_block ''shadowvault_bytes_restored_total'' ''Total bytes restored'' ''counter'' (show_u64 (BytesRestored m)) @
     metric_block ''shadowvault_chunks_stored_total'' ''Total number of chunks stored'' ''counter'' (show_u64 (ChunksStored m)) @
     metric_block ''shadowvault_chunks_fetched_total'' ''Total number of chunks fetched'' ''counter'' (show_u64 (ChunksFetched m)) @
     metric_block ''shadowvault_deduplicated_chunks_total'' ''Total number of deduplicated chunks'' ''counter'' (show_u64 (DeduplicatedChunks m)) @
     metric_block ''shadowvault_peers_connected'' ''Current number of connected peers'' ''gauge'' (show_i64 (PeersConnected m)) @
     metric_block ''shadowvault_peers_discovered_total'' ''Total number of peers discovered'' ''counter'' (show_u64 (PeersDiscovered m)) @
     metric_block ''shadowvault_messages_received_total'' ''Total messages received'' ''counter'' (show_u64 (MessagesReceived m)) @
     metric_block ''shadowvault_messages_sent_total'' ''Total messages sent'' ''counter'' (show_u64 (MessagesSent m)) @
     metric_block ''shadowvault_storage_used_bytes'' ''Current storage usage in bytes'' ''gauge'' (show_i64 (TotalStorageUsed m)) @
     metric_block ''shadowvault_blocks_stored_total'' ''Total blocks stored'' ''counter'' (show_u64 (BlocksStored m)) @
     metric_block ''shadowvault_blocks_deleted_total'' ''Total blocks deleted'' ''counter'' (show_u64 (BlocksDeleted m)) @
     metric_block ''shadowvault_gc_runs_total'' ''Total garbage collection runs'' ''counter'' (show_u64 (GarbageCollectionRuns m)) @
     [''# HELP shadowvault_errors_total Total errors by type'', ''# TYPE shadowvault_errors_total counter'',
      error_name ''total'' @ '' '' @ show_u64 (TotalErrors m), error_name ''network'' @ '' '' @ show_u64 (NetworkErrors m),
      error_name ''storage'' @ '' '' @ show_u64 (StorageErrors m), error_name ''crypto'' @ '' '' @ show_u64 (CryptoErrors m),
      ''# HELP shadowvault_backup_duration_seconds Backup duration distribution'',
      ''# TYPE shadowvault_backup_duration_seconds histogram''] @
     map (\<lambda>b. bucket_name b @ '' '' @ show_u64 (case Histogram_Snapshot (BackupDuration m) b of None \<Rightarrow> 0 | Some n \<Rightarrow> n)) order @
     [''shadowvault_backup_duration_seconds_avg '' @ seconds (Average (BackupDuration m))]"

definition metricsHandler :: "string list \<Rightarrow> (i64 \<Rightarrow> string) \<Rightarrow> Metrics \<Rightarrow> string" where
  "metricsHandler order seconds m = concat (map (\<lambda>l. l @ newline) (metrics_lines order seconds m))"

section \<open>Reading the page\<close>

text \<open>A scraper: the values of the lines whose first word is a given name.\<close>

fun split_lines :: "string \<Rightarrow> string \<Rightarrow> string list" where
  "split_lines acc [] = []"
| "split_lines acc (c # cs) = (if c = CHR 0x0A then rev acc # split_lines [] cs else split_lines (c # acc) cs)"

definition key_of :: "string \<Rightarrow> string" where
  "key_of l = takeWhile (\<lambda>c. c \<noteq> CHR '' '') l"

definition value_of :: "string \<Rightarrow> string" where
  "value_of l = drop (Suc (length (key_of l))) l"

definition scrape :: "string \<Rightarrow> string \<Rightarrow> string list" where
  "scrape name text = map value_of (filter (\<lambda>l. key_of l = name) (split_lines [] text))"

definition rows_of :: "string list \<Rightarrow> (string \<times> string) list" where
  "rows_of ls = filter (\<lambda>kv. fst kv \<noteq> ''#'') (map (\<lambda>l. (key_of l, value_of l)) ls)"

lemma split_lines_line: "CHR 0x0A \<notin> set l \<Longrightarrow> split_lines acc (l @ newline @ rest) = (rev acc @ l) # split_lines [] rest"
  by (induction l arbitrary: acc) (auto simp: newline_def)

lemma split_lines_concat:
  "\<forall>l \<in> set ls. CHR 0x0A \<notin> set l \<Longrightarrow> split_lines [] (concat (map (\<lambda>l. l @ newline) ls)) = ls"
  by (induction ls) (simp_all add: split_lines_line)

lemma scrape_rows:
  assumes "\<forall>l \<in> set ls. CHR 0x0A \<notin> set l" and "name \<noteq> ''#''"
  shows "scrape name (concat (map (\<lambda>l. l @ newline) ls)) = map snd (filter (\<lambda>kv. fst kv = name) (rows_of ls))"
  unfolding scrape_def split_lines_concat [OF assms(1)] using assms(2)
  by (induction ls) (auto simp: rows_of_def)

lemma key_value_line:
  "CHR '' '' \<notin> set name \<Longrightarrow> key_of (name @ CHR '' '' # v) = name \<and> value_of (name @ CHR '' '' # v) = v"
  by (auto simp: key_of_def value_of_def takeWhile_append)

lemma rows_of_append: "rows_of (ls @ ls') = rows_of ls @ rows_of ls'"
  by (simp add: rows_of_def)

lemma rows_of_comment: "rows_of ((''# '' @ c) # ls) = rows_of ls"
  by (simp add: rows_of_def key_of_def)

lemma rows_of_value: "CHR '' '' \<notin> set name \<Longrightarrow> name \<noteq> ''#'' \<Longrightarrow> rows_of ((name @ CHR '' '' # v) # ls) = (name, v) # rows_of ls"
  using key_value_line [of name v] by (simp add: rows_of_def)

lemma rows_of_block: "CHR '' '' \<notin> set name \<Longrightarrow> name \<noteq> ''#'' \<Longrightarrow> rows_of (metric_block name help typ v) = [(name, v)]"
  using rows_of_comment [of "''HELP '' @ name @ '' '' @ help"] rows_of_comment [of "''TYPE '' @ name @ '' '' @ typ"]
    rows_of_value [of name v "[]"]
  by (simp add: metric_block_def) (simp add: rows_of_def)

text \<open>What the page is to say.\<close>

definition exported :: "Metrics \<Rightarrow> (string \<times> string) list" where
  "exported m =
     [(''shadowvault_backups_created_total'', show_u64 (BackupsCreated m)), (''shadowvault_backups_failed_total'', show_u64 (BackupsFailed m)),
      (''shadowvault_restores_completed_total'', show_u64 (RestoresCompleted m)),
      (''shadowvault_restores_failed_total'', show_u64 (RestoresFailed m)),
      (''shadowvault_bytes_backed_up_total'', show_u64 (BytesBackedUp m)), (''shadowvault_bytes_restored_total'', show_u64 (BytesRestored m)),
      (''shadowvault_chunks_stored_total'', show_u64 (ChunksStored m)), (''shadowvault_chunks_fetched_total'', show_u64 (ChunksFetched m)),
      (''shadowvault_deduplicated_chunks_total'', show_u64 (DeduplicatedChunks m)),
      (''shadowvault_peers_connected'', show_i64 (PeersConnected m)), (''shadowvault_peers_discovered_total'', show_u64 (PeersDiscovered m)),
      (''shadowvault_messages_received_total'', show_u64 (MessagesReceived m)), (''shadowvault_messages_sent_total'', show_u64 (MessagesSent m)),
      (''shadowvault_storage_used_bytes'', show_i64 (TotalStorageUsed m)), (''shadowvault_blocks_stored_total'', show_u64 (BlocksStored m)),
      (''shadowvault_blocks_deleted_total'', show_u64 (BlocksDeleted m)), (''shadowvault_gc_runs_total'', show_u64 (GarbageCollectionRuns m))] @
     [(error_name ''total'', show_u64 (TotalErrors m)), (error_name ''network'', show_u64 (NetworkErrors m)),
      (error_name ''storage'', show_u64 (StorageErrors m)), (error_name ''crypto'', show_u64 (CryptoErrors m))]"

definition bucket_rows :: "string list \<Rightarrow> Metrics \<Rightarrow> (string \<times> string) list" where
  "bucket_rows order m = map (\<lambda>b. (bucket_name b, show_u64 (case Histogram_Snapshot (BackupDuration m) b of None \<Rightarrow> 0 | Some n \<Rightarrow> n))) order"

lemma rows_of_buckets:
  assumes "\<forall>b \<in> set order. CHR '' '' \<notin> set b"
  shows "rows_of (map (\<lambda>b. bucket_name b @ '' '' @ show_u64 (case Histogram_Snapshot (BackupDuration m) b of None \<Rightarrow> 0 | Some n \<Rightarrow> n)) order) =
    bucket_rows order m"
  using assms
proof (induction order)
  case (Cons b bs)
  then have "CHR '' '' \<notin> set (bucket_name b)" "bucket_name b \<noteq> ''#''" by (simp_all add: bucket_name_def)
  with Cons show ?case by (simp add: rows_of_value bucket_rows_def)
qed (simp add: rows_of_def bucket_rows_def)

lemma metrics_lines_rows:
  assumes "\<forall>b \<in> set order. CHR '' '' \<notin> set b"
  shows "rows_of (metrics_lines order seconds m) =
    exported m @ bucket_rows order m @ [(''shadowvault_backup_duration_seconds_avg'', seconds (Average (BackupDuration m)))]"
proof -
  have errors: "rows_of [''# HELP shadowvault_errors_total Total errors by type'', ''# TYPE shadowvault_errors_total counter'',
      error_name ''total'' @ '' '' @ a, error_name ''network'' @ '' '' @ b, error_name ''storage'' @ '' '' @ c, error_name ''crypto'' @ '' '' @ d,
      ''# HELP shadowvault_backup_duration_seconds Backup duration distribution'',
      ''# TYPE shadowvault_backup_duration_seconds histogram''] =
      [(error_name ''total'', a), (error_name ''network'', b), (error_name ''storage'', c), (error_name ''crypto'', d)]" for a b c d
    by (simp add: rows_of_def key_of_def value_of_def error_name_def)
  have avg: "rows_of [''shadowvault_backup_duration_seconds_avg '' @ v] = [(''shadowvault_backup_duration_seconds_avg'', v)]" for v
    by (simp add: rows_of_def key_of_def value_of_def)
  show ?thesis
    unfolding metrics_lines_def rows_of_append errors avg rows_of_buckets [OF assms] exported_def
    by (simp add: rows_of_block)
qed

lemma itoa_no_newline: "CHR 0x0A \<notin> set (itoa n)"
  using decimal_digits [of "CHR 0x0A"] by (auto simp: itoa_def)

lemma block_no_newline:
  "CHR 0x0A \<notin> set name \<Longrightarrow> CHR 0x0A \<notin> set help \<Longrightarrow> CHR 0x0A \<notin> set typ \<Longrightarrow> CHR 0x0A \<notin> set v \<Longrightarrow>
     \<forall>l \<in> set (metric_block name help typ v). CHR 0x0A \<notin> set l"
  by (simp add: metric_block_def)

lemma metrics_lines_no_newline:
  assumes "\<forall>b \<in> set order. CHR 0x0A \<notin> set b" and "\<forall>d. CHR 0x0A \<notin> set (seconds d)"
  shows "\<forall>l \<in> set (metrics_lines order seconds m). CHR 0x0A \<notin> set l"
proof -
  have u: "CHR 0x0A \<notin> set (show_u64 a)" "CHR 0x0A \<notin> set (show_i64 b)" for a b
    by (simp_all add: show_u64_def show_i64_def itoa_no_newline)
  have "CHR 0x0A \<notin> set (error_name t)" if "CHR 0x0A \<notin> set t" for t using that by (simp add: error_name_def)
  moreover have "CHR 0x0A \<notin> set (bucket_name b)" if "b \<in> set order" for b using that assms(1) by (simp add: bucket_name_def)
  ultimately show ?thesis
    unfolding metrics_lines_def set_append ball_Un using assms(2)
    by (intro conjI block_no_newline) (simp_all add: u)
qed

lemma exported_distinct: "distinct (map fst (exported m))"
  by (simp add: exported_def error_name_def)

lemma bucket_name_inject [simp]: "bucket_name a = bucket_name b \<longleftrightarrow> a = b"
  by (simp add: bucket_name_def)

lemma rows_distinct:
  assumes "distinct order"
  shows "distinct (map fst (exported m @ bucket_rows order m @ [(''shadowvault_backup_duration_seconds_avg'', v)]))"
proof -
  define A where "A = map fst (exported m)"
  define D where "D = map fst (bucket_rows order m)"
  define avg where "avg = ''shadowvault_backup_duration_seconds_avg''"
  have D: "D = map bucket_name order" by (simp add: D_def bucket_rows_def)
  have "distinct D" using assms by (simp add: D distinct_map inj_on_def)
  moreover have "distinct A" using exported_distinct by (simp add: A_def)
  moreover have "bucket_name b \<notin> set A" "bucket_name b \<noteq> avg" for b
    by (simp_all add: A_def avg_def exported_def bucket_name_def error_name_def)
  moreover have "avg \<notin> set A" by (simp add: A_def avg_def exported_def error_name_def)
  ultimately have "distinct (A @ D @ [avg])" by (auto simp: D)
  then show ?thesis by (simp add: A_def D_def avg_def)
qed

lemma filter_row: "distinct (map fst rows) \<Longrightarrow> (k, v) \<in> set rows \<Longrightarrow> map snd (filter (\<lambda>kv. fst kv = k) rows) = [v]"
  by (induction rows) (auto simp: filter_empty_conv image_iff)

section \<open>Properties\<close>

text \<open>
  C25. The metrics page says what the counters hold: a scraper that looks up any of the exported names, or a bucket of the
  backup histogram, finds exactly one line with exactly the current value, in whatever order the buckets are printed.
\<close>

theorem metrics_page:
  assumes "distinct order" and "\<forall>b \<in> set order. CHR 0x0A \<notin> set b \<and> CHR '' '' \<notin> set b" and "\<forall>d. CHR 0x0A \<notin> set (seconds d)"
  shows "(\<forall>(name, v) \<in> set (exported m). scrape name (metricsHandler order seconds m) = [v]) \<and>
    (\<forall>b \<in> set order. scrape (bucket_name b) (metricsHandler order seconds m) =
       [show_u64 (case buckets (BackupDuration m) b of None \<Rightarrow> 0 | Some n \<Rightarrow> n)])"
proof -
  let ?rows = "exported m @ bucket_rows order m @ [(''shadowvault_backup_duration_seconds_avg'', seconds (Average (BackupDuration m)))]"
  have "\<forall>l \<in> set (metrics_lines order seconds m). CHR 0x0A \<notin> set l"
    using assms by (intro metrics_lines_no_newline) auto
  from scrape_rows [OF this] have sc: "scrape k (metricsHandler order seconds m) = [v]" if "(k, v) \<in> set ?rows" "k \<noteq> ''#''" for k v
    using filter_row [OF rows_distinct [OF assms(1)] that(1)] that(2) assms(2)
    by (simp add: metricsHandler_def metrics_lines_rows)
  have "name \<noteq> ''#''" if "(name, v) \<in> set (exported m)" for name v
    using that by (auto simp: exported_def error_name_def)
  with sc show ?thesis by (force simp: bucket_rows_def Histogram_Snapshot_def bucket_name_def)
qed

theorem metrics_page_witness:
  "scrape ''shadowvault_messages_received_total'' (metricsHandler [''0-1s'', ''5m+''] (\<lambda>_. ''0.00'') (RecordMessageReceived NewMetrics)) = [''1'']"
proof -
  let ?m = "RecordMessageReceived NewMetrics"
  have "(''shadowvault_messages_received_total'', show_u64 (MessagesReceived ?m)) \<in> set (exported ?m)" by (simp add: exported_def)
  moreover have "show_u64 (MessagesReceived ?m) = ''1''"
  proof -
    have "itoa 1 = ''1''" by code_simp
    then show ?thesis by (simp add: RecordMessageReceived_def NewMetrics_def show_u64_def)
  qed
  moreover have "CHR 0x0A \<notin> set ''0.00''" by simp
  ultimately show ?thesis
    using metrics_page [of "[''0-1s'', ''5m+'']" "\<lambda>_. ''0.00''" ?m] by fastforce
qed

text \<open>
  \<open>Stop\<close> returns an error exactly when one of the shutdowns failed, whatever the order in which they end.
\<close>

lemma first_error_iff: "first_error rs = None \<longleftrightarrow> (\<forall>r \<in> set rs. r = None)"
  by (induction rs rule: first_error.induct) auto

lemma Stop_reports_failures:
  assumes "mset arrivals = mset (shutdown_results shut ms)"
  shows "MetricsServer_Stop arrivals = None \<longleftrightarrow>
    shut (Addr (metricsServer ms)) = None \<and> shut (Addr (healthServer ms)) = None \<and>
    (\<forall>s. profilingServer ms = Some s \<longrightarrow> shut (Addr s) = None)"
proof -
  from assms have "length arrivals = 3" by (metis size_mset shutdown_results_def length_Cons list.size(3) numeral_3_eq_3)
  moreover from assms have "set arrivals = set (shutdown_results shut ms)" by (metis set_mset_mset)
  ultimately show ?thesis
    by (auto simp: MetricsServer_Stop_def first_error_iff shutdown_results_def split: option.splits)
qed

end
