(* ===== verification/Spec2Isabelle.thy ===== *)
theory Spec2Isabelle
  imports SV_Verifier SV_Identity SV_API SV_Race SV_Scheduler SV_Shutdown SV_RateLimit SV_Compression SV_MonServer SV_Tools
begin

text \<open>
  ShadowVault, a decentralised encrypted backup agent written in Go: a verification development of the code under
  \<open>src/\<close>.

  \<^bold>\<open>The program.\<close> An agent (\<open>internal/agent\<close>) walks a directory (\<open>internal/snapshots\<close>), cuts every regular file
  into chunks at content-defined boundaries (\<open>internal/chunker\<close>), encrypts each chunk and stores it under the hash of its
  plaintext (\<open>internal/storage\<close>, \<open>internal/crypto\<close>), signs the list of hashes as a snapshot and records it
  (\<open>internal/versioning\<close>) in a bbolt database of four buckets (\<open>internal/persistence\<close>). Snapshots are announced to peers, and
  chunks requested and answered, with signed messages over a libp2p topic (\<open>internal/protocol\<close>, \<open>internal/p2p\<close>). A
  collector deletes expired snapshots and unreferenced chunks (\<open>internal/gc\<close>), a verifier checks and repairs snapshots
  (\<open>internal/verification\<close>). Around that: configuration (\<open>config\<close>), a scheduler, an HTTP interface, monitoring, rate limits, graceful
  shutdown, identities, compression, error values, the three commands under \<open>cmd\<close> and a stand-alone encryption tool.

  \<^bold>\<open>Conventions\<close> (\<open>SV_Prelude\<close>). A Go \<open>byte\<close> is a \<open>char\<close>, a \<open>[]byte\<close> or a \<open>string\<close> a \<open>char list\<close>;
  counters that can wrap around are words, other integers \<open>int\<close>; a struct is a record, a map a HOL map, or an association list
  in iteration order where the code iterates. A function that can panic returns an \<open>outcome\<close>, an error is a value of \<open>gerror\<close> in a
  sum or an option (\<open>SV_Errors\<close>). State is passed explicitly: \<open>world\<close> (database and number of random draws),
  \<open>pnode\<close> (world, metrics, pending fetches, channels, messages sent). What a mutex makes atomic is one operation.
  A clock reading, the outcome of a system call, or the choice of a \<open>select\<close> with several ready cases is an argument or
  a nondeterministic step.

  \<^bold>\<open>Code that is not in the repository\<close> is a parameter: a record of the functions the code calls, and a locale with the
  documented behaviour the proofs use. Each locale is interpreted on an executable instance, which the witnesses compute with.
  \<^item> \<open>prims\<close>, \<open>crypto_prims\<close>: SHA-256, AES-GCM, Ed25519, Argon2id, randomness (instance \<open>ref_prims\<close>);
  \<^item> \<open>bolt\<close>, \<open>bolt_db\<close>: bbolt (instance \<open>mem_bolt\<close>, sorted association lists);
  \<^item> \<open>codec\<close>, \<open>codec_laws\<close>: JSON of a snapshot; \<open>clock\<close>, \<open>clock_laws\<close>: RFC 3339 times; \<open>wire\<close>, \<open>inbox\<close>: JSON envelopes;
  \<^item> \<open>net\<close>: libp2p; \<open>rate_pkg\<close>: the token bucket; \<open>idlib\<close>, \<open>osfs\<close>, \<open>identity_env\<close>: libp2p keys and the file system;
    \<open>formats\<close>, \<open>format_laws\<close>: gzip and zstd; \<open>evp\<close>, \<open>evp_laws\<close>: OpenSSL; \<open>bodies\<close>, \<open>hostview\<close>: request bodies and the
    state of the libp2p host.

  \<^bold>\<open>Contracts between components\<close> are locales, discharged for the model's own definitions where these are defined: \<open>chunk_store\<close>
  and \<open>encrypted_store\<close> (\<open>SV_Store\<close>), \<open>snapshot_repo\<close> (\<open>SV_Versioning\<close>), \<open>gc_client\<close> (\<open>SV_GC\<close>, from the two
  and the independence of their buckets), \<open>signed_message\<close> (\<open>SV_Protocol\<close>, five message types), and the environments
  \<open>store_env\<close>, \<open>version_env\<close>, \<open>agent_env\<close>, \<open>race_env\<close>, which combine them. The properties take such a locale as a
  hypothesis about the parameters and are proved from its lemmas.

  \<^bold>\<open>Theories, and what they show.\<close>
  \<^item> \<open>SV_Errors\<close> (\<open>internal/errors\<close>): codes, retry flags and statuses survive wrapping.
  \<^item> \<open>SV_Crypto\<close> (\<open>internal/crypto\<close>, \<open>internal/auth\<close>), \<open>SV_Persistence\<close> (\<open>internal/persistence\<close>): the wrappers, the access list,
    transactions, opening.
  \<^item> \<open>SV_Store\<close> (\<open>internal/storage\<close>): reading back what was put, deduplication, totality.
  \<^item> \<open>SV_Chunker\<close> (\<open>internal/chunker\<close>): the scan finds the first boundary, sizes are bounded, and the exact condition under which
    chunking is lossless; otherwise the bytes after a boundary are lost.
  \<^item> \<open>SV_Versioning\<close> (\<open>internal/versioning\<close>): the snapshot bucket is a map from IDs to snapshots.
  \<^item> \<open>SV_Snapshots\<close> (\<open>internal/snapshots\<close>): a snapshot lists all chunks of all files and each can be read back; a backup of a readable
    tree succeeds; the signature verifies; two backups in one second share an ID.
  \<^item> \<open>SV_GC\<close> (\<open>internal/gc\<close>): live data survives any run, failing or not; with working commits exactly the garbage is gone.
  \<^item> \<open>SV_Verifier\<close> (\<open>internal/verification\<close>): what a report counts, and that it reports healthy chunks as corrupted.
  \<^item> \<open>SV_Metrics\<close>, \<open>SV_Health\<close>, \<open>SV_Logger\<close>, \<open>SV_MonServer\<close> (\<open>internal/monitoring\<close>): counters and histograms agree; the
    overall status is the worst reported; what is logged; a scraper reads the counters off the metrics page.
  \<^item> \<open>SV_Protocol\<close> (\<open>internal/protocol\<close>), \<open>SV_Sync\<close>, \<open>SV_Host\<close> (\<open>internal/p2p\<close>): accepted messages are those whose signature verifies;
    only data with the right hash is stored; a fetch that is answered returns; bootstrapping.
  \<^item> \<open>SV_Config\<close> (\<open>config\<close>): a configuration that loads gives sizes the chunker works with; the environment wins.
  \<^item> \<open>SV_Agent\<close> (\<open>internal/agent\<close>, \<open>cmd\<close>): backup followed by restore gives the files back; peer messages cannot touch snapshots; what a
    new agent establishes; a restarted agent has another key.
  \<^item> \<open>SV_Race\<close>: backup and collection as interleaved transactions, safe under a lock, unsafe without.
  \<^item> \<open>SV_Scheduler\<close> (\<open>internal/scheduler\<close>): invariant of all interleavings, retry policy.
  \<^item> \<open>SV_Shutdown\<close> (\<open>internal/shutdown\<close>): stable order of hooks, bounded time.
  \<^item> \<open>SV_RateLimit\<close> (\<open>internal/ratelimit\<close>): independence of clients, spoofed addresses, resource bounds.
  \<^item> \<open>SV_API\<close> (\<open>internal/api\<close>): which requests start work, lookup of snapshots.
  \<^item> \<open>SV_Identity\<close>, \<open>SV_Compression\<close>, \<open>SV_Tools\<close> (\<open>internal/identity\<close>, \<open>internal/compression\<close>, \<open>tools/aesgcm_file.cpp\<close>): round trips, and a
    command line that cannot be satisfied.

  \<^bold>\<open>Loops and fuel.\<close> Every loop of the code is a recursion on the data it consumes and needs no fuel: the chunk loop of a file ends because
  each buffer takes bytes from the file (a measure), the background loops are functions of the ticks, messages or steps they
  take, and the schedulers are step relations whose reachable states the invariants cover.

  \<^bold>\<open>Not modelled:\<close> log lines other than in \<open>SV_Logger\<close>, response headers, sockets and signals, floating-point percentages (kept as their two
  operands), the command-line parser of the Go commands, \<open>tools/hashfile.c\<close> and \<open>tools/verify_snapshot.rs\<close>, the unused protocol buffer
  declarations, the web page and the shell scripts.
\<close>

end
